(* ===== verification/Url_Path.thy ===== *)
theory Url_Path
  imports Wba_Prelude
begin

unbundle bit_operations_syntax

text \<open>
  Path normalisation of \<open>crates/protocol/src/lib.rs\<close>: percent-encoding case and unreserved escapes
  (\<open>normalize_percent_encoding\<close>) and dot segments (\<open>remove_dot_segments\<close>). The lemmas relate the two
  loops to reference definitions on tokens and on path segments.
\<close>

section \<open>Percent encoding\<close>

text \<open>\<open>hex_value\<close> and \<open>hex_digit\<close>, on the byte's value as the source has it.\<close>

definition hex_value :: "char \<Rightarrow> nat option" where
  "hex_value c =
     (let v = byte_val c in
      if 48 \<le> v \<and> v \<le> 57 then Some (v - 48)
      else if 97 \<le> v \<and> v \<le> 102 then Some (v - 97 + 10)
      else if 65 \<le> v \<and> v \<le> 70 then Some (v - 65 + 10)
      else None)"

definition hex_digit :: "nat \<Rightarrow> char" where
  "hex_digit v = (if v \<le> 9 then char_of (48 + v) else char_of (65 + v - 10))"

text \<open>\<open>byte.is_ascii_alphanumeric() || matches!(byte, b'-' | b'.' | b'_' | b'~')\<close>.\<close>

definition is_unreserved :: "nat \<Rightarrow> bool" where
  "is_unreserved v \<longleftrightarrow>
     (48 \<le> v \<and> v \<le> 57) \<or> (65 \<le> v \<and> v \<le> 90) \<or> (97 \<le> v \<and> v \<le> 122) \<or>
     v = 45 \<or> v = 46 \<or> v = 95 \<or> v = 126"

definition escape_pair :: "char \<Rightarrow> char \<Rightarrow> (nat \<times> nat) option" where
  "escape_pair a b =
     (case hex_value a of None \<Rightarrow> None
      | Some high \<Rightarrow> (case hex_value b of None \<Rightarrow> None | Some low \<Rightarrow> Some (high, low)))"

definition normalize_escape :: "nat \<Rightarrow> nat \<Rightarrow> string" where
  "normalize_escape high low =
     (let byte = push_bit 4 high OR low in
      if is_unreserved byte then push_byte_as_char (char_of byte)
      else [CHR ''%'', hex_digit high, hex_digit low])"

text \<open>
  The loop of \<open>normalize_percent_encoding\<close>, on the bytes from \<open>index\<close> on. The test
  \<open>index + 2 < bytes.len()\<close> is the pattern with two more bytes.
\<close>

fun normalize_percent_encoding :: "string \<Rightarrow> string" where
  "normalize_percent_encoding [] = []"
| "normalize_percent_encoding (c # a # b # rest) =
     (case (if c = CHR ''%'' then escape_pair a b else None) of
        Some (high, low) \<Rightarrow> normalize_escape high low @ normalize_percent_encoding rest
      | None \<Rightarrow> push_byte_as_char c @ normalize_percent_encoding (a # b # rest))"
| "normalize_percent_encoding (c # rest) = push_byte_as_char c @ normalize_percent_encoding rest"

section \<open>Dot segments\<close>

definition remove_last_path_segment :: "string \<Rightarrow> string" where
  "remove_last_path_segment output =
     (case rfind_char (CHR ''/'') output of Some separator \<Rightarrow> take separator output | None \<Rightarrow> [])"

text \<open>
  The loop of \<open>remove_dot_segments\<close> on \<open>input\<close> and \<open>output\<close>. The slice \<open>input[1..]\<close> panics when
  byte 1 is not a character boundary; that is the result \<^const>\<open>None\<close>.
\<close>

definition segment_end :: "string \<Rightarrow> nat" where
  "segment_end input =
     (case find_char (CHR ''/'') (drop 1 input) of None \<Rightarrow> length input | Some index \<Rightarrow> index + 1)"

function remove_dot_segments_loop :: "string \<Rightarrow> string \<Rightarrow> string option" where
  "remove_dot_segments_loop input output =
     (if input = [] then Some output
      else if input = ''.'' \<or> input = ''..'' then remove_dot_segments_loop [] output
      else case strip_prefix ''../'' input of Some rest \<Rightarrow> remove_dot_segments_loop rest output | None \<Rightarrow>
           case strip_prefix ''./'' input of Some rest \<Rightarrow> remove_dot_segments_loop rest output | None \<Rightarrow>
      (if input = ''/.'' then remove_dot_segments_loop ''/'' output
      else case strip_prefix ''/./'' input of
        Some rest \<Rightarrow> remove_dot_segments_loop (CHR ''/'' # rest) output | None \<Rightarrow>
      (if input = ''/..'' then remove_dot_segments_loop ''/'' (remove_last_path_segment output)
      else case strip_prefix ''/../'' input of
        Some rest \<Rightarrow>
          remove_dot_segments_loop (CHR ''/'' # rest) (remove_last_path_segment output) | None \<Rightarrow>
      (if \<not> is_char_boundary 1 input then None
       else remove_dot_segments_loop (drop (segment_end input) input)
              (output @ take (segment_end input) input)))))"
  by pat_completeness auto
termination
  by (relation "measure (\<lambda>(input, output). length input)")
    (auto simp: strip_prefix_Some_iff segment_end_def split: option.splits)

declare remove_dot_segments_loop.simps [simp del]

definition remove_dot_segments :: "string \<Rightarrow> string option" where
  "remove_dot_segments path = remove_dot_segments_loop path []"

definition normalize_path :: "string \<Rightarrow> string option" where
  "normalize_path path = remove_dot_segments (normalize_percent_encoding path)"

section \<open>Reference definitions\<close>

text \<open>
  A path as tokens: a literal byte, or an escape given by its two digit values. A \<open>%\<close> that does not
  start an escape is a literal, as in the code.
\<close>

datatype path_token = Literal char | Escaped nat nat

fun tokenize :: "string \<Rightarrow> path_token list" where
  "tokenize [] = []"
| "tokenize (c # a # b # rest) =
     (case (if c = CHR ''%'' then escape_pair a b else None) of
        Some (high, low) \<Rightarrow> Escaped high low # tokenize rest
      | None \<Rightarrow> Literal c # tokenize (a # b # rest))"
| "tokenize (c # rest) = Literal c # tokenize rest"

fun render_token :: "path_token \<Rightarrow> string" where
  "render_token (Literal c) = [c]"
| "render_token (Escaped high low) = [CHR ''%'', hex_digit high, hex_digit low]"

fun norm_token :: "path_token \<Rightarrow> path_token" where
  "norm_token (Literal c) = Literal c"
| "norm_token (Escaped high low) =
     (if is_unreserved (16 * high + low) then Literal (char_of (16 * high + low))
      else Escaped high low)"

fun decode_token :: "path_token \<Rightarrow> char" where
  "decode_token (Literal c) = c"
| "decode_token (Escaped high low) = char_of (16 * high + low)"

text \<open>The bytes a path stands for, and the paths in which every \<open>%\<close> starts an escape.\<close>

definition percent_decode :: "string \<Rightarrow> string" where
  "percent_decode s = map decode_token (tokenize s)"

definition well_escaped :: "string \<Rightarrow> bool" where
  "well_escaped s \<longleftrightarrow> Literal (CHR ''%'') \<notin> set (tokenize s)"

text \<open>
  Dot segments on the list of segments (RFC 3986, section 5.2.4): \<open>.\<close> is dropped and \<open>..\<close> drops the
  segment before it; as the last segment each leaves an empty segment, the trailing slash.
\<close>

fun collapse_segments :: "string list \<Rightarrow> string list \<Rightarrow> string list" where
  "collapse_segments out [] = out"
| "collapse_segments out [s] =
     (if s = ''.'' then out @ [[]] else if s = ''..'' then butlast out @ [[]] else out @ [s])"
| "collapse_segments out (s # t # ss) =
     (if s = ''.'' then collapse_segments out (t # ss)
      else if s = ''..'' then collapse_segments (butlast out) (t # ss)
      else collapse_segments (out @ [s]) (t # ss))"

definition render_segments :: "string list \<Rightarrow> string" where
  "render_segments ss = concat (map (\<lambda>s. CHR ''/'' # s) ss)"

definition dot_segment :: "string \<Rightarrow> bool" where
  "dot_segment s \<longleftrightarrow> s = ''.'' \<or> s = ''..''"

section \<open>Percent encoding against its reference\<close>

lemma hex_value_bound: "hex_value c = Some v \<Longrightarrow> v < 16"
  by (auto simp: hex_value_def Let_def split: if_splits)

lemma escape_pair_bound: "escape_pair a b = Some (h, l) \<Longrightarrow> h < 16 \<and> l < 16"
  by (auto simp: escape_pair_def split: option.splits dest: hex_value_bound)

lemma hex_value_digit: "v < 16 \<Longrightarrow> hex_value (hex_digit v) = Some v"
  by (auto simp: hex_value_def hex_digit_def byte_val_def Let_def of_char_of)

lemma escape_pair_digits: "h < 16 \<Longrightarrow> l < 16 \<Longrightarrow> escape_pair (hex_digit h) (hex_digit l) = Some (h, l)"
  by (simp add: escape_pair_def hex_value_digit)

lemma byte_of_digits: "l < 16 \<Longrightarrow> push_bit 4 h OR l = 16 * h + (l :: nat)"
proof -
  assume l: "l < 16"
  have "push_bit 4 h OR l = push_bit 4 h + l"
  proof (rule disjunctive_add [symmetric])
    show "\<not> bit (push_bit 4 h) n \<or> \<not> bit l n" for n
      using l bit_take_bit_iff [of 4 l n]
      by (auto simp: bit_push_bit_iff take_bit_nat_eq_self)
  qed
  then show ?thesis by (simp add: push_bit_eq_mult)
qed

lemma is_unreserved_ascii: "is_unreserved v \<Longrightarrow> v < 128 \<and> v \<noteq> 37"
  by (auto simp: is_unreserved_def)

lemma normalize_escape_eq:
  "l < 16 \<Longrightarrow> normalize_escape h l = render_token (norm_token (Escaped h l))"
  by (auto simp: normalize_escape_def byte_of_digits Let_def push_byte_as_char_def
      is_ascii_byte_def byte_val_def of_char_of dest: is_unreserved_ascii)

lemma normalize_percent_encoding_tokens:
  "is_ascii s \<Longrightarrow>
   normalize_percent_encoding s = concat (map (render_token \<circ> norm_token) (tokenize s))"
proof (induction s rule: normalize_percent_encoding.induct)
  case (2 c a b rest)
  show ?case
  proof (cases "if c = CHR ''%'' then escape_pair a b else None")
    case None
    with 2 show ?thesis by simp
  next
    case (Some p)
    obtain h l where p: "p = (h, l)" by (cases p)
    with Some have "l < 16" by (auto split: if_splits dest: escape_pair_bound)
    with 2 Some p show ?thesis by (simp add: normalize_escape_eq)
  qed
qed (simp_all add: comp_def)

lemma tokenize_bound: "Escaped h l \<in> set (tokenize s) \<Longrightarrow> h < 16 \<and> l < 16"
  by (induction s rule: tokenize.induct)
    (auto split: option.splits if_splits dest: escape_pair_bound)

lemma char_of_percent: "n < 256 \<Longrightarrow> char_of n = CHR ''%'' \<Longrightarrow> n = (37 :: nat)"
proof -
  assume n: "n < 256" and eq: "char_of n = CHR ''%''"
  have "n = of_char (char_of n :: char)" using n by (simp add: of_char_of)
  also have "\<dots> = 37" by (simp add: eq)
  finally show ?thesis .
qed

lemma norm_token_no_percent:
  assumes "t \<noteq> Literal (CHR ''%'')" and "\<And>h l. t = Escaped h l \<Longrightarrow> h < 16 \<and> l < 16"
  shows "norm_token t \<noteq> Literal (CHR ''%'')"
proof (cases t)
  case (Escaped h l)
  with assms(2) have "16 * h + l < 256" by fastforce
  with Escaped show ?thesis
    by (auto dest: is_unreserved_ascii char_of_percent)
qed (use assms in simp)

lemma tokenize_render:
  assumes "Literal (CHR ''%'') \<notin> set ts"
    and "\<And>h l. Escaped h l \<in> set ts \<Longrightarrow> h < 16 \<and> l < 16"
  shows "tokenize (concat (map render_token ts)) = ts"
  using assms
proof (induction ts)
  case (Cons t ts)
  have IH: "tokenize (concat (map render_token ts)) = ts"
    using Cons by (metis list.set_intros(2))
  show ?case
  proof (cases t)
    case (Literal c)
    with Cons.prems have c: "c \<noteq> CHR ''%''" by auto
    have "tokenize (c # s) = Literal c # tokenize s" for s
      using c by (cases s rule: tokenize.cases) auto
    with Literal IH show ?thesis by simp
  next
    case (Escaped h l)
    with Cons.prems have "h < 16" "l < 16" by fastforce+
    with Escaped IH show ?thesis by (simp add: escape_pair_digits)
  qed
qed simp

lemma tokenize_normalized:
  assumes "is_ascii s" and "well_escaped s"
  shows "tokenize (normalize_percent_encoding s) = map norm_token (tokenize s)"
proof -
  let ?ts = "map norm_token (tokenize s)"
  have "Literal (CHR ''%'') \<notin> set ?ts"
  proof
    assume "Literal (CHR ''%'') \<in> set ?ts"
    then obtain t where t: "t \<in> set (tokenize s)" "norm_token t = Literal (CHR ''%'')" by auto
    from t(1) assms(2) have "t \<noteq> Literal (CHR ''%'')" by (auto simp: well_escaped_def)
    then have "norm_token t \<noteq> Literal (CHR ''%'')"
      using t(1) tokenize_bound by (intro norm_token_no_percent) auto
    with t(2) show False by simp
  qed
  moreover have "h < 16 \<and> l < 16" if "Escaped h l \<in> set ?ts" for h l
  proof -
    from that obtain t where "t \<in> set (tokenize s)" "norm_token t = Escaped h l" by auto
    then show ?thesis by (auto elim!: norm_token.elims split: if_splits dest: tokenize_bound)
  qed
  ultimately have "tokenize (concat (map render_token ?ts)) = ?ts"
    by (rule tokenize_render)
  then show ?thesis by (simp add: normalize_percent_encoding_tokens assms(1) comp_def)
qed

lemma norm_token_idem: "norm_token (norm_token t) = norm_token t"
  by (cases t) auto

lemma decode_norm_token: "decode_token (norm_token t) = decode_token t"
  by (cases t) auto

lemma is_ascii_hex_digit: "v < 16 \<Longrightarrow> is_ascii_byte (hex_digit v)"
  by (auto simp: hex_digit_def is_ascii_byte_def byte_val_def of_char_of)

lemma normalize_percent_encoding_ascii:
  "is_ascii s \<Longrightarrow> is_ascii (normalize_percent_encoding s)"
proof (induction s rule: normalize_percent_encoding.induct)
  case (2 c a b rest)
  have "is_ascii (normalize_escape h l)" if "escape_pair a b = Some (h, l)" for h l
    using escape_pair_bound [OF that] is_ascii_hex_digit is_unreserved_ascii [of "16 * h + l"]
    by (simp add: normalize_escape_eq)
      (auto simp: is_ascii_byte_def byte_val_def of_char_of)
  with 2 show ?case by (auto split: option.splits if_splits)
qed simp_all

section \<open>Dot segments against their reference\<close>

lemma append_sep_eq:
  "c \<notin> set a \<Longrightarrow> c \<notin> set a' \<Longrightarrow> a @ c # b = a' @ c # b' \<longleftrightarrow> a = a' \<and> b = b'"
proof (induction a arbitrary: a')
  case Nil
  then show ?case by (cases a') auto
next
  case (Cons x a)
  then show ?case by (cases a') auto
qed

lemma render_segments_simps [simp]:
  "render_segments [] = []"
  "render_segments (ss @ ts) = render_segments ss @ render_segments ts"
  "render_segments [s] = CHR ''/'' # s"
  by (simp_all add: render_segments_def)

lemma remove_last_render:
  assumes "\<And>s. s \<in> set out \<Longrightarrow> CHR ''/'' \<notin> set s"
  shows "remove_last_path_segment (render_segments out) = render_segments (butlast out)"
proof (cases out rule: rev_cases)
  case (snoc ys y)
  with assms show ?thesis
    by (simp add: remove_last_path_segment_def rfind_char_append)
qed (simp add: remove_last_path_segment_def)

lemma loop_Nil [simp]: "remove_dot_segments_loop [] output = Some output"
  by (subst remove_dot_segments_loop.simps) simp

text \<open>The four ways the loop treats a rooted input, by its first segment.\<close>

lemma loop_segment:
  assumes "is_ascii s" and "CHR ''/'' \<notin> set s" and "\<not> dot_segment s"
    and "p = [] \<or> (\<exists>q. p = CHR ''/'' # q)"
  shows "remove_dot_segments_loop (CHR ''/'' # s @ p) output =
         remove_dot_segments_loop p (output @ CHR ''/'' # s)"
proof -
  have last: "is_char_boundary 1 (CHR ''/'' # s @ p)"
    using assms(1,4) by (cases s)
      (auto simp: is_char_boundary_def is_ascii_byte_def byte_val_def)
  have se: "segment_end (CHR ''/'' # s @ p) = Suc (length s)"
    using assms(2,4) by (auto simp: segment_end_def find_char_append split: option.splits)
      (metis find_char_append option.distinct(1) option.inject find_char_None)+
  have nodot: "strip_prefix (CHR ''/'' # d @ ''/'') (CHR ''/'' # s @ p) = None"
    if "d = ''.'' \<or> d = ''..''" for d
  proof (rule ccontr)
    assume "strip_prefix (CHR ''/'' # d @ ''/'') (CHR ''/'' # s @ p) \<noteq> None"
    then obtain r where eq: "s @ p = d @ CHR ''/'' # r"
      by (auto simp: strip_prefix_Some_iff)
    with assms(2) have "\<exists>q. p = CHR ''/'' # q"
      using assms(4) by auto
    then obtain q where "s @ CHR ''/'' # q = d @ CHR ''/'' # r" using eq by auto
    with assms(2) that have "s = d" by (subst (asm) append_sep_eq) auto
    with assms(3) that show False by (auto simp: dot_segment_def)
  qed
  have neq: "s @ p \<noteq> d" if "d = ''.'' \<or> d = ''..''" for d
  proof
    assume "s @ p = d"
    with that have "CHR ''/'' \<notin> set (s @ p)" by auto
    with assms(4) have "p = []" by auto
    with \<open>s @ p = d\<close> assms(3) that show False by (auto simp: dot_segment_def)
  qed
  show ?thesis
    using nodot [of "''.''"] nodot [of "''..''"] neq [of "''.''"] neq [of "''..''"] last se
    by (subst remove_dot_segments_loop.simps) (simp add: strip_prefix_def)
qed

lemma loop_slash: "remove_dot_segments_loop ''/'' output = Some (output @ ''/'')"
  using loop_segment [of "[]" "[]" "output"] by (simp add: dot_segment_def)

lemma loop_dot:
  "remove_dot_segments_loop ''/.'' output = Some (output @ ''/'')"
  "remove_dot_segments_loop (''/.'' @ CHR ''/'' # q) output =
   remove_dot_segments_loop (CHR ''/'' # q) output"
  by (subst remove_dot_segments_loop.simps, simp add: strip_prefix_def loop_slash)+

lemma loop_dotdot:
  "remove_dot_segments_loop ''/..'' output = Some (remove_last_path_segment output @ ''/'')"
  "remove_dot_segments_loop (''/..'' @ CHR ''/'' # q) output =
   remove_dot_segments_loop (CHR ''/'' # q) (remove_last_path_segment output)"
  by (subst remove_dot_segments_loop.simps, simp add: strip_prefix_def loop_slash)+

lemma collapse_segments_Cons:
  "ss \<noteq> [] \<Longrightarrow> collapse_segments out (s # ss) =
     (if s = ''.'' then collapse_segments out ss
      else if s = ''..'' then collapse_segments (butlast out) ss
      else collapse_segments (out @ [s]) ss)"
  by (cases ss) auto

lemma remove_dot_segments_loop_collapse:
  assumes "is_ascii p" and "\<And>s. s \<in> set out \<Longrightarrow> CHR ''/'' \<notin> set s"
  shows "remove_dot_segments_loop (CHR ''/'' # p) (render_segments out) =
         Some (render_segments (collapse_segments out (split_on (CHR ''/'') p)))"
  using assms
proof (induction p arbitrary: out rule: length_induct)
  case (1 p)
  show ?case
  proof (cases "split_once (CHR ''/'') p")
    case None
    then have p: "CHR ''/'' \<notin> set p" by (simp add: split_once_None)
    show ?thesis
    proof (cases "dot_segment p")
      case True
      with 1 p show ?thesis
        by (auto simp: dot_segment_def loop_dot(1) loop_dotdot(1) remove_last_render)
    next
      case False
      with 1 p show ?thesis
        using loop_segment [of p "[]" "render_segments out"]
        by (auto simp: split_on_no_sep dot_segment_def)
    qed
  next
    case (Some sq)
    obtain s q where "sq = (s, q)" by (cases sq)
    with Some have p: "p = s @ CHR ''/'' # q" and s: "CHR ''/'' \<notin> set s"
      by (auto dest: split_once_Some)
    then have asc: "is_ascii q" "is_ascii s" using 1 by auto
    have IH: "remove_dot_segments_loop (CHR ''/'' # q) (render_segments out') =
              Some (render_segments (collapse_segments out' (split_on (CHR ''/'') q)))"
      if "\<And>s. s \<in> set out' \<Longrightarrow> CHR ''/'' \<notin> set s" for out'
      using 1 p asc that by simp
    have sp: "split_on (CHR ''/'') p = s # split_on (CHR ''/'') q"
      using p s by (simp add: split_on_append)
    consider "s = ''.''" | "s = ''..''" | "\<not> dot_segment s" by (auto simp: dot_segment_def)
    then show ?thesis
    proof cases
      case 1
      with p sp IH [of out] "1.prems" loop_dot(2) [of q "render_segments out"]
      show ?thesis by (simp add: collapse_segments_Cons)
    next
      case 2
      have "CHR ''/'' \<notin> set t" if "t \<in> set (butlast out)" for t
        using "1.prems"(2) that by (auto dest: in_set_butlastD)
      from 2 p sp IH [OF this] "1.prems" loop_dotdot(2) [of q "render_segments out"]
      show ?thesis by (simp add: collapse_segments_Cons remove_last_render)
    next
      case 3
      have "CHR ''/'' \<notin> set t" if "t \<in> set (out @ [s])" for t
        using that s "1.prems" by auto
      then have "remove_dot_segments_loop (CHR ''/'' # q) (render_segments out @ CHR ''/'' # s) =
          Some (render_segments (collapse_segments (out @ [s]) (split_on (CHR ''/'') q)))"
        using IH [of "out @ [s]"] by simp
      with 3 p sp s asc loop_segment [of s "CHR ''/'' # q" "render_segments out"]
      show ?thesis by (simp add: collapse_segments_Cons dot_segment_def)
    qed
  qed
qed

lemma list_all_butlast: "list_all P xs \<Longrightarrow> list_all P (butlast xs)"
  by (auto simp: list_all_iff dest: in_set_butlastD)

lemma collapse_segments_no_dots:
  "list_all (\<lambda>s. \<not> dot_segment s) out \<Longrightarrow>
   list_all (\<lambda>s. \<not> dot_segment s) (collapse_segments out ss)"
  by (induction out ss rule: collapse_segments.induct)
    (simp_all add: dot_segment_def list_all_butlast)

lemma collapse_segments_id:
  "list_all (\<lambda>s. \<not> dot_segment s) ss \<Longrightarrow> collapse_segments out ss = out @ ss"
  by (induction out ss rule: collapse_segments.induct) (simp_all add: dot_segment_def)

lemma collapse_segments_not_Nil: "ss \<noteq> [] \<Longrightarrow> collapse_segments out ss \<noteq> []"
  by (induction out ss rule: collapse_segments.induct) auto

lemma collapse_segments_subset: "set (collapse_segments out ss) \<subseteq> insert [] (set out \<union> set ss)"
  by (induction out ss rule: collapse_segments.induct) (auto dest: in_set_butlastD)

lemma split_render:
  assumes "ss \<noteq> []" and "\<And>s. s \<in> set ss \<Longrightarrow> CHR ''/'' \<notin> set s"
  shows "split_on (CHR ''/'') (tl (render_segments ss)) = ss"
  using assms
proof (induction ss rule: list_nonempty_induct)
  case (single s)
  then show ?case by (simp add: split_on_no_sep)
next
  case (cons s ss)
  then obtain t ts where ss: "ss = t # ts" by (cases ss) auto
  have "split_on (CHR ''/'') (tl (render_segments ss)) = ss"
    using cons by simp
  then show ?case
    using cons.prems by (simp add: ss render_segments_def split_on_append)
qed

section \<open>Properties\<close>

lemma remove_dot_segments_rooted:
  "is_ascii p \<Longrightarrow> remove_dot_segments (CHR ''/'' # p) =
   Some (render_segments (collapse_segments [] (split_on (CHR ''/'') p)))"
  using remove_dot_segments_loop_collapse [of p "[]"] by (simp add: remove_dot_segments_def)

lemma collapsed_segments_facts:
  fixes p :: string
  defines "ss \<equiv> collapse_segments [] (split_on (CHR ''/'') p)"
  shows "ss \<noteq> []" and "list_all (\<lambda>s. \<not> dot_segment s) ss"
    and "\<And>s. s \<in> set ss \<Longrightarrow> CHR ''/'' \<notin> set s \<and> set s \<subseteq> set p"
proof -
  show "ss \<noteq> []" by (simp add: ss_def collapse_segments_not_Nil)
  show "list_all (\<lambda>s. \<not> dot_segment s) ss"
    by (simp add: ss_def collapse_segments_no_dots)
  fix s assume "s \<in> set ss"
  then have "s = [] \<or> s \<in> set (split_on (CHR ''/'') p)"
    using collapse_segments_subset [of "[]" "split_on (CHR ''/'') p"] by (auto simp: ss_def)
  then show "CHR ''/'' \<notin> set s \<and> set s \<subseteq> set p" by (auto dest: split_on_parts)
qed

lemma render_segments_rooted: "ss \<noteq> [] \<Longrightarrow> \<exists>q. render_segments ss = CHR ''/'' # q"
  by (cases ss) (auto simp: render_segments_def)

lemma is_ascii_set: "is_ascii s \<longleftrightarrow> (\<forall>c \<in> set s. is_ascii_byte c)"
  by (auto simp: is_ascii_def list_all_iff)

lemma is_ascii_render:
  "(\<And>s. s \<in> set ss \<Longrightarrow> is_ascii s) \<Longrightarrow> is_ascii (render_segments ss)"
  by (auto simp: is_ascii_set render_segments_def is_ascii_byte_def byte_val_def)

lemma remove_dot_segments_canonical:
  assumes "is_ascii p"
  obtains q where "remove_dot_segments (CHR ''/'' # p) = Some (CHR ''/'' # q)" and "is_ascii q"
    and "split_on (CHR ''/'') q = collapse_segments [] (split_on (CHR ''/'') p)"
proof -
  let ?ss = "collapse_segments [] (split_on (CHR ''/'') p)"
  note facts = collapsed_segments_facts [where p = p]
  from facts(1) obtain q where q: "render_segments ?ss = CHR ''/'' # q"
    using render_segments_rooted by blast
  have "is_ascii (render_segments ?ss)"
    using assms facts(3) by (intro is_ascii_render) (auto simp: is_ascii_set)
  with q have asc: "is_ascii q" by simp
  have "split_on (CHR ''/'') q = ?ss"
    using split_render [OF facts(1)] facts(3) q by (metis list.sel(3))
  with q asc that remove_dot_segments_rooted [OF assms] show thesis by simp
qed

text \<open>
  C32. On a rooted ASCII path \<open>remove_dot_segments\<close> returns, without panicking, what the segment-level
  rules of RFC 3986 give: the path is split at \<open>/\<close>, \<open>.\<close> segments are dropped, \<open>..\<close> drops the segment
  before it, and the rest is joined again.
\<close>

theorem remove_dot_segments_correct:
  assumes "is_ascii p"
  shows "remove_dot_segments (CHR ''/'' # p) =
         Some (render_segments (collapse_segments [] (split_on (CHR ''/'') p)))"
  by (rule remove_dot_segments_rooted [OF assms])

theorem remove_dot_segments_correct_witness:
  "is_ascii ''a/./b/../c/'' \<and> remove_dot_segments ''/a/./b/../c/'' = Some ''/a/c/''"
proof -
  have a: "is_ascii ''a/./b/../c/''" by (simp add: is_ascii_byte_def byte_val_def)
  show ?thesis using a remove_dot_segments_correct [OF a] by (simp add: render_segments_def)
qed

text \<open>
  The identifier's path is canonical: for every rooted ASCII path the whole normalisation returns
  (no slice of it panics) a rooted ASCII path that has no \<open>.\<close> or \<open>..\<close> segment left, even when the dots
  were written as escapes, and removing dot segments again changes nothing.
\<close>

lemma normalize_path_no_dot_segments:
  assumes "is_ascii p"
  shows "\<exists>q. normalize_path (CHR ''/'' # p) = Some (CHR ''/'' # q) \<and> is_ascii q \<and>
             (\<forall>s \<in> set (split_on (CHR ''/'') q). s \<noteq> ''.'' \<and> s \<noteq> ''..'') \<and>
             remove_dot_segments (CHR ''/'' # q) = Some (CHR ''/'' # q)"
proof -
  have slash: "normalize_percent_encoding (CHR ''/'' # p) = CHR ''/'' # normalize_percent_encoding p"
    by (cases p rule: tokenize.cases) (simp_all add: is_ascii_byte_def byte_val_def)
  let ?p = "normalize_percent_encoding p"
  have "is_ascii ?p" using assms by (rule normalize_percent_encoding_ascii)
  then obtain q where q: "remove_dot_segments (CHR ''/'' # ?p) = Some (CHR ''/'' # q)" "is_ascii q"
      "split_on (CHR ''/'') q = collapse_segments [] (split_on (CHR ''/'') ?p)"
    by (rule remove_dot_segments_canonical)
  let ?ss = "collapse_segments [] (split_on (CHR ''/'') ?p)"
  have nodots: "list_all (\<lambda>s. \<not> dot_segment s) ?ss" by (rule collapsed_segments_facts(2))
  have "remove_dot_segments (CHR ''/'' # q) = Some (render_segments ?ss)"
    using remove_dot_segments_rooted [OF q(2)] collapse_segments_id [OF nodots, of "[]"] q(3)
    by simp
  also have "\<dots> = Some (CHR ''/'' # q)"
    using remove_dot_segments_rooted [OF \<open>is_ascii ?p\<close>] q(1) by simp
  finally show ?thesis
    using q nodots by (auto simp: normalize_path_def slash list_all_iff dot_segment_def)
qed

text \<open>
  C33. Percent-encoding normalisation keeps the meaning of a path: on an ASCII path in which every \<open>%\<close>
  starts an escape, the result decodes to the same bytes, two paths get the same result exactly when
  they agree token by token up to the case of hexadecimal digits and the escaping of unreserved
  characters, and normalising again changes nothing.
\<close>

theorem normalize_percent_encoding_correct:
  assumes "is_ascii s" and "well_escaped s" and "is_ascii t" and "well_escaped t"
  shows "percent_decode (normalize_percent_encoding s) = percent_decode s \<and>
         (normalize_percent_encoding s = normalize_percent_encoding t \<longleftrightarrow>
          map norm_token (tokenize s) = map norm_token (tokenize t)) \<and>
         normalize_percent_encoding (normalize_percent_encoding s) = normalize_percent_encoding s"
proof (intro conjI)
  note tok = tokenize_normalized [OF assms(1,2)] tokenize_normalized [OF assms(3,4)]
  show "percent_decode (normalize_percent_encoding s) = percent_decode s"
    by (simp add: percent_decode_def tok decode_norm_token)
  show "normalize_percent_encoding s = normalize_percent_encoding t \<longleftrightarrow>
        map norm_token (tokenize s) = map norm_token (tokenize t)"
    using tok normalize_percent_encoding_tokens [OF assms(1)]
      normalize_percent_encoding_tokens [OF assms(3)]
    by (metis map_map)
  show "normalize_percent_encoding (normalize_percent_encoding s) = normalize_percent_encoding s"
  proof -
    have "normalize_percent_encoding (normalize_percent_encoding s) =
          concat (map (render_token \<circ> norm_token) (map norm_token (tokenize s)))"
      using normalize_percent_encoding_tokens [OF normalize_percent_encoding_ascii [OF assms(1)]]
      by (simp only: tok)
    also have "\<dots> = normalize_percent_encoding s"
      by (simp add: normalize_percent_encoding_tokens [OF assms(1)] comp_def norm_token_idem)
    finally show ?thesis .
  qed
qed

theorem normalize_percent_encoding_correct_witness:
  "percent_decode (normalize_percent_encoding ''/%7e/%2f'') = ''/~//'' \<and>
   normalize_percent_encoding ''/%7e/%2f'' = normalize_percent_encoding ''/~/%2F''"
proof -
  have h: "is_ascii ''/%7e/%2f''" "well_escaped ''/%7e/%2f''"
      "is_ascii ''/~/%2F''" "well_escaped ''/~/%2F''"
    by (simp_all add: is_ascii_byte_def byte_val_def well_escaped_def escape_pair_def hex_value_def)
  note c = normalize_percent_encoding_correct [OF h]
  show ?thesis
    unfolding c [THEN conjunct1] c [THEN conjunct2, THEN conjunct1]
    by (simp add: percent_decode_def escape_pair_def hex_value_def byte_val_def is_unreserved_def
        char_of_def bit_0)
qed

text \<open>
  Without that condition the normal form is not stable: a stray \<open>%\<close> in front of two escaped hex
  digits becomes an escape, so normalising the identifier's path again gives another path, and two
  different malformed paths share one identifier.
\<close>

lemma normalize_path_not_idempotent:
  "normalize_path ''/%%34%31'' = Some ''/%41'' \<and>
   normalize_path ''/%41'' = Some ''/A'' \<and>
   normalize_path ''/%4%31'' = normalize_path ''/%%34%31''"
proof -
  have n: "normalize_percent_encoding ''/%%34%31'' = ''/%41''"
      "normalize_percent_encoding ''/%41'' = ''/A''"
      "normalize_percent_encoding ''/%4%31'' = ''/%41''"
    by (simp_all add: escape_pair_def hex_value_def byte_val_def normalize_escape_def
        is_unreserved_def is_ascii_byte_def char_of_def bit_0)
  have d: "remove_dot_segments ''/%41'' = Some ''/%41''" "remove_dot_segments ''/A'' = Some ''/A''"
    using remove_dot_segments_rooted [of "''%41''"] remove_dot_segments_rooted [of "''A''"]
    by (simp_all add: is_ascii_byte_def byte_val_def)
  show ?thesis by (simp only: normalize_path_def n d)
qed

end
