(* ===== verification/Protocol.thy ===== *)
theory Protocol
  imports Url_Path
begin

text \<open>
  The wire types and discovery URL rules of \<open>crates/protocol/src/lib.rs\<close>, shared by the module
  and the resolver: the request and response types, the Ed25519 JWK with its thumbprint, the
  discovery target and the path normalisation behind the identifier. The \<open>url\<close>, \<open>sha2\<close> and
  \<open>base64\<close> crates are parameters: records of the operations the source calls, with the
  behaviour it relies on stated as \<open>url_laws\<close>.
\<close>

section \<open>Wire types\<close>

definition MAX_AGENT_URL_BYTES :: nat where "MAX_AGENT_URL_BYTES = 2048"
definition MAX_KEY_ID_BYTES :: nat where "MAX_KEY_ID_BYTES = 512"
definition MAX_RESOLVE_BODY_BYTES :: nat where "MAX_RESOLVE_BODY_BYTES = 8 * 1024"

definition DIRECTORY_PATH :: string where
  "DIRECTORY_PATH = ''/.well-known/http-message-signatures-directory''"

datatype ResolverApiVersion = V1

datatype DiscoveryMechanism = Directory | JwksUri | Cimd

record ResolveRequest =
  req_api_version :: ResolverApiVersion
  req_discovery :: DiscoveryMechanism
  req_agent_url :: string
  req_key_id :: string

text \<open>The enums \<open>OkpKeyType\<close> and \<open>Ed25519Curve\<close> have one variant each.\<close>

datatype OkpKeyType = Okp
datatype Ed25519Curve = Ed25519

record Ed25519Jwk =
  kty :: OkpKeyType
  crv :: Ed25519Curve
  jwk_x :: string

definition Ed25519Jwk_new :: "string \<Rightarrow> Ed25519Jwk" where
  "Ed25519Jwk_new x = \<lparr>kty = Okp, crv = Ed25519, jwk_x = x\<rparr>"

text \<open>The digest and the URL-safe unpadded base64 codec, from \<open>sha2\<close> and \<open>base64\<close>.\<close>

record crypto_api =
  sha256 :: "string \<Rightarrow> string"
  b64_encode :: "string \<Rightarrow> string"
  b64_decode :: "string \<Rightarrow> string option"

definition b64_thumbprint :: "crypto_api \<Rightarrow> Ed25519Jwk \<Rightarrow> string" where
  "b64_thumbprint C jwk =
     (let canonical = ''{\"crv\":\"Ed25519\",\"kty\":\"OKP\",\"x\":\"'' @ jwk_x jwk @ ''\"}'';
          digest = sha256 C canonical
      in b64_encode C digest)"

definition is_valid_public_key :: "crypto_api \<Rightarrow> Ed25519Jwk \<Rightarrow> bool" where
  "is_valid_public_key C jwk =
     (case b64_decode C (jwk_x jwk) of None \<Rightarrow> False | Some bytes \<Rightarrow> length bytes = 32)"

datatype ResolveResponse =
    Resolved (resp_identifier: string) (resp_jwk: Ed25519Jwk)
  | KeyNotFound (resp_identifier: string)

section \<open>Discovery targets\<close>

text \<open>The methods of \<open>url::Url\<close> that the sources call, on an abstract type of parsed URLs.\<close>

record 'u url_api =
  url_parse :: "string \<Rightarrow> 'u option"
  url_scheme :: "'u \<Rightarrow> string"
  url_host_str :: "'u \<Rightarrow> string option"
  url_username :: "'u \<Rightarrow> string"
  url_password :: "'u \<Rightarrow> string option"
  url_path :: "'u \<Rightarrow> string"
  url_query :: "'u \<Rightarrow> string option"
  url_fragment :: "'u \<Rightarrow> string option"
  url_set_path :: "string \<Rightarrow> 'u \<Rightarrow> 'u"
  url_set_query :: "string option \<Rightarrow> 'u \<Rightarrow> 'u"
  url_set_fragment :: "string option \<Rightarrow> 'u \<Rightarrow> 'u"
  url_as_str :: "'u \<Rightarrow> string"
  url_port_or_known_default :: "'u \<Rightarrow> nat option"
  url_origin_ascii :: "'u \<Rightarrow> string"

datatype DiscoveryUrlError =
  TooLong | InvalidUrl | InvalidScheme | MissingHost | UserInfo | DirectoryNotOrigin

fun DiscoveryUrlError_display :: "DiscoveryUrlError \<Rightarrow> string" where
  "DiscoveryUrlError_display TooLong = ''agent URL exceeds 2048 bytes''"
| "DiscoveryUrlError_display InvalidUrl = ''agent URL is not a valid URL''"
| "DiscoveryUrlError_display InvalidScheme = ''agent URL must use HTTPS''"
| "DiscoveryUrlError_display MissingHost = ''agent URL must contain a host''"
| "DiscoveryUrlError_display UserInfo = ''agent URL must not contain user information''"
| "DiscoveryUrlError_display DirectoryNotOrigin = ''directory discovery must be an origin without query or fragment''"

record 'u DiscoveryTarget =
  target_fetch_url :: 'u
  target_identifier :: string

definition normalized_target ::
  "'u url_api \<Rightarrow> 'u \<Rightarrow> ('u DiscoveryTarget, DiscoveryUrlError) res" where
  "normalized_target U url =
     (let url = url_set_fragment U None url;
          normalized = url_set_fragment U None (url_set_query U None url)
      in case normalize_path (url_path U normalized) of
           None \<Rightarrow> Panic
         | Some normalized_path \<Rightarrow>
             Ok \<lparr>target_fetch_url = url,
                 target_identifier = url_as_str U (url_set_path U normalized_path normalized)\<rparr>)"

definition parse_discovery_target ::
  "'u url_api \<Rightarrow> string \<Rightarrow> DiscoveryMechanism \<Rightarrow> ('u DiscoveryTarget, DiscoveryUrlError) res" where
  "parse_discovery_target U value discovery =
     (if length value > MAX_AGENT_URL_BYTES then Err TooLong
      else case url_parse U value of None \<Rightarrow> Err InvalidUrl | Some url \<Rightarrow>
       if url_scheme U url \<noteq> ''https'' then Err InvalidScheme
       else if url_host_str U url = None then Err MissingHost
       else if url_username U url \<noteq> [] \<or> url_password U url \<noteq> None then Err UserInfo
       else if discovery = Directory then
         (if url_path U url \<notin> {[], ''/''} \<or> url_query U url \<noteq> None \<or> url_fragment U url \<noteq> None
          then Err DirectoryNotOrigin
          else normalized_target U (url_set_path U DIRECTORY_PATH url))
       else normalized_target U url)"

text \<open>
  What the code relies on of the \<open>url\<close> crate, as its documentation states it: a setter changes its own
  component and no other, a parsed URL's path is ASCII and starts with \<open>/\<close> for \<open>https\<close>, a path with
  nothing to encode is stored as it is, and an \<open>https\<close> URL is determined by its components.
\<close>

definition url_laws :: "'u url_api \<Rightarrow> bool" where
  "url_laws U \<longleftrightarrow>
     (\<forall>v u. url_parse U v = Some u \<longrightarrow> is_ascii (url_path U u)) \<and>
     (\<forall>v u. url_parse U v = Some u \<and> url_scheme U u = ''https'' \<longrightarrow>
        (\<exists>p. url_path U u = CHR ''/'' # p)) \<and>
     (\<forall>u. url_path U (url_set_path U DIRECTORY_PATH u) = DIRECTORY_PATH) \<and>
     (\<forall>p u. url_scheme U (url_set_path U p u) = url_scheme U u \<and>
        url_host_str U (url_set_path U p u) = url_host_str U u \<and>
        url_username U (url_set_path U p u) = url_username U u \<and>
        url_password U (url_set_path U p u) = url_password U u \<and>
        url_port_or_known_default U (url_set_path U p u) = url_port_or_known_default U u \<and>
        url_query U (url_set_path U p u) = url_query U u \<and>
        url_fragment U (url_set_path U p u) = url_fragment U u) \<and>
     (\<forall>u. url_scheme U (url_set_query U None u) = url_scheme U u \<and>
        url_host_str U (url_set_query U None u) = url_host_str U u \<and>
        url_username U (url_set_query U None u) = url_username U u \<and>
        url_password U (url_set_query U None u) = url_password U u \<and>
        url_port_or_known_default U (url_set_query U None u) = url_port_or_known_default U u \<and>
        url_path U (url_set_query U None u) = url_path U u \<and>
        url_query U (url_set_query U None u) = None \<and>
        url_fragment U (url_set_query U None u) = url_fragment U u) \<and>
     (\<forall>u. url_scheme U (url_set_fragment U None u) = url_scheme U u \<and>
        url_host_str U (url_set_fragment U None u) = url_host_str U u \<and>
        url_username U (url_set_fragment U None u) = url_username U u \<and>
        url_password U (url_set_fragment U None u) = url_password U u \<and>
        url_port_or_known_default U (url_set_fragment U None u) = url_port_or_known_default U u \<and>
        url_path U (url_set_fragment U None u) = url_path U u \<and>
        url_query U (url_set_fragment U None u) = url_query U u \<and>
        url_fragment U (url_set_fragment U None u) = None) \<and>
     (\<forall>u u'. url_scheme U u = ''https'' \<and> url_scheme U u' = ''https'' \<and>
        url_host_str U u = url_host_str U u' \<and>
        url_username U u = url_username U u' \<and> url_password U u = url_password U u' \<and>
        url_port_or_known_default U u = url_port_or_known_default U u' \<and>
        url_path U u = url_path U u' \<and> url_query U u = url_query U u' \<and>
        url_fragment U u = url_fragment U u' \<longrightarrow> u = u')"

text \<open>
  An instance of the parameter for the witnesses: a URL as its components, read from an absolute URL
  with a lower-case scheme, no user information and no explicit port.
\<close>

record plain_url =
  pu_scheme :: string
  pu_host :: "string option"
  pu_path :: string
  pu_query :: "string option"
  pu_fragment :: "string option"

definition plain_as_str :: "plain_url \<Rightarrow> string" where
  "plain_as_str u = pu_scheme u @ ''://'' @ (case pu_host u of None \<Rightarrow> [] | Some h \<Rightarrow> h) @ pu_path u @
     (case pu_query u of None \<Rightarrow> [] | Some q \<Rightarrow> CHR ''?'' # q) @
     (case pu_fragment u of None \<Rightarrow> [] | Some f \<Rightarrow> CHR ''#'' # f)"

definition plain_parse :: "string \<Rightarrow> plain_url option" where
  "plain_parse v =
     (case strip_prefix ''https://'' v of None \<Rightarrow> None | Some r \<Rightarrow>
      if \<not> is_ascii r then None else
      let (r, f) = (case split_once (CHR ''#'') r of None \<Rightarrow> (r, None) | Some (a, b) \<Rightarrow> (a, Some b));
          (r, q) = (case split_once (CHR ''?'') r of None \<Rightarrow> (r, None) | Some (a, b) \<Rightarrow> (a, Some b));
          (h, p) = (case split_once (CHR ''/'') r of None \<Rightarrow> (r, []) | Some (a, b) \<Rightarrow> (a, b))
      in if h = [] then None
         else Some \<lparr>pu_scheme = ''https'', pu_host = Some h, pu_path = CHR ''/'' # p,
                    pu_query = q, pu_fragment = f\<rparr>)"

definition plain_url_api :: "plain_url url_api" where
  "plain_url_api =
     \<lparr>url_parse = plain_parse, url_scheme = pu_scheme, url_host_str = pu_host,
      url_username = (\<lambda>_. []), url_password = (\<lambda>_. None), url_path = pu_path,
      url_query = pu_query, url_fragment = pu_fragment,
      url_set_path = (\<lambda>p u. u\<lparr>pu_path := p\<rparr>), url_set_query = (\<lambda>q u. u\<lparr>pu_query := q\<rparr>),
      url_set_fragment = (\<lambda>f u. u\<lparr>pu_fragment := f\<rparr>), url_as_str = plain_as_str,
      url_port_or_known_default = (\<lambda>_. Some 443),
      url_origin_ascii = (\<lambda>u. pu_scheme u @ ''://'' @ the (pu_host u))\<rparr>"

section \<open>Facts about discovery targets\<close>

lemma plain_url_api_simps [simp]:
  "url_parse plain_url_api = plain_parse" "url_scheme plain_url_api = pu_scheme"
  "url_host_str plain_url_api = pu_host" "url_username plain_url_api u = []"
  "url_password plain_url_api u = None" "url_path plain_url_api = pu_path"
  "url_query plain_url_api = pu_query" "url_fragment plain_url_api = pu_fragment"
  "url_set_path plain_url_api p u = u\<lparr>pu_path := p\<rparr>"
  "url_set_query plain_url_api q u = u\<lparr>pu_query := q\<rparr>"
  "url_set_fragment plain_url_api f u = u\<lparr>pu_fragment := f\<rparr>"
  "url_as_str plain_url_api = plain_as_str"
  "url_port_or_known_default plain_url_api u = Some 443"
  "url_origin_ascii plain_url_api u = pu_scheme u @ ''://'' @ the (pu_host u)"
  by (simp_all add: plain_url_api_def)

lemma plain_parse_rooted:
  "plain_parse v = Some u \<Longrightarrow> is_ascii (pu_path u) \<and> (\<exists>p. pu_path u = CHR ''/'' # p)"
  by (auto simp: plain_parse_def Let_def is_ascii_set is_ascii_byte_def byte_val_def
      split: option.splits if_splits prod.splits dest!: split_once_Some)

lemma url_laws_plain: "url_laws plain_url_api"
  using plain_parse_rooted by (auto simp: url_laws_def)

lemma normalized_target_not_Err [simp]: "normalized_target U url \<noteq> Err e"
  by (auto simp: normalized_target_def Let_def split: option.splits)

lemma DIRECTORY_PATH_ascii: "is_ascii DIRECTORY_PATH"
  by (simp add: DIRECTORY_PATH_def is_ascii_byte_def byte_val_def)

lemma url_laws_path:
  assumes "url_laws U"
  shows "url_parse U v = Some u \<Longrightarrow> is_ascii (url_path U u)"
    and "url_parse U v = Some u \<Longrightarrow> url_scheme U u = ''https'' \<Longrightarrow> \<exists>p. url_path U u = CHR ''/'' # p"
    and "url_path U (url_set_path U DIRECTORY_PATH u) = DIRECTORY_PATH"
  using assms by (auto simp: url_laws_def)

lemma url_laws_set_path:
  assumes "url_laws U"
  shows "url_scheme U (url_set_path U p u) = url_scheme U u"
    and "url_host_str U (url_set_path U p u) = url_host_str U u"
    and "url_username U (url_set_path U p u) = url_username U u"
    and "url_password U (url_set_path U p u) = url_password U u"
    and "url_port_or_known_default U (url_set_path U p u) = url_port_or_known_default U u"
    and "url_query U (url_set_path U p u) = url_query U u"
    and "url_fragment U (url_set_path U p u) = url_fragment U u"
  using assms by (auto simp: url_laws_def)

lemma url_laws_set_query:
  assumes "url_laws U"
  shows "url_scheme U (url_set_query U None u) = url_scheme U u"
    and "url_host_str U (url_set_query U None u) = url_host_str U u"
    and "url_username U (url_set_query U None u) = url_username U u"
    and "url_password U (url_set_query U None u) = url_password U u"
    and "url_port_or_known_default U (url_set_query U None u) = url_port_or_known_default U u"
    and "url_path U (url_set_query U None u) = url_path U u"
    and "url_query U (url_set_query U None u) = None"
    and "url_fragment U (url_set_query U None u) = url_fragment U u"
  using assms by (auto simp: url_laws_def)

lemma url_laws_set_fragment:
  assumes "url_laws U"
  shows "url_scheme U (url_set_fragment U None u) = url_scheme U u"
    and "url_host_str U (url_set_fragment U None u) = url_host_str U u"
    and "url_username U (url_set_fragment U None u) = url_username U u"
    and "url_password U (url_set_fragment U None u) = url_password U u"
    and "url_port_or_known_default U (url_set_fragment U None u) = url_port_or_known_default U u"
    and "url_path U (url_set_fragment U None u) = url_path U u"
    and "url_query U (url_set_fragment U None u) = url_query U u"
    and "url_fragment U (url_set_fragment U None u) = None"
  using assms by (auto simp: url_laws_def)

lemmas url_law_simps =
  url_laws_set_path url_laws_set_query url_laws_set_fragment url_laws_path(3)

lemma url_laws_ext:
  assumes "url_laws U" and "url_scheme U u = ''https''" and "url_scheme U u' = ''https''"
    and "url_host_str U u = url_host_str U u'"
    and "url_username U u = url_username U u'" and "url_password U u = url_password U u'"
    and "url_port_or_known_default U u = url_port_or_known_default U u'"
    and "url_path U u = url_path U u'" and "url_query U u = url_query U u'"
    and "url_fragment U u = url_fragment U u'"
  shows "u = u'"
  using assms by (simp add: url_laws_def)

lemma normalize_path_rooted_ascii:
  "is_ascii p \<Longrightarrow> \<exists>q. normalize_path (CHR ''/'' # p) = Some q"
proof -
  assume "is_ascii p"
  then have "is_ascii (normalize_percent_encoding p)" by (rule normalize_percent_encoding_ascii)
  then obtain q where
    "remove_dot_segments (CHR ''/'' # normalize_percent_encoding p) = Some (CHR ''/'' # q)"
    by (rule remove_dot_segments_canonical)
  moreover have
    "normalize_percent_encoding (CHR ''/'' # p) = CHR ''/'' # normalize_percent_encoding p"
    by (cases p rule: tokenize.cases) (simp_all add: is_ascii_byte_def byte_val_def)
  ultimately show ?thesis by (auto simp: normalize_path_def)
qed

lemma normalized_target_Ok:
  assumes "url_laws U" and "is_ascii p" and "url_path U url = CHR ''/'' # p"
  shows "\<exists>i. normalized_target U url =
           Ok \<lparr>target_fetch_url = url_set_fragment U None url, target_identifier = i\<rparr>"
  using normalize_path_rooted_ascii [OF assms(2)] assms(1,3)
  by (auto simp: normalized_target_def Let_def url_law_simps)

text \<open>The conditions under which a URL is a discovery target, as one predicate.\<close>

definition discovery_acceptable :: "'u url_api \<Rightarrow> DiscoveryMechanism \<Rightarrow> 'u \<Rightarrow> bool" where
  "discovery_acceptable U d url \<longleftrightarrow>
     url_scheme U url = ''https'' \<and> url_host_str U url \<noteq> None \<and>
     url_username U url = [] \<and> url_password U url = None \<and>
     (d = Directory \<longrightarrow>
        url_path U url \<in> {[], ''/''} \<and> url_query U url = None \<and> url_fragment U url = None)"

definition discovery_base :: "'u url_api \<Rightarrow> DiscoveryMechanism \<Rightarrow> 'u \<Rightarrow> 'u" where
  "discovery_base U d url = (if d = Directory then url_set_path U DIRECTORY_PATH url else url)"

lemma parse_discovery_target_acceptable:
  "url_parse U v = Some url \<Longrightarrow> length v \<le> MAX_AGENT_URL_BYTES \<Longrightarrow> discovery_acceptable U d url \<Longrightarrow>
   parse_discovery_target U v d = normalized_target U (discovery_base U d url)"
  by (auto simp: parse_discovery_target_def discovery_acceptable_def discovery_base_def)

lemma parse_discovery_target_not_acceptable:
  "\<not> (length v \<le> MAX_AGENT_URL_BYTES \<and>
      (\<exists>url. url_parse U v = Some url \<and> discovery_acceptable U d url)) \<Longrightarrow>
   \<exists>e. parse_discovery_target U v d = Err e"
  by (auto simp: parse_discovery_target_def discovery_acceptable_def split: option.splits)

lemma discovery_base_path:
  assumes "url_laws U" and "url_parse U v = Some url" and "discovery_acceptable U d url"
  shows "\<exists>p. is_ascii p \<and> url_path U (discovery_base U d url) = CHR ''/'' # p"
proof (cases "d = Directory")
  case True
  have "\<exists>p. is_ascii p \<and> DIRECTORY_PATH = CHR ''/'' # p"
    using DIRECTORY_PATH_ascii by (simp add: DIRECTORY_PATH_def)
  with True assms(1) show ?thesis by (auto simp: discovery_base_def url_law_simps)
next
  case False
  then show ?thesis
    using assms url_laws_path(1,2) [OF assms(1) assms(2)]
    by (auto simp: discovery_base_def discovery_acceptable_def)
qed

lemma parse_discovery_target_cases:
  assumes "url_laws U"
  obtains (accepted) url i where "length v \<le> MAX_AGENT_URL_BYTES" and "url_parse U v = Some url"
      and "discovery_acceptable U d url"
      and "parse_discovery_target U v d =
           Ok \<lparr>target_fetch_url = url_set_fragment U None (discovery_base U d url),
               target_identifier = i\<rparr>"
    | (rejected) e where "parse_discovery_target U v d = Err e"
      and "\<not> (length v \<le> MAX_AGENT_URL_BYTES \<and>
             (\<exists>url. url_parse U v = Some url \<and> discovery_acceptable U d url))"
proof (cases "length v \<le> MAX_AGENT_URL_BYTES \<and>
              (\<exists>url. url_parse U v = Some url \<and> discovery_acceptable U d url)")
  case True
  then obtain url where u: "length v \<le> MAX_AGENT_URL_BYTES" "url_parse U v = Some url"
      "discovery_acceptable U d url" by auto
  from discovery_base_path [OF assms u(2,3)] obtain p where
    "is_ascii p" "url_path U (discovery_base U d url) = CHR ''/'' # p" by auto
  from normalized_target_Ok [OF assms this] parse_discovery_target_acceptable [OF u(2,1,3)]
  show thesis using accepted u by auto
next
  case False
  then show thesis using rejected parse_discovery_target_not_acceptable by blast
qed

section \<open>Properties\<close>

text \<open>
  C34. \<open>parse_discovery_target\<close> accepts a URL exactly when it is at most 2048 bytes, parses, is \<open>https\<close> with a
  host and no user information and, for directory discovery, is an origin without query or fragment.
  Every other input is an error value, and no input makes it panic.
\<close>

theorem parse_discovery_target_accepts:
  assumes "url_laws U"
  shows "parse_discovery_target U v d \<noteq> Panic \<and>
         ((\<exists>t. parse_discovery_target U v d = Ok t) \<longleftrightarrow>
          length v \<le> MAX_AGENT_URL_BYTES \<and>
          (\<exists>url. url_parse U v = Some url \<and>
             url_scheme U url = ''https'' \<and> url_host_str U url \<noteq> None \<and>
             url_username U url = [] \<and> url_password U url = None \<and>
             (d = Directory \<longrightarrow>
                url_path U url \<in> {[], ''/''} \<and> url_query U url = None \<and> url_fragment U url = None)))"
  by (cases rule: parse_discovery_target_cases [OF assms, of v d];
      auto simp: discovery_acceptable_def)

theorem parse_discovery_target_accepts_witness:
  "(\<exists>t. parse_discovery_target plain_url_api ''https://agent.example/'' Directory = Ok t) \<and>
   \<not> (\<exists>t. parse_discovery_target plain_url_api ''https://agent.example/keys'' Directory = Ok t)"
  unfolding parse_discovery_target_accepts [OF url_laws_plain, THEN conjunct2]
  by (simp add: plain_parse_def strip_prefix_def MAX_AGENT_URL_BYTES_def
      is_ascii_byte_def byte_val_def)

text \<open>
  What an accepted target fetches: the parsed URL itself, over \<open>https\<close>, from the same host and port, with
  no user information and no fragment, and with its query kept; for directory discovery the path is
  the well-known directory path.
\<close>

lemma parse_discovery_target_fetch_url:
  assumes "url_laws U" and "parse_discovery_target U v d = Ok t" and "url_parse U v = Some url"
  shows "url_scheme U (target_fetch_url t) = ''https'' \<and>
         url_host_str U (target_fetch_url t) = url_host_str U url \<and> url_host_str U url \<noteq> None \<and>
         url_port_or_known_default U (target_fetch_url t) = url_port_or_known_default U url \<and>
         url_username U (target_fetch_url t) = [] \<and> url_password U (target_fetch_url t) = None \<and>
         url_query U (target_fetch_url t) = url_query U url \<and>
         url_fragment U (target_fetch_url t) = None \<and>
         url_path U (target_fetch_url t) = (if d = Directory then DIRECTORY_PATH else url_path U url)"
proof -
  from assms(1) have "discovery_acceptable U d url \<and>
      target_fetch_url t = url_set_fragment U None (discovery_base U d url)"
    using assms(2,3) by (cases rule: parse_discovery_target_cases [of U v d]) auto
  then show ?thesis
    using assms(1) by (auto simp: discovery_acceptable_def discovery_base_def url_law_simps)
qed

text \<open>
  Queries and fragments select what is fetched and never who the caller is: two URLs that differ only
  in query and fragment have the same normalised identifier.
\<close>

lemma identifier_ignores_query_and_fragment:
  assumes "url_laws U" and "d \<noteq> Directory"
    and "url_parse U v = Some u" and "url_parse U v' = Some u'"
    and "url_scheme U u = url_scheme U u'" and "url_host_str U u = url_host_str U u'"
    and "url_username U u = url_username U u'" and "url_password U u = url_password U u'"
    and "url_port_or_known_default U u = url_port_or_known_default U u'"
    and "url_path U u = url_path U u'"
    and "parse_discovery_target U v d = Ok t" and "parse_discovery_target U v' d = Ok t'"
  shows "target_identifier t = target_identifier t'"
proof -
  let ?n = "\<lambda>w. url_set_fragment U None (url_set_query U None (url_set_fragment U None w))"
  have acc: "discovery_acceptable U d u"
    using assms(1,3,11) by (cases rule: parse_discovery_target_cases [of U v d]) auto
  have acc': "discovery_acceptable U d u'"
    using assms(1,4,12) by (cases rule: parse_discovery_target_cases [of U v' d]) auto
  have len: "length v \<le> MAX_AGENT_URL_BYTES" "length v' \<le> MAX_AGENT_URL_BYTES"
    using assms(11,12) by (auto simp: parse_discovery_target_def split: if_splits)
  have eq: "?n u = ?n u'"
    using assms acc acc'
    by (intro url_laws_ext [OF assms(1)]) (simp_all add: url_law_simps discovery_acceptable_def)
  have "Ok t = normalized_target U u" "Ok t' = normalized_target U u'"
    using assms(2,11,12) parse_discovery_target_acceptable [OF assms(3) len(1) acc]
      parse_discovery_target_acceptable [OF assms(4) len(2) acc']
    by (auto simp: discovery_base_def)
  then show ?thesis
    by (auto simp: normalized_target_def Let_def eq split: option.splits)
qed

end
