(* ===== verification/Ssrf.thy ===== *)
theory Ssrf
  imports Protocol
begin

text \<open>
  The destination policy of the resolver, \<open>crates/resolver/src/ssrf.rs\<close>: which URLs and which addresses
  may be fetched. An IPv4 address is a \<^typ>\<open>32 word\<close>, an IPv6 address a \<^typ>\<open>128 word\<close>; the prefix test
  of the \<open>ipnet\<close> crate is a parameter with its documented meaning as a law.
\<close>

section \<open>Addresses\<close>

datatype IpAddr = V4 "32 word" | V6 "128 word"

text \<open>The derived order of \<open>std::net::IpAddr\<close>: every IPv4 address before every IPv6 one.\<close>

instantiation IpAddr :: linorder
begin

fun less_eq_IpAddr :: "IpAddr \<Rightarrow> IpAddr \<Rightarrow> bool" where
  "less_eq_IpAddr (V4 a) (V4 b) \<longleftrightarrow> a \<le> b"
| "less_eq_IpAddr (V4 a) (V6 b) \<longleftrightarrow> True"
| "less_eq_IpAddr (V6 a) (V4 b) \<longleftrightarrow> False"
| "less_eq_IpAddr (V6 a) (V6 b) \<longleftrightarrow> a \<le> b"

definition less_IpAddr :: "IpAddr \<Rightarrow> IpAddr \<Rightarrow> bool" where
  "less_IpAddr x y \<longleftrightarrow> x \<le> y \<and> \<not> y \<le> x"

instance
proof
  fix x y z :: IpAddr
  show "x \<le> x" by (cases x) auto
  show "x \<le> y \<Longrightarrow> y \<le> z \<Longrightarrow> x \<le> z" by (cases x; cases y; cases z) auto
  show "x \<le> y \<Longrightarrow> y \<le> x \<Longrightarrow> x = y" by (cases x; cases y) auto
  show "x \<le> y \<or> y \<le> x" by (cases x; cases y) auto
  show "x < y \<longleftrightarrow> x \<le> y \<and> \<not> y \<le> x" by (rule less_IpAddr_def)
qed

end

definition ipv4 :: "nat \<Rightarrow> nat \<Rightarrow> nat \<Rightarrow> nat \<Rightarrow> 32 word" where
  "ipv4 a b c d = of_nat (((a * 256 + b) * 256 + c) * 256 + d)"

definition ipv6 :: "nat list \<Rightarrow> 128 word" where
  "ipv6 groups = of_nat (foldl (\<lambda>n g. n * 65536 + g) 0 groups)"

text \<open>\<open>Ipv6Addr::to_ipv4_mapped\<close>: \<open>::ffff:a.b.c.d\<close>.\<close>

definition to_ipv4_mapped :: "128 word \<Rightarrow> 32 word option" where
  "to_ipv4_mapped a =
     (if unat a div 2 ^ 32 = 0xFFFF then Some (of_nat (unat a mod 2 ^ 32)) else None)"

text \<open>\<open>IpNet::contains\<close>: the addresses that share the prefix.\<close>

record ipnet_api =
  v4_contains :: "32 word \<times> nat \<Rightarrow> 32 word \<Rightarrow> bool"
  v6_contains :: "128 word \<times> nat \<Rightarrow> 128 word \<Rightarrow> bool"

definition ipnet_laws :: "ipnet_api \<Rightarrow> bool" where
  "ipnet_laws N \<longleftrightarrow>
     (\<forall>p n a. n \<le> 32 \<longrightarrow> v4_contains N (p, n) a = (unat a div 2 ^ (32 - n) = unat p div 2 ^ (32 - n))) \<and>
     (\<forall>p n a. n \<le> 128 \<longrightarrow> v6_contains N (p, n) a = (unat a div 2 ^ (128 - n) = unat p div 2 ^ (128 - n)))"

definition prefix_ipnet :: ipnet_api where
  "prefix_ipnet =
     \<lparr>v4_contains = (\<lambda>(p, n) a. unat a div 2 ^ (32 - n) = unat p div 2 ^ (32 - n)),
      v6_contains = (\<lambda>(p, n) a. unat a div 2 ^ (128 - n) = unat p div 2 ^ (128 - n))\<rparr>"

lemma ipnet_laws_prefix: "ipnet_laws prefix_ipnet"
  by (simp add: ipnet_laws_def prefix_ipnet_def)

section \<open>The special-purpose ranges\<close>

definition IPV4_NOT_GLOBAL :: "(32 word \<times> nat) list" where
  "IPV4_NOT_GLOBAL =
     [(ipv4 0 0 0 0, 8), (ipv4 10 0 0 0, 8), (ipv4 100 64 0 0, 10), (ipv4 127 0 0 0, 8),
      (ipv4 169 254 0 0, 16), (ipv4 172 16 0 0, 12),
      (ipv4 192 0 0 0, 29), (ipv4 192 0 0 8, 32), (ipv4 192 0 0 11, 32), (ipv4 192 0 0 12, 30),
      (ipv4 192 0 0 16, 28), (ipv4 192 0 0 32, 27), (ipv4 192 0 0 64, 26), (ipv4 192 0 0 128, 26),
      (ipv4 192 0 0 192, 27), (ipv4 192 0 0 224, 28), (ipv4 192 0 0 240, 29), (ipv4 192 0 0 248, 30),
      (ipv4 192 0 0 252, 31), (ipv4 192 0 0 254, 32), (ipv4 192 0 0 255, 32),
      (ipv4 192 0 2 0, 24), (ipv4 192 88 99 0, 24), (ipv4 192 168 0 0, 16), (ipv4 198 18 0 0, 15),
      (ipv4 198 51 100 0, 24), (ipv4 203 0 113 0, 24), (ipv4 224 0 0 0, 4), (ipv4 240 0 0 0, 4)]"

definition IPV6_NOT_GLOBAL :: "(128 word \<times> nat) list" where
  "IPV6_NOT_GLOBAL =
     [(ipv6 [0, 0, 0, 0, 0, 0, 0, 0], 128), (ipv6 [0, 0, 0, 0, 0, 0, 0, 1], 128),
      (ipv6 [0, 0, 0, 0, 0, 0, 0, 0], 96), (ipv6 [0x64, 0xFF9B, 1, 0, 0, 0, 0, 0], 48),
      (ipv6 [0x100, 0, 0, 0, 0, 0, 0, 0], 64), (ipv6 [0x100, 0, 0, 1, 0, 0, 0, 0], 64),
      (ipv6 [0x2001, 0, 0, 0, 0, 0, 0, 0], 23), (ipv6 [0x2001, 0xDB8, 0, 0, 0, 0, 0, 0], 32),
      (ipv6 [0x2002, 0, 0, 0, 0, 0, 0, 0], 16), (ipv6 [0x3FFF, 0, 0, 0, 0, 0, 0, 0], 20),
      (ipv6 [0x5F00, 0, 0, 0, 0, 0, 0, 0], 16), (ipv6 [0xFC00, 0, 0, 0, 0, 0, 0, 0], 7),
      (ipv6 [0xFE80, 0, 0, 0, 0, 0, 0, 0], 10), (ipv6 [0xFF00, 0, 0, 0, 0, 0, 0, 0], 8)]"

definition IPV6_GLOBAL_EXCEPTIONS :: "(128 word \<times> nat) list" where
  "IPV6_GLOBAL_EXCEPTIONS =
     [(ipv6 [0x2001, 1, 0, 0, 0, 0, 0, 1], 128), (ipv6 [0x2001, 1, 0, 0, 0, 0, 0, 2], 128),
      (ipv6 [0x2001, 1, 0, 0, 0, 0, 0, 3], 128), (ipv6 [0x2001, 3, 0, 0, 0, 0, 0, 0], 32),
      (ipv6 [0x2001, 4, 0x112, 0, 0, 0, 0, 0], 48), (ipv6 [0x2001, 0x20, 0, 0, 0, 0, 0, 0], 28),
      (ipv6 [0x2001, 0x30, 0, 0, 0, 0, 0, 0], 28)]"

definition globally_reachable_v4 :: "ipnet_api \<Rightarrow> 32 word \<Rightarrow> bool" where
  "globally_reachable_v4 N a \<longleftrightarrow> \<not> list_ex (\<lambda>p. v4_contains N p a) IPV4_NOT_GLOBAL"

fun globally_reachable :: "ipnet_api \<Rightarrow> IpAddr \<Rightarrow> bool" where
  "globally_reachable N (V4 a) = globally_reachable_v4 N a"
| "globally_reachable N (V6 a) =
     (case to_ipv4_mapped a of
        Some mapped \<Rightarrow> globally_reachable_v4 N mapped
      | None \<Rightarrow>
          if list_ex (\<lambda>p. v6_contains N p a) IPV6_GLOBAL_EXCEPTIONS then True
          else \<not> list_ex (\<lambda>p. v6_contains N p a) IPV6_NOT_GLOBAL)"

section \<open>Checks\<close>

text \<open>A \<open>u16\<close> port is a natural number; \<open>BTreeSet\<close> keeps a set of them.\<close>

record DestinationPolicy =
  allowed_ports :: "nat set"

definition DestinationPolicy_new :: "nat list \<Rightarrow> (DestinationPolicy, string) res" where
  "DestinationPolicy_new ports =
     (if set ports = {} \<or> 0 \<in> set ports
      then Err ''allowed ports must contain at least one non-zero port''
      else if card (set ports) > 64 then Err ''allowed ports must contain at most 64 unique ports''
      else Ok \<lparr>allowed_ports = set ports\<rparr>)"

definition validate_url :: "'u url_api \<Rightarrow> DestinationPolicy \<Rightarrow> 'u \<Rightarrow> (unit, string) res" where
  "validate_url U policy url =
     (if url_scheme U url \<noteq> ''https'' \<or> url_host_str U url = None \<or> url_username U url \<noteq> [] \<or>
         url_password U url \<noteq> None \<or>
         (case url_port_or_known_default U url of Some port \<Rightarrow> port | None \<Rightarrow> 0) \<notin> allowed_ports policy
      then Err ''unsafe_destination'' else Ok ())"

definition DestinationPolicy_default :: "(DestinationPolicy, string) res" where
  "DestinationPolicy_default = DestinationPolicy_new [443]"

definition validate_all_addresses :: "ipnet_api \<Rightarrow> IpAddr list \<Rightarrow> (IpAddr list, string) res" where
  "validate_all_addresses N addresses =
     (if addresses = [] \<or> list_ex (\<lambda>a. \<not> globally_reachable N a) addresses
      then Err ''unsafe_address'' else Ok (remdups_adj (sort addresses)))"

section \<open>The contract the loader relies on\<close>

text \<open>
  Whoever connects to an address of an accepted DNS answer connects to a safe one: the answer has
  addresses, all of them of the answer that was checked, and every one satisfies the predicate.
\<close>

locale address_policy =
  fixes safe :: "IpAddr \<Rightarrow> bool"
    and check :: "IpAddr list \<Rightarrow> (IpAddr list, string) res"
  assumes check_Ok: "check answer = Ok vs \<Longrightarrow> vs \<noteq> [] \<and> set vs = set answer \<and> list_all safe vs"
    and check_total: "check answer \<noteq> Panic"
begin

lemma checked_safe: "check answer = Ok vs \<Longrightarrow> a \<in> set vs \<Longrightarrow> safe a"
  using check_Ok by (fastforce simp: list_all_iff)

lemma unsafe_answer_refused: "a \<in> set answer \<Longrightarrow> \<not> safe a \<Longrightarrow> \<exists>e. check answer = Err e"
  using check_Ok [of answer] check_total [of answer]
  by (cases "check answer") (auto simp: list_all_iff)

end

lemma validate_all_addresses_Ok:
  "validate_all_addresses N answer = Ok vs \<longleftrightarrow>
     answer \<noteq> [] \<and> list_all (globally_reachable N) answer \<and> vs = remdups_adj (sort answer)"
  by (auto simp: validate_all_addresses_def list_ex_iff list_all_iff)

interpretation destination: address_policy "globally_reachable N" "validate_all_addresses N" for N
proof
  fix answer vs
  assume "validate_all_addresses N answer = Ok vs"
  then show "vs \<noteq> [] \<and> set vs = set answer \<and> list_all (globally_reachable N) vs"
    by (auto simp: validate_all_addresses_Ok list_all_iff simp flip: set_empty)
qed (simp add: validate_all_addresses_def)

section \<open>Octets\<close>

definition octets :: "32 word \<Rightarrow> nat \<times> nat \<times> nat \<times> nat" where
  "octets a = (unat a div 2 ^ 24, unat a div 2 ^ 16 mod 256, unat a div 2 ^ 8 mod 256, unat a mod 256)"

text \<open>The special-purpose addresses, octet by octet.\<close>

fun special_purpose :: "nat \<times> nat \<times> nat \<times> nat \<Rightarrow> bool" where
  "special_purpose (a, b, c, d) \<longleftrightarrow>
     a = 0 \<or> a = 10 \<or> a = 127 \<or> 224 \<le> a \<or>
     (a = 100 \<and> 64 \<le> b \<and> b \<le> 127) \<or>
     (a = 169 \<and> b = 254) \<or>
     (a = 172 \<and> 16 \<le> b \<and> b \<le> 31) \<or>
     (a = 192 \<and> b = 0 \<and> c = 0 \<and> d \<noteq> 9 \<and> d \<noteq> 10) \<or>
     (a = 192 \<and> b = 0 \<and> c = 2) \<or>
     (a = 192 \<and> b = 88 \<and> c = 99) \<or>
     (a = 192 \<and> b = 168) \<or>
     (a = 198 \<and> (b = 18 \<or> b = 19)) \<or>
     (a = 198 \<and> b = 51 \<and> c = 100) \<or>
     (a = 203 \<and> b = 0 \<and> c = 113)"

lemma pack_div:
  fixes x y :: nat
  assumes "x < 256" "y < 256" "j \<le> 8"
  shows "(A * 256 + x) div 2 ^ j = (C * 256 + y) div 2 ^ j \<longleftrightarrow> A = C \<and> x div 2 ^ j = y div 2 ^ j"
proof -
  let ?k = "2 ^ (8 - j) :: nat"
  have k: "256 = ?k * 2 ^ j" using assms(3) by (simp flip: power_add)
  have d: "(B * 256 + z) div 2 ^ j = B * ?k + z div 2 ^ j" for B z :: nat
    by (simp add: k flip: mult.assoc)
  have b: "z div 2 ^ j < ?k" if "z < 256" for z :: nat
    using that k by (simp add: less_mult_imp_div_less)
  have "A = C \<and> x' = y'" if e: "A * ?k + x' = C * ?k + y'" and "x' < ?k" "y' < ?k" for x' y'
  proof -
    have "(A * ?k + x') div ?k = A" "(C * ?k + y') div ?k = C" using that(2,3) by simp_all
    with e show ?thesis by simp
  qed
  from this [OF _ b [OF assms(1)] b [OF assms(2)]]
  show ?thesis unfolding d by auto
qed

lemma unat_ipv4:
  "a < 256 \<Longrightarrow> b < 256 \<Longrightarrow> c < 256 \<Longrightarrow> d < 256 \<Longrightarrow>
   unat (ipv4 a b c d) = ((a * 256 + b) * 256 + c) * 256 + d"
  unfolding ipv4_def unat_of_nat by (rule mod_less) simp

text \<open>A prefix of an address, whatever its length, as a condition on octets.\<close>

lemma v4_contains_octets:
  assumes "ipnet_laws N" and "octets x = (o1, o2, o3, o4)"
    and "a < 256" "b < 256" "c < 256" "d < 256"
  shows "j \<le> 8 \<Longrightarrow> v4_contains N (ipv4 a b c d, 32 - j) x \<longleftrightarrow>
           o1 = a \<and> o2 = b \<and> o3 = c \<and> o4 div 2 ^ j = d div 2 ^ j"
    and "j \<le> 8 \<Longrightarrow> v4_contains N (ipv4 a b c d, 24 - j) x \<longleftrightarrow>
           o1 = a \<and> o2 = b \<and> o3 div 2 ^ j = c div 2 ^ j"
    and "j \<le> 8 \<Longrightarrow> v4_contains N (ipv4 a b c d, 16 - j) x \<longleftrightarrow> o1 = a \<and> o2 div 2 ^ j = b div 2 ^ j"
    and "j \<le> 8 \<Longrightarrow> v4_contains N (ipv4 a b c d, 8 - j) x \<longleftrightarrow> o1 div 2 ^ j = a div 2 ^ j"
proof -
  have o: "o2 < 256" "o3 < 256" "o4 < 256"
    using assms(2) by (auto simp: octets_def)
  have n: "unat x = ((o1 * 256 + o2) * 256 + o3) * 256 + o4"
  proof -
    have e: "m = m div 256 * 256 + m mod 256" for m :: nat by simp
    have 1: "unat x = unat x div 256 * 256 + o4"
      using assms(2) e [of "unat x"] by (simp add: octets_def)
    have 2: "unat x div 256 = unat x div 65536 * 256 + o3"
      using assms(2) e [of "unat x div 256"] by (simp add: octets_def div_mult2_eq [symmetric])
    have 3: "unat x div 65536 = o1 * 256 + o2"
      using assms(2) e [of "unat x div 65536"] by (simp add: octets_def div_mult2_eq [symmetric])
    show ?thesis by (subst 1, subst 2, subst 3) (rule refl)
  qed
  note u = unat_ipv4 [OF assms(3-6)]
  note small = o assms(3-6)
  have d: "(A * 256 + y) div 2 ^ (j + 8) = A div 2 ^ j" if "y < 256" for A y j :: nat
  proof -
    have "2 ^ (j + 8) = (256 :: nat) * 2 ^ j" by (simp add: power_add)
    moreover have "(A * 256 + y) div 256 = A" using that by simp
    ultimately show ?thesis by (simp only: div_mult2_eq)
  qed
  have p0: "A * 256 + y = C * 256 + z \<longleftrightarrow> A = C \<and> y = z" if "y < 256" "z < 256" for A C y z :: nat
    using pack_div [OF that, of 0 A C] by simp
  have contains: "v4_contains N (ipv4 a b c d, 32 - k) x \<longleftrightarrow>
      unat x div 2 ^ k = unat (ipv4 a b c d) div 2 ^ k" if "k \<le> 32" for k
    using assms(1) that by (simp add: ipnet_laws_def)
  show "v4_contains N (ipv4 a b c d, 32 - j) x \<longleftrightarrow>
      o1 = a \<and> o2 = b \<and> o3 = c \<and> o4 div 2 ^ j = d div 2 ^ j" if "j \<le> 8"
    unfolding contains [OF order_trans [OF that], simplified] n u pack_div [OF small(3,7) that]
    by (auto simp only: p0 small)
  show "v4_contains N (ipv4 a b c d, 24 - j) x \<longleftrightarrow> o1 = a \<and> o2 = b \<and> o3 div 2 ^ j = c div 2 ^ j" if "j \<le> 8"
    using contains [of "j + 8"] that
    by (simp only: n u d [OF small(3)] d [OF small(7)] pack_div [OF small(2,6) that] p0 small) auto
  show "v4_contains N (ipv4 a b c d, 16 - j) x \<longleftrightarrow> o1 = a \<and> o2 div 2 ^ j = b div 2 ^ j" if "j \<le> 8"
    using contains [of "j + 8 + 8"] that pack_div [OF small(1,5) that]
    by (simp only: n u d [OF small(3)] d [OF small(7)] d [OF small(2)] d [OF small(6)]) simp
  show "v4_contains N (ipv4 a b c d, 8 - j) x \<longleftrightarrow> o1 div 2 ^ j = a div 2 ^ j" if "j \<le> 8"
    using contains [of "j + 8 + 8 + 8"] that
    by (simp only: n u d [OF small(3)] d [OF small(7)] d [OF small(2)] d [OF small(6)]
        d [OF small(1)] d [OF small(5)]) simp
qed

lemma v4_prefix_lengths:
  assumes "ipnet_laws N" and "octets x = (o1, o2, o3, o4)"
    and "a < 256" "b < 256" "c < 256" "d < 256"
  shows "v4_contains N (ipv4 a b c d, 32) x \<longleftrightarrow> o1 = a \<and> o2 = b \<and> o3 = c \<and> o4 = d"
    and "v4_contains N (ipv4 a b c d, 31) x \<longleftrightarrow> o1 = a \<and> o2 = b \<and> o3 = c \<and> o4 div 2 = d div 2"
    and "v4_contains N (ipv4 a b c d, 30) x \<longleftrightarrow> o1 = a \<and> o2 = b \<and> o3 = c \<and> o4 div 4 = d div 4"
    and "v4_contains N (ipv4 a b c d, 29) x \<longleftrightarrow> o1 = a \<and> o2 = b \<and> o3 = c \<and> o4 div 8 = d div 8"
    and "v4_contains N (ipv4 a b c d, 28) x \<longleftrightarrow> o1 = a \<and> o2 = b \<and> o3 = c \<and> o4 div 16 = d div 16"
    and "v4_contains N (ipv4 a b c d, 27) x \<longleftrightarrow> o1 = a \<and> o2 = b \<and> o3 = c \<and> o4 div 32 = d div 32"
    and "v4_contains N (ipv4 a b c d, 26) x \<longleftrightarrow> o1 = a \<and> o2 = b \<and> o3 = c \<and> o4 div 64 = d div 64"
    and "v4_contains N (ipv4 a b c d, 24) x \<longleftrightarrow> o1 = a \<and> o2 = b \<and> o3 = c"
    and "v4_contains N (ipv4 a b c d, 16) x \<longleftrightarrow> o1 = a \<and> o2 = b"
    and "v4_contains N (ipv4 a b c d, 15) x \<longleftrightarrow> o1 = a \<and> o2 div 2 = b div 2"
    and "v4_contains N (ipv4 a b c d, 12) x \<longleftrightarrow> o1 = a \<and> o2 div 16 = b div 16"
    and "v4_contains N (ipv4 a b c d, 10) x \<longleftrightarrow> o1 = a \<and> o2 div 64 = b div 64"
    and "v4_contains N (ipv4 a b c d, 8) x \<longleftrightarrow> o1 = a"
    and "v4_contains N (ipv4 a b c d, 4) x \<longleftrightarrow> o1 div 16 = a div 16"
  using v4_contains_octets(1) [OF assms, of 0] v4_contains_octets(1) [OF assms, of 1]
    v4_contains_octets(1) [OF assms, of 2] v4_contains_octets(1) [OF assms, of 3]
    v4_contains_octets(1) [OF assms, of 4] v4_contains_octets(1) [OF assms, of 5]
    v4_contains_octets(1) [OF assms, of 6] v4_contains_octets(2) [OF assms, of 0]
    v4_contains_octets(3) [OF assms, of 0] v4_contains_octets(3) [OF assms, of 1]
    v4_contains_octets(3) [OF assms, of 4] v4_contains_octets(3) [OF assms, of 6]
    v4_contains_octets(4) [OF assms, of 0] v4_contains_octets(4) [OF assms, of 4]
  by simp_all

lemma reserved_192_0_0:
  fixes d :: nat
  assumes "d < 256"
  shows "d div 8 = 0 \<or> d = 8 \<or> d = 11 \<or> d div 4 = 3 \<or> d div 16 = 1 \<or> d div 32 = 1 \<or> d div 64 = 1 \<or>
         d div 64 = 2 \<or> d div 32 = 6 \<or> d div 16 = 14 \<or> d div 8 = 30 \<or> d div 4 = 62 \<or> d div 2 = 126 \<or>
         d = 254 \<or> d = 255 \<longleftrightarrow> d \<noteq> 9 \<and> d \<noteq> 10"
proof -
  have "list_all (\<lambda>d. (d div 8 = 0 \<or> d = 8 \<or> d = 11 \<or> d div 4 = 3 \<or> d div 16 = 1 \<or> d div 32 = 1 \<or>
      d div 64 = 1 \<or> d div 64 = 2 \<or> d div 32 = 6 \<or> d div 16 = 14 \<or> d div 8 = 30 \<or> d div 4 = 62 \<or>
      d div 2 = 126 \<or> d = 254 \<or> d = 255) \<longleftrightarrow> d \<noteq> 9 \<and> d \<noteq> 10) [0..<256]"
    by code_simp
  with assms show ?thesis unfolding list_all_iff set_upt by (auto simp del: div_greater_zero_iff)
qed

lemma globally_reachable_v4_octets:
  assumes "ipnet_laws N"
  shows "globally_reachable_v4 N x \<longleftrightarrow> \<not> special_purpose (octets x)"
proof -
  obtain o1 o2 o3 o4 where o: "octets x = (o1, o2, o3, o4)" by (cases "octets x")
  have "unat x < 2 ^ LENGTH(32)" by (rule unsigned_less)
  then have lt: "o1 < 256" "o4 < 256" "o2 < 256"
    using o by (auto simp: octets_def less_mult_imp_div_less)
  have d: "o2 div 64 = Suc 0 \<longleftrightarrow> 64 \<le> o2 \<and> o2 \<le> 127" "o2 div 16 = Suc 0 \<longleftrightarrow> 16 \<le> o2 \<and> o2 \<le> 31"
    "o2 div 2 = 9 \<longleftrightarrow> o2 = 18 \<or> o2 = 19" "o1 div 16 = 14 \<or> o1 div 16 = 15 \<longleftrightarrow> 224 \<le> o1"
    using lt(1) by linarith+
  show ?thesis
    unfolding globally_reachable_v4_def IPV4_NOT_GLOBAL_def
    by (cases "o1 = 192"; cases "o2 = 0"; cases "o3 = 0";
        simp add: v4_prefix_lengths [OF assms o] o d reserved_192_0_0 [OF lt(2), symmetric]; blast?)
qed

section \<open>IPv6 prefixes\<close>

lemma prefix_shorter:
  fixes x y :: nat
  assumes "x div 2 ^ j = y div 2 ^ j" and "j \<le> k"
  shows "x div 2 ^ k = y div 2 ^ k"
proof -
  have "(2 :: nat) ^ k = 2 ^ j * 2 ^ (k - j)" using assms(2) by (simp flip: power_add)
  with assms(1) show ?thesis by (simp only: div_mult2_eq)
qed

lemma v6_contains_shorter:
  assumes "ipnet_laws N" and "v6_contains N (p, n) a" and "m \<le> n" "n \<le> 128"
  shows "unat a div 2 ^ (128 - m) = unat p div 2 ^ (128 - m)"
proof -
  have "unat a div 2 ^ (128 - n) = unat p div 2 ^ (128 - n)"
    using assms(1,2,4) by (simp add: ipnet_laws_def)
  then show ?thesis by (rule prefix_shorter) (use assms(3) in simp)
qed

text \<open>Every exception lies in \<open>2001::/23\<close>, and no other listed range meets that one or the mapped addresses.\<close>

lemma exceptions_in_2001:
  "list_all (\<lambda>(p, n). 23 \<le> n \<and> n \<le> 128 \<and> unat p div 2 ^ 105 = unat (ipv6 [0x2001, 0, 0, 0, 0, 0, 0, 0]) div 2 ^ 105)
     IPV6_GLOBAL_EXCEPTIONS"
  by (simp add: IPV6_GLOBAL_EXCEPTIONS_def ipv6_def)

lemma other_ranges_disjoint:
  "list_all (\<lambda>(p, n). n \<le> 128 \<and>
     ((p, n) = (ipv6 [0x2001, 0, 0, 0, 0, 0, 0, 0], 23) \<or>
      unat p div 2 ^ (128 - min n 23) \<noteq> unat (ipv6 [0x2001, 0, 0, 0, 0, 0, 0, 0]) div 2 ^ (128 - min n 23)))
     IPV6_NOT_GLOBAL"
  by (simp add: IPV6_NOT_GLOBAL_def ipv6_def)

lemma exception_contains:
  assumes "ipnet_laws N" and "e \<in> set IPV6_GLOBAL_EXCEPTIONS" and "v6_contains N e a"
  shows "v6_contains N (ipv6 [0x2001, 0, 0, 0, 0, 0, 0, 0], 23) a"
    and "(p, n) \<in> set IPV6_NOT_GLOBAL \<Longrightarrow> v6_contains N (p, n) a \<Longrightarrow>
         (p, n) = (ipv6 [0x2001, 0, 0, 0, 0, 0, 0, 0], 23)"
proof -
  let ?b = "ipv6 [0x2001, 0, 0, 0, 0, 0, 0, 0]"
  obtain q k where e: "e = (q, k)" by (cases e)
  with exceptions_in_2001 assms(2) have q: "23 \<le> k" "k \<le> 128" "unat q div 2 ^ 105 = unat ?b div 2 ^ 105"
    by (auto simp: list_all_iff)
  have "unat a div 2 ^ (128 - 23) = unat q div 2 ^ (128 - 23)"
    using v6_contains_shorter [OF assms(1) assms(3) [unfolded e] q(1,2)] .
  with q(3) have a: "unat a div 2 ^ 105 = unat ?b div 2 ^ 105" by simp
  with assms(1) show "v6_contains N (?b, 23) a" by (simp add: ipnet_laws_def)
  assume p: "(p, n) \<in> set IPV6_NOT_GLOBAL" "v6_contains N (p, n) a"
  have d: "n \<le> 128" "(p, n) = (?b, 23) \<or>
      unat p div 2 ^ (128 - min n 23) \<noteq> unat ?b div 2 ^ (128 - min n 23)"
    using other_ranges_disjoint p(1) by (auto simp: list_all_iff)
  have "unat a div 2 ^ (128 - min n 23) = unat p div 2 ^ (128 - min n 23)"
    using v6_contains_shorter [OF assms(1) p(2) _ d(1)] by simp
  moreover have "unat a div 2 ^ (128 - min n 23) = unat ?b div 2 ^ (128 - min n 23)"
    by (rule prefix_shorter [OF a]) simp
  ultimately show "(p, n) = (?b, 23)" using d(2) by metis
qed

lemma unat_of_nat_inverse: "of_nat (unat x) = (x :: 32 word)"
  by simp

lemma remdups_adj_sorted:
  "sorted (xs :: 'a :: linorder list) \<Longrightarrow> sorted (remdups_adj xs) \<and> distinct (remdups_adj xs)"
proof (induction xs rule: remdups_adj.induct)
  case (3 x y xs)
  then have "x \<le> z" if "z \<in> set (y # xs)" for z using that by auto
  moreover have "x \<notin> set (y # xs)" if "x \<noteq> y"
    using that 3(3) by auto
  ultimately show ?case using 3 by auto
qed auto

lemma to_ipv4_mapped_embed:
  "to_ipv4_mapped (of_nat (0xFFFF * 2 ^ 32 + unat (x :: 32 word))) = Some x"
proof -
  have x: "unat x < 2 ^ 32"
    using unsigned_less [of x] by simp
  then have "unat (of_nat (0xFFFF * 2 ^ 32 + unat x) :: 128 word) = 0xFFFF * 2 ^ 32 + unat x"
    unfolding unat_of_nat by (intro mod_less) simp
  moreover have "(0xFFFF * 2 ^ 32 + unat x) div 2 ^ 32 = 0xFFFF"
    by (rule div_nat_eqI) (use x in simp_all)
  moreover have "(0xFFFF * 2 ^ 32 + unat x) mod 2 ^ 32 = unat x"
    using x by (simp only: mod_mult_self3 mod_less)
  ultimately show ?thesis by (simp only: to_ipv4_mapped_def if_True refl unat_of_nat_inverse)
qed

section \<open>Properties\<close>

text \<open>
  C24. The IPv4 addresses a fetch may reach, octet by octet: everything outside the listed special-purpose
  blocks, and of \<open>192.0.0.0/24\<close> exactly \<open>192.0.0.9\<close> and \<open>192.0.0.10\<close>. The twenty-nine prefixes of the
  source, fifteen of which cut these two out of their block, say neither more nor less. Writing the same
  address as an IPv4-mapped IPv6 address changes nothing.
\<close>

theorem ipv4_reachable_iff:
  assumes "ipnet_laws N"
  shows "(globally_reachable N (V4 x) \<longleftrightarrow> \<not> special_purpose (octets x)) \<and>
         globally_reachable N (V6 (of_nat (0xFFFF * 2 ^ 32 + unat x))) = globally_reachable N (V4 x)"
  using globally_reachable_v4_octets [OF assms, of x] to_ipv4_mapped_embed [of x] by simp

theorem ipv4_reachable_iff_witness:
  "globally_reachable prefix_ipnet (V4 (ipv4 192 0 0 9)) \<and>
   \<not> globally_reachable prefix_ipnet (V4 (ipv4 192 0 0 11)) \<and>
   \<not> globally_reachable prefix_ipnet (V4 (ipv4 169 254 169 254))"
  using ipv4_reachable_iff [OF ipnet_laws_prefix, of "ipv4 192 0 0 9"]
    ipv4_reachable_iff [OF ipnet_laws_prefix, of "ipv4 192 0 0 11"]
    ipv4_reachable_iff [OF ipnet_laws_prefix, of "ipv4 169 254 169 254"]
  by (simp add: octets_def unat_ipv4)



text \<open>
  A DNS answer is used as a whole or not at all: it is accepted exactly when it is not empty and every
  address is reachable, and the result is then its addresses, each once, in ascending order.
\<close>

lemma validate_all_addresses_correct:
  "validate_all_addresses N answer =
     (if answer \<noteq> [] \<and> list_all (globally_reachable N) answer
      then Ok (sorted_list_of_set (set answer)) else Err ''unsafe_address'')"
proof -
  have "remdups_adj (sort answer) = sorted_list_of_set (set answer)"
    using remdups_adj_sorted [of "sort answer"] by (intro sorted_distinct_set_unique) simp_all
  then show ?thesis
    by (auto simp: validate_all_addresses_def list_ex_iff list_all_iff)
qed

text \<open>
  A destination policy allows between 1 and 64 ports, never port 0, and a URL passes it exactly when it is
  \<open>https\<close> with a host, without user information, and on an allowed port. The default policy allows port
  443 alone.
\<close>

lemma destination_policy_correct:
  "(DestinationPolicy_new ports = Ok policy \<longleftrightarrow>
      policy = \<lparr>allowed_ports = set ports\<rparr> \<and> 0 \<notin> set ports \<and>
      1 \<le> card (set ports) \<and> card (set ports) \<le> 64) \<and>
   (DestinationPolicy_new ports = Ok policy \<and> validate_url U policy url = Ok () \<longleftrightarrow>
      DestinationPolicy_new ports = Ok policy \<and>
      url_scheme U url = ''https'' \<and> url_host_str U url \<noteq> None \<and> url_username U url = [] \<and>
      url_password U url = None \<and> (\<exists>p. url_port_or_known_default U url = Some p \<and> p \<in> set ports)) \<and>
   DestinationPolicy_default = Ok \<lparr>allowed_ports = {443}\<rparr>"
proof -
  have "1 \<le> card (set ports) \<longleftrightarrow> ports \<noteq> []"
    by (simp add: Suc_le_eq card_gt_0_iff)
  then show ?thesis
    by (auto simp: DestinationPolicy_new_def DestinationPolicy_default_def validate_url_def
        split: if_splits option.splits)
qed

end
