(* ===== verification/Fetch.thy ===== *)
theory Fetch
  imports Ssrf
begin

text \<open>
  Fetching one resource over HTTPS, \<open>crates/resolver/src/fetch.rs\<close>: the errors and their classes, the
  media types, the client each request is sent with and the checks on its response. The HTTP client,
  header text and date parsing are parameters.
\<close>

section \<open>Errors\<close>

datatype EgressMode = Direct | Proxy

datatype FetchErrorKind =
    BadRequest | Dns | UnsafeAddress | RateLimited | Overloaded | CircuitOpen | Timeout | Transport
  | HttpStatus | MediaType | ContentEncoding | BodyTooLarge | InvalidResource

fun FetchErrorKind_as_str :: "FetchErrorKind \<Rightarrow> string" where
  "FetchErrorKind_as_str BadRequest = ''bad_request''"
| "FetchErrorKind_as_str Dns = ''dns''"
| "FetchErrorKind_as_str UnsafeAddress = ''unsafe_address''"
| "FetchErrorKind_as_str RateLimited = ''rate_limited''"
| "FetchErrorKind_as_str Overloaded = ''overloaded''"
| "FetchErrorKind_as_str FetchErrorKind.CircuitOpen = ''circuit_open''"
| "FetchErrorKind_as_str Timeout = ''timeout''"
| "FetchErrorKind_as_str Transport = ''transport''"
| "FetchErrorKind_as_str HttpStatus = ''http_status''"
| "FetchErrorKind_as_str MediaType = ''media_type''"
| "FetchErrorKind_as_str ContentEncoding = ''content_encoding''"
| "FetchErrorKind_as_str BodyTooLarge = ''body_too_large''"
| "FetchErrorKind_as_str InvalidResource = ''invalid_resource''"

datatype FailureClass = Permanent | LoadShed | Transient | CircuitOpen

record FetchError =
  err_kind :: FetchErrorKind
  err_status :: "nat option"
  err_retry_after :: "duration option"

definition FetchError_new :: "FetchErrorKind \<Rightarrow> FetchError" where
  "FetchError_new kind = \<lparr>err_kind = kind, err_status = None, err_retry_after = None\<rparr>"

text \<open>\<open>StatusCode::is_server_error\<close>: the statuses from 500 to 599.\<close>

definition is_server_error :: "nat \<Rightarrow> bool" where
  "is_server_error status \<longleftrightarrow> 500 \<le> status \<and> status \<le> 599"

definition FetchError_class :: "FetchError \<Rightarrow> FailureClass" where
  "FetchError_class e =
     (case err_kind e of
        Dns \<Rightarrow> Transient | Timeout \<Rightarrow> Transient | Transport \<Rightarrow> Transient
      | HttpStatus \<Rightarrow>
          (case err_status e of
             Some status \<Rightarrow>
               (if status \<in> {408, 425, 429} \<or> is_server_error status then Transient else Permanent)
           | None \<Rightarrow> Permanent)
      | FetchErrorKind.CircuitOpen \<Rightarrow> FailureClass.CircuitOpen
      | RateLimited \<Rightarrow> LoadShed | Overloaded \<Rightarrow> LoadShed
      | BadRequest \<Rightarrow> Permanent | UnsafeAddress \<Rightarrow> Permanent | MediaType \<Rightarrow> Permanent
      | ContentEncoding \<Rightarrow> Permanent | BodyTooLarge \<Rightarrow> Permanent | InvalidResource \<Rightarrow> Permanent)"

definition allows_stale :: "FetchError \<Rightarrow> bool" where
  "allows_stale e \<longleftrightarrow> FetchError_class e \<in> {Transient, FailureClass.CircuitOpen}"

section \<open>Resource kinds\<close>

datatype ResourceKind = Jwks | Cimd

definition is_directory_url :: "'u url_api \<Rightarrow> 'u \<Rightarrow> bool" where
  "is_directory_url U url \<longleftrightarrow>
     url_path U url = DIRECTORY_PATH \<and> url_query U url = None \<and> url_fragment U url = None"

definition ResourceKind_accept :: "'u url_api \<Rightarrow> ResourceKind \<Rightarrow> 'u \<Rightarrow> string" where
  "ResourceKind_accept U kind url =
     (case kind of
        ResourceKind.Jwks \<Rightarrow>
          (if is_directory_url U url then ''application/http-message-signatures-directory+json''
           else ''application/jwk-set+json, application/json'')
      | ResourceKind.Cimd \<Rightarrow> ''application/json'')"

definition starts_with :: "string \<Rightarrow> string \<Rightarrow> bool" where
  "starts_with p s \<longleftrightarrow> take (length p) s = p"

definition ends_with :: "string \<Rightarrow> string \<Rightarrow> bool" where
  "ends_with p s \<longleftrightarrow> length p \<le> length s \<and> drop (length s - length p) s = p"

definition accepts_content_type ::
  "'u url_api \<Rightarrow> ResourceKind \<Rightarrow> 'u \<Rightarrow> string option \<Rightarrow> bool" where
  "accepts_content_type U kind url content_type =
     (case content_type of
        None \<Rightarrow> False
      | Some value \<Rightarrow>
          let essence = to_ascii_lowercase (str_trim (hd (split_on (CHR '';'') value))) in
          (case kind of
             ResourceKind.Jwks \<Rightarrow>
               (if is_directory_url U url
                then essence = ''application/http-message-signatures-directory+json''
                else essence \<in> {''application/jwk-set+json'', ''application/json''})
           | ResourceKind.Cimd \<Rightarrow>
               essence = ''application/json'' \<or>
               (starts_with ''application/'' essence \<and> ends_with ''+json'' essence)))"

section \<open>Requests and responses\<close>

text \<open>A header map is the list of its lower-case names and values in order.\<close>

type_synonym HeaderMap = "(string \<times> string) list"

definition hm_get_all :: "HeaderMap \<Rightarrow> string \<Rightarrow> string list" where
  "hm_get_all hs n = map snd (filter (\<lambda>(m, _). m = n) hs)"

record 'u FetchRequest =
  fr_url :: 'u
  fr_kind :: ResourceKind
  fr_headers :: HeaderMap
  fr_selected_ip :: IpAddr

record FetchResponse =
  resp_status :: nat
  resp_headers :: HeaderMap
  resp_body :: string

text \<open>
  What a client is built with: no redirects and no automatic proxy in either mode, and either the one
  address a host name is pinned to or the one explicit proxy.
\<close>

datatype route = ResolveTo string IpAddr nat | ViaProxy string

record client_config =
  cl_no_proxy :: bool
  cl_follow_redirects :: bool
  cl_timeout :: duration
  cl_route :: route

record 'u outgoing =
  out_client :: client_config
  out_url :: 'u
  out_headers :: HeaderMap

text \<open>What a server sends back: a body chunk that fails to arrive is \<open>None\<close>.\<close>

record server_response =
  sr_status :: nat
  sr_headers :: HeaderMap
  sr_content_length :: "nat option"
  sr_chunks :: "string option list"

text \<open>
  The HTTP client: building it may fail, and sending fails with a flag that says whether it timed out.
  \<open>h_to_str\<close> reads a header value as text, \<open>h_parse_http_date\<close> reads an HTTP date.
\<close>

record 'u http_api =
  h_build :: "client_config \<Rightarrow> bool"
  h_send :: "'u outgoing \<Rightarrow> (server_response, bool) res"
  h_to_str :: "string \<Rightarrow> string option"
  h_parse_http_date :: "string \<Rightarrow> duration option"

record ReqwestFetcher =
  rf_mode :: EgressMode
  rf_proxy :: "string option"
  rf_timeout :: duration

definition ReqwestFetcher_direct :: "duration \<Rightarrow> ReqwestFetcher" where
  "ReqwestFetcher_direct timeout = \<lparr>rf_mode = Direct, rf_proxy = None, rf_timeout = timeout\<rparr>"

text \<open>\<open>proxy_all\<close> is \<open>reqwest::Proxy::all\<close>.\<close>

definition ReqwestFetcher_proxy ::
  "(string \<Rightarrow> string option) \<Rightarrow> string \<Rightarrow> duration \<Rightarrow> (ReqwestFetcher, string) res" where
  "ReqwestFetcher_proxy proxy_all proxy_url timeout =
     res_bind (ok_or ''invalid HTTPS_PROXY'' (proxy_all proxy_url)) (\<lambda>proxy.
     Ok \<lparr>rf_mode = Proxy, rf_proxy = Some proxy, rf_timeout = timeout\<rparr>)"

definition ReqwestFetcher_client ::
  "'u url_api \<Rightarrow> 'u http_api \<Rightarrow> ReqwestFetcher \<Rightarrow> 'u FetchRequest \<Rightarrow> (client_config, FetchError) res" where
  "ReqwestFetcher_client U A self request =
     res_bind
       (case rf_mode self of
          Direct \<Rightarrow>
            res_bind (ok_or (FetchError_new Transport) (url_host_str U (fr_url request))) (\<lambda>host.
            res_bind (ok_or (FetchError_new Transport) (url_port_or_known_default U (fr_url request))) (\<lambda>port.
            Ok (ResolveTo host (fr_selected_ip request) port)))
        | Proxy \<Rightarrow>
            res_bind (ok_or (FetchError_new Transport) (rf_proxy self)) (\<lambda>proxy. Ok (ViaProxy proxy)))
       (\<lambda>route.
     let config = \<lparr>cl_no_proxy = True, cl_follow_redirects = False, cl_timeout = rf_timeout self,
                   cl_route = route\<rparr> in
     if h_build A config then Ok config else Err (FetchError_new Transport))"

definition MAX_RESPONSE_BYTES :: nat where "MAX_RESPONSE_BYTES = 64 * 1024"

fun read_body :: "string \<Rightarrow> string option list \<Rightarrow> (string, FetchError) res" where
  "read_body body [] = Ok body"
| "read_body body (chunk # chunks) =
     (case chunk of
        None \<Rightarrow> Err (FetchError_new Transport)
      | Some c \<Rightarrow>
          if min (length body + length c) USIZE_MAX > MAX_RESPONSE_BYTES
          then Err (FetchError_new BodyTooLarge)
          else read_body (body @ c) chunks)"

definition parse_retry_after ::
  "(string \<Rightarrow> duration option) \<Rightarrow> string \<Rightarrow> duration \<Rightarrow> duration option" where
  "parse_retry_after parse_http_date value now =
     map_option (\<lambda>delay. min delay (secs 300))
       (case parse_unsigned 64 value of
          Some n \<Rightarrow> Some (secs n)
        | None \<Rightarrow>
            (case parse_http_date value of
               Some until \<Rightarrow> if now \<le> until then Some (until - now) else None
             | None \<Rightarrow> None))"

definition header_text :: "'u http_api \<Rightarrow> HeaderMap \<Rightarrow> string \<Rightarrow> string option" where
  "header_text A headers name = Option.bind (map_of headers name) (h_to_str A)"

definition outgoing_request ::
  "'u url_api \<Rightarrow> client_config \<Rightarrow> 'u FetchRequest \<Rightarrow> 'u outgoing" where
  "outgoing_request U client request =
     \<lparr>out_client = client, out_url = fr_url request,
      out_headers = fr_headers request @
        [(''accept'', ResourceKind_accept U (fr_kind request) (fr_url request)),
         (''accept-encoding'', ''identity'')]\<rparr>"

definition fetch ::
  "'u url_api \<Rightarrow> 'u http_api \<Rightarrow> ReqwestFetcher \<Rightarrow> duration \<Rightarrow> 'u FetchRequest \<Rightarrow>
   (FetchResponse, FetchError) res" where
  "fetch U A self now request =
     res_bind (ReqwestFetcher_client U A self request) (\<lambda>client.
     res_bind (map_err (\<lambda>timeout. FetchError_new (if timeout then Timeout else Transport))
                 (h_send A (outgoing_request U client request))) (\<lambda>response.
     let status = sr_status response; headers = sr_headers response in
     if status \<notin> {200, 304} then
       Err \<lparr>err_kind = HttpStatus, err_status = Some status,
            err_retry_after = Option.bind (header_text A headers ''retry-after'')
              (\<lambda>value. parse_retry_after (h_parse_http_date A) value now)\<rparr>
     else if status = 200 \<and>
       \<not> accepts_content_type U (fr_kind request) (fr_url request) (header_text A headers ''content-type'')
     then Err (FetchError_new MediaType)
     else if (case header_text A headers ''content-encoding'' of
                Some value \<Rightarrow> \<not> eq_ignore_ascii_case value ''identity'' | None \<Rightarrow> False)
     then Err (FetchError_new ContentEncoding)
     else if (case sr_content_length response of
                Some len \<Rightarrow> len > MAX_RESPONSE_BYTES | None \<Rightarrow> False)
     then Err (FetchError_new BodyTooLarge)
     else res_bind (read_body [] (sr_chunks response)) (\<lambda>body.
       Ok \<lparr>resp_status = status, resp_headers = headers, resp_body = body\<rparr>)))"

section \<open>Facts\<close>

lemma read_body_Ok:
  "read_body b chunks = Ok body \<longleftrightarrow>
     (\<exists>cs. chunks = map Some cs \<and> body = b @ concat cs \<and>
           (cs \<noteq> [] \<longrightarrow> length body \<le> MAX_RESPONSE_BYTES))"
proof (induction chunks arbitrary: b)
  case (Cons chunk chunks)
  show ?case
  proof (cases chunk)
    case (Some c)
    have m: "MAX_RESPONSE_BYTES < USIZE_MAX"
      by (simp add: USIZE_MAX_def MAX_RESPONSE_BYTES_def)
    show ?thesis
    proof (cases "length b + length c > MAX_RESPONSE_BYTES")
      case True
      then show ?thesis by (auto simp: Some m Cons_eq_map_conv)
    next
      case False
      then show ?thesis
        by (auto simp: Some m Cons.IH Cons_eq_map_conv)
    qed
  qed auto
qed auto

lemma read_body_not_Panic [simp]: "read_body b chunks \<noteq> Panic"
  by (induction b chunks rule: read_body.induct) (auto split: option.splits)

lemma ReqwestFetcher_client_Ok:
  "ReqwestFetcher_client U A self request = Ok client \<longleftrightarrow>
     (\<exists>route. client = \<lparr>cl_no_proxy = True, cl_follow_redirects = False, cl_timeout = rf_timeout self,
                         cl_route = route\<rparr> \<and> h_build A client \<and>
        (case rf_mode self of
           Direct \<Rightarrow> \<exists>host port. url_host_str U (fr_url request) = Some host \<and>
             url_port_or_known_default U (fr_url request) = Some port \<and>
             route = ResolveTo host (fr_selected_ip request) port
         | Proxy \<Rightarrow> \<exists>proxy. rf_proxy self = Some proxy \<and> route = ViaProxy proxy))"
  by (auto simp: ReqwestFetcher_client_def res_simps Let_def split: EgressMode.splits if_splits)

section \<open>Properties\<close>

text \<open>
  C26. What a successful fetch guarantees: the request went out through a client that follows no redirect, uses
  no ambient proxy and, in direct mode, connects to the checked address and to no other; the status is
  200 or 304; a 200 has a media type of the resource's kind; the body is not compressed, is exactly what
  the server sent and has at most 64 KiB.
\<close>

theorem fetch_success:
  assumes "fetch U A self now request = Ok resp"
  obtains client response chunks where
    "h_send A (outgoing_request U client request) = Ok response"
    "\<not> cl_follow_redirects client" "cl_no_proxy client" "cl_timeout client = rf_timeout self"
    "rf_mode self = Direct \<longrightarrow>
       (\<exists>host port. url_host_str U (fr_url request) = Some host \<and>
          url_port_or_known_default U (fr_url request) = Some port \<and>
          cl_route client = ResolveTo host (fr_selected_ip request) port)"
    "resp_status resp = 200 \<or> resp_status resp = 304" "resp_status resp = sr_status response"
    "resp_status resp = 200 \<longrightarrow>
       accepts_content_type U (fr_kind request) (fr_url request) (header_text A (resp_headers resp) ''content-type'')"
    "\<forall>e. header_text A (resp_headers resp) ''content-encoding'' = Some e \<longrightarrow> eq_ignore_ascii_case e ''identity''"
    "sr_chunks response = map Some chunks" "resp_body resp = concat chunks"
    "length (resp_body resp) \<le> 65536"
proof -
  from assms obtain client response body where
    c: "ReqwestFetcher_client U A self request = Ok client"
    and r: "h_send A (outgoing_request U client request) = Ok response"
    and s: "sr_status response \<in> {200, 304}"
    and t: "sr_status response = 200 \<longrightarrow> accepts_content_type U (fr_kind request) (fr_url request)
              (header_text A (sr_headers response) ''content-type'')"
    and e: "\<forall>e. header_text A (sr_headers response) ''content-encoding'' = Some e \<longrightarrow>
              eq_ignore_ascii_case e ''identity''"
    and b: "read_body [] (sr_chunks response) = Ok body"
    and resp: "resp = \<lparr>resp_status = sr_status response, resp_headers = sr_headers response, resp_body = body\<rparr>"
    by (auto simp: fetch_def Let_def res_bind_Ok_iff map_err_iff split: if_splits option.splits)
  from b obtain cs where "sr_chunks response = map Some cs" "body = concat cs" "length body \<le> 65536"
    by (auto simp: read_body_Ok MAX_RESPONSE_BYTES_def)
  moreover from c have "client = \<lparr>cl_no_proxy = True, cl_follow_redirects = False,
      cl_timeout = rf_timeout self, cl_route = cl_route client\<rparr>"
    and "rf_mode self = Direct \<longrightarrow> (\<exists>host port. url_host_str U (fr_url request) = Some host \<and>
      url_port_or_known_default U (fr_url request) = Some port \<and>
      cl_route client = ResolveTo host (fr_selected_ip request) port)"
    by (auto simp: ReqwestFetcher_client_Ok)
  moreover from this(1) have "\<not> cl_follow_redirects client" "cl_no_proxy client"
      "cl_timeout client = rf_timeout self"
    by (metis client_config.select_convs)+
  ultimately show thesis
    using r s t e by (intro that [of client response cs]) (simp_all add: resp)
qed

definition sample_http :: "plain_url http_api" where
  "sample_http =
     \<lparr>h_build = (\<lambda>_. True),
      h_send = (\<lambda>_. Ok \<lparr>sr_status = 200, sr_headers = [(''content-type'', ''application/json'')],
                        sr_content_length = Some 2, sr_chunks = [Some ''{'', Some ''}'']\<rparr>),
      h_to_str = Some, h_parse_http_date = (\<lambda>_. None)\<rparr>"

definition sample_fetch_request :: "plain_url FetchRequest" where
  "sample_fetch_request =
     \<lparr>fr_url = \<lparr>pu_scheme = ''https'', pu_host = Some ''a.test'', pu_path = ''/keys'', pu_query = None,
                pu_fragment = None\<rparr>,
      fr_kind = ResourceKind.Jwks, fr_headers = [], fr_selected_ip = V4 (ipv4 93 184 216 34)\<rparr>"

lemma fetch_sample:
  "fetch plain_url_api sample_http (ReqwestFetcher_direct (secs 2)) 0 sample_fetch_request =
     Ok \<lparr>resp_status = 200, resp_headers = [(''content-type'', ''application/json'')], resp_body = ''{}''\<rparr>"
proof -
  have l: "to_ascii_lowercase (str_trim ''application/json'') = ''application/json''"
    by code_simp
  show ?thesis
    by (simp add: fetch_def ReqwestFetcher_client_def ReqwestFetcher_direct_def sample_http_def
        sample_fetch_request_def ok_or_def header_text_def accepts_content_type_def
        split_on_no_sep l is_directory_url_def DIRECTORY_PATH_def MAX_RESPONSE_BYTES_def USIZE_MAX_def)
qed

theorem fetch_success_witness:
  "\<exists>client :: client_config. cl_route client = ResolveTo ''a.test'' (V4 (ipv4 93 184 216 34)) 443 \<and> \<not> cl_follow_redirects client"
proof (rule fetch_success [OF fetch_sample])
  fix client :: client_config
  assume "\<not> cl_follow_redirects client"
    and "rf_mode (ReqwestFetcher_direct (secs 2)) = Direct \<longrightarrow>
       (\<exists>host port. url_host_str plain_url_api (fr_url sample_fetch_request) = Some host \<and>
          url_port_or_known_default plain_url_api (fr_url sample_fetch_request) = Some port \<and>
          cl_route client = ResolveTo host (fr_selected_ip sample_fetch_request) port)"
  then have "cl_route client = ResolveTo ''a.test'' (V4 (ipv4 93 184 216 34)) 443 \<and> \<not> cl_follow_redirects client"
    by (simp add: ReqwestFetcher_direct_def sample_fetch_request_def)
  then show ?thesis by (rule exI [of _ client])
qed

text \<open>
  Which failures may be papered over with a stale representation: lookup, timeout and transport failures,
  an open circuit, and HTTP statuses 408, 425, 429 and 5xx. Failures of a check never are: an unsafe
  address, a refused media type, a body that is too large, compressed or not a valid resource, another
  HTTP status, a bad request, or a limit of the resolver itself.
\<close>

lemma allows_stale_iff:
  "allows_stale e \<longleftrightarrow>
     err_kind e \<in> {Dns, Timeout, Transport, FetchErrorKind.CircuitOpen} \<or>
     err_kind e = HttpStatus \<and>
       (\<exists>s. err_status e = Some s \<and> (s \<in> {408, 425, 429} \<or> 500 \<le> s \<and> s \<le> 599))"
  by (auto simp: allows_stale_def FetchError_class_def is_server_error_def
      split: FetchErrorKind.splits option.splits)

text \<open>
  A server's \<open>Retry-After\<close> asks for at most five minutes: a number of seconds or a date that is not in the
  past gives the delay it names, capped at 300 seconds; everything else gives none.
\<close>

lemma retry_after_capped:
  "parse_retry_after D value now =
     (case parse_unsigned 64 value of
        Some n \<Rightarrow> Some (min (secs n) (secs 300))
      | None \<Rightarrow> (case D value of
                   Some until \<Rightarrow> if now \<le> until then Some (min (until - now) (secs 300)) else None
                 | None \<Rightarrow> None))"
  by (simp add: parse_retry_after_def split: option.splits)

end
