(* ===== verification/Controls.thy ===== *)
theory Controls
  imports Fetch
begin

text \<open>
  The resolver's limits, rate limiters, origin admission and circuit breakers,
  \<open>crates/resolver/src/controls.rs\<close>. Locks are held for the whole of an operation, so each operation is one
  step on the shared state; clock readings are arguments. The rate limiter of the \<open>governor\<close> crate is a
  parameter: a state with a check that may fail. The \<open>moka\<close> caches are maps that may lose entries at any
  time (\<open>evict\<close> steps).
\<close>

section \<open>Limits\<close>

definition MIN_FAILURE_BACKOFF :: duration where "MIN_FAILURE_BACKOFF = secs 5"
definition MAX_FAILURE_BACKOFF :: duration where "MAX_FAILURE_BACKOFF = secs (5 * 60)"
definition COALESCED_FAILURE_TTL :: duration where "COALESCED_FAILURE_TTL = millis 50"
definition RESOLUTION_DEADLINE :: duration where "RESOLUTION_DEADLINE = millis 1800"

record Limits =
  inbound_body_bytes :: nat
  active_handlers :: nat
  outbound_fetches :: nat
  global_fetch_rate :: nat
  global_fetch_burst :: nat
  origin_fetch_rate :: nat
  origin_fetch_burst :: nat
  ip_fetch_rate :: nat
  ip_fetch_burst :: nat
  new_origins_per_minute :: nat
  state_entries :: nat
  lim_max_keys :: nat
  resolution_timeout :: duration

definition Limits_default :: Limits where
  "Limits_default =
     \<lparr>inbound_body_bytes = 8 * 1024, active_handlers = 64, outbound_fetches = 32,
      global_fetch_rate = 16, global_fetch_burst = 32, origin_fetch_rate = 2, origin_fetch_burst = 4,
      ip_fetch_rate = 8, ip_fetch_burst = 16, new_origins_per_minute = 256, state_entries = 1024,
      lim_max_keys = 32, resolution_timeout = RESOLUTION_DEADLINE\<rparr>"

definition between :: "nat \<Rightarrow> nat \<Rightarrow> nat \<Rightarrow> bool" where
  "between lo hi n \<longleftrightarrow> lo \<le> n \<and> n \<le> hi"

text \<open>The loop over the three rate and burst pairs, returning at the first one that is out of range.\<close>

fun check_rates :: "(string \<times> nat \<times> nat) list \<Rightarrow> (unit, string) res" where
  "check_rates [] = Ok ()"
| "check_rates ((name, rate, burst) # rest) =
     (if \<not> between 1 1000000 rate \<or> \<not> between 1 1000000 burst \<or> burst < rate then
        Err (if name = ''global_fetch''
             then ''global fetch rate and burst must be between 1 and 1000000, with burst at least rate''
             else if name = ''origin_fetch''
             then ''origin fetch rate and burst must be between 1 and 1000000, with burst at least rate''
             else ''ip fetch rate and burst must be between 1 and 1000000, with burst at least rate'')
      else check_rates rest)"

definition Limits_validate :: "Limits \<Rightarrow> (unit, string) res" where
  "Limits_validate l =
     (if \<not> between 1 65536 (inbound_body_bytes l)
      then Err ''inbound_body_bytes must be between 1 and 65536''
      else if \<not> between 1 4096 (active_handlers l)
      then Err ''active_handlers must be between 1 and 4096''
      else if \<not> between 1 1024 (outbound_fetches l)
      then Err ''outbound_fetches must be between 1 and 1024''
      else res_bind (check_rates
        [(''global_fetch'', global_fetch_rate l, global_fetch_burst l),
         (''origin_fetch'', origin_fetch_rate l, origin_fetch_burst l),
         (''ip_fetch'', ip_fetch_rate l, ip_fetch_burst l)]) (\<lambda>_.
      if \<not> between 1 100000 (new_origins_per_minute l)
      then Err ''new_origins_per_minute must be between 1 and 100000''
      else if \<not> between 1 100000 (state_entries l)
      then Err ''state_entries must be between 1 and 100000''
      else if new_origins_per_minute l > state_entries l
      then Err ''new_origins_per_minute must not exceed state_entries''
      else if \<not> between 1 1024 (lim_max_keys l) then Err ''max_keys must be between 1 and 1024''
      else if resolution_timeout l = 0 \<or> resolution_timeout l > RESOLUTION_DEADLINE
      then Err ''resolution_timeout must be between 1 and 1800 milliseconds''
      else Ok ()))"

section \<open>Circuit breakers\<close>

definition u32_saturating_add :: "u32 \<Rightarrow> u32 \<Rightarrow> u32" where
  "u32_saturating_add a b = (if unat a + unat b < 2 ^ 32 then a + b else - 1)"

definition u32_saturating_sub :: "u32 \<Rightarrow> u32 \<Rightarrow> u32" where
  "u32_saturating_sub a b = (if unat b \<le> unat a then a - b else 0)"

definition DURATION_MAX :: duration where "DURATION_MAX = secs (2 ^ 64 - 1) + 999999999"

definition duration_saturating_mul :: "duration \<Rightarrow> u32 \<Rightarrow> duration" where
  "duration_saturating_mul d n = min (d * unat n) DURATION_MAX"

record CircuitState =
  consecutive_failures :: u32
  open_count :: u32
  open_until :: "nat option"

definition CircuitState_default :: CircuitState where
  "CircuitState_default = \<lparr>consecutive_failures = 0, open_count = 0, open_until = None\<rparr>"

datatype CircuitTransition = Opened | Closed

fun CircuitTransition_reason :: "CircuitTransition \<Rightarrow> string" where
  "CircuitTransition_reason Opened = ''opened''"
| "CircuitTransition_reason Closed = ''closed''"

text \<open>The operations on one circuit, under its lock.\<close>

definition circuit_check :: "nat \<Rightarrow> CircuitState \<Rightarrow> (unit, FetchError) res" where
  "circuit_check now c =
     (case open_until c of
        Some until \<Rightarrow> if until > now then Err (FetchError_new FetchErrorKind.CircuitOpen) else Ok ()
      | None \<Rightarrow> Ok ())"

definition circuit_success :: "CircuitState \<Rightarrow> CircuitTransition option \<times> CircuitState" where
  "circuit_success c =
     (if consecutive_failures c > 0 \<or> open_until c \<noteq> None then Some Closed else None,
      CircuitState_default)"

definition circuit_failure ::
  "duration option \<Rightarrow> nat \<Rightarrow> CircuitState \<Rightarrow> (duration \<times> CircuitTransition option) \<times> CircuitState" where
  "circuit_failure retry_after now c =
     (let c = c\<lparr>consecutive_failures := u32_saturating_add (consecutive_failures c) 1\<rparr>;
          exponent = min (u32_saturating_sub (consecutive_failures c) 1) 6;
          backoff = max (min (duration_saturating_mul MIN_FAILURE_BACKOFF (push_bit (unat exponent) 1))
                             MAX_FAILURE_BACKOFF)
                        (min (case retry_after of Some d \<Rightarrow> d | None \<Rightarrow> 0) MAX_FAILURE_BACKOFF)
      in if consecutive_failures c \<ge> 3 then
           let open_exponent = min (open_count c) 4;
               open_for = min (duration_saturating_mul (secs 30) (push_bit (unat open_exponent) 1))
                              MAX_FAILURE_BACKOFF
           in ((backoff, Some Opened),
               c\<lparr>open_count := u32_saturating_add (open_count c) 1, open_until := Some (now + open_for)\<rparr>)
         else ((backoff, None), c))"

definition circuit_time_left :: "nat \<Rightarrow> CircuitState \<Rightarrow> duration" where
  "circuit_time_left now c =
     (case open_until c of
        Some until \<Rightarrow> if now \<le> until then until - now else COALESCED_FAILURE_TTL
      | None \<Rightarrow> COALESCED_FAILURE_TTL)"

section \<open>Shared state\<close>

record 'l limiter_api =
  limiter_direct :: "nat \<Rightarrow> nat \<Rightarrow> 'l"
  limiter_check :: "nat \<Rightarrow> 'l \<Rightarrow> bool \<times> 'l"

text \<open>\<open>NonZeroU32::new(..).expect(..)\<close> panics on zero.\<close>

definition limiter :: "'l limiter_api \<Rightarrow> nat \<Rightarrow> nat \<Rightarrow> ('l, FetchError) res" where
  "limiter L rate burst = (if rate = 0 \<or> burst = 0 then Panic else Ok (limiter_direct L rate burst))"

record ('l, 'k) WorkControls =
  outbound :: nat
  global :: 'l
  origins :: "string \<rightharpoonup> 'l"
  ips :: "IpAddr \<rightharpoonup> 'l"
  new_origins :: "(string \<times> nat) list"
  circuits :: "'k \<rightharpoonup> CircuitState"
  wc_limits :: Limits

definition WorkControls_new :: "'l limiter_api \<Rightarrow> Limits \<Rightarrow> (('l, 'k) WorkControls, FetchError) res" where
  "WorkControls_new L limits =
     res_bind (limiter L (global_fetch_rate limits) (global_fetch_burst limits)) (\<lambda>g.
     Ok \<lparr>outbound = outbound_fetches limits, global = g, origins = Map.empty, ips = Map.empty,
         new_origins = [], circuits = Map.empty, wc_limits = limits\<rparr>)"

text \<open>\<open>circuit\<close>: the circuit of a key, created when it is not there.\<close>

definition circuit :: "'k \<Rightarrow> ('l, 'k) WorkControls \<Rightarrow> CircuitState \<times> ('l, 'k) WorkControls" where
  "circuit key w =
     (case circuits w key of
        Some c \<Rightarrow> (c, w)
      | None \<Rightarrow> (CircuitState_default, w\<lparr>circuits := (circuits w)(key \<mapsto> CircuitState_default)\<rparr>))"

definition check_circuit ::
  "nat \<Rightarrow> 'k \<Rightarrow> ('l, 'k) WorkControls \<Rightarrow> (unit, FetchError) res \<times> ('l, 'k) WorkControls" where
  "check_circuit now key w = (let (c, w) = circuit key w in (circuit_check now c, w))"

definition success ::
  "'k \<Rightarrow> ('l, 'k) WorkControls \<Rightarrow> CircuitTransition option \<times> ('l, 'k) WorkControls" where
  "success key w =
     (let (c, w) = circuit key w; (transition, c) = circuit_success c
      in (transition, w\<lparr>circuits := (circuits w)(key \<mapsto> c)\<rparr>))"

definition failure_backoff ::
  "nat \<Rightarrow> 'k \<Rightarrow> duration option \<Rightarrow> ('l, 'k) WorkControls \<Rightarrow>
   (duration \<times> CircuitTransition option) \<times> ('l, 'k) WorkControls" where
  "failure_backoff now key retry_after w =
     (let (c, w) = circuit key w; (result, c) = circuit_failure retry_after now c
      in (result, w\<lparr>circuits := (circuits w)(key \<mapsto> c)\<rparr>))"

definition circuit_remaining ::
  "nat \<Rightarrow> 'k \<Rightarrow> ('l, 'k) WorkControls \<Rightarrow> duration \<times> ('l, 'k) WorkControls" where
  "circuit_remaining now key w = (let (c, w) = circuit key w in (circuit_time_left now c, w))"

text \<open>Dropping an owned permit gives it back.\<close>

definition release_permit :: "('l, 'k) WorkControls \<Rightarrow> ('l, 'k) WorkControls" where
  "release_permit w = w\<lparr>outbound := outbound w + 1\<rparr>"

text \<open>
  Admission of an origin that has no limiter yet: forget the ones seen a minute ago or earlier, then
  admit it if it is known or there is room.
\<close>

definition admit_origin ::
  "nat \<Rightarrow> string \<Rightarrow> ('l, 'k) WorkControls \<Rightarrow> bool \<times> ('l, 'k) WorkControls" where
  "admit_origin now origin w =
     (let seen = filter (\<lambda>(_, t). now - t < secs 60) (new_origins w);
          w = w\<lparr>new_origins := seen\<rparr>
      in if map_of seen origin = None \<and>
            (length seen \<ge> new_origins_per_minute (wc_limits w) \<or> length seen \<ge> state_entries (wc_limits w))
         then (False, w)
         else (True, w\<lparr>new_origins := AList.update origin now seen\<rparr>))"

text \<open>The limiter of an origin, created when it is not there, and its check.\<close>

definition check_origin_limiter ::
  "'l limiter_api \<Rightarrow> nat \<Rightarrow> string \<Rightarrow> ('l, 'k) WorkControls \<Rightarrow>
   (unit, FetchError) res \<times> ('l, 'k) WorkControls" where
  "check_origin_limiter L now origin w =
     (case (case origins w origin of
              Some l \<Rightarrow> Ok l
            | None \<Rightarrow> limiter L (origin_fetch_rate (wc_limits w)) (origin_fetch_burst (wc_limits w))) of
        Ok l \<Rightarrow>
          let (ok, l) = limiter_check L now l; w = w\<lparr>origins := (origins w)(origin \<mapsto> l)\<rparr>
          in (if ok then Ok () else Err (FetchError_new RateLimited), w)
      | Err e \<Rightarrow> (Err e, w)
      | Panic \<Rightarrow> (Panic, w))"

text \<open>
  \<open>begin_fetch\<close>: a permit first, then the global limiter, the admission of a new origin and the origin's
  limiter; every error drops the permit again. On success the caller holds it.
\<close>

definition begin_fetch ::
  "'l limiter_api \<Rightarrow> nat \<Rightarrow> string \<Rightarrow> ('l, 'k) WorkControls \<Rightarrow>
   (unit, FetchError) res \<times> ('l, 'k) WorkControls" where
  "begin_fetch L now origin w =
     (if outbound w = 0 then (Err (FetchError_new Overloaded), w)
      else
        let w = w\<lparr>outbound := outbound w - 1\<rparr>;
            (ok, g) = limiter_check L now (global w);
            w = w\<lparr>global := g\<rparr>
        in if \<not> ok then (Err (FetchError_new RateLimited), release_permit w)
           else
             let (admitted, w) = (if origins w origin = None then admit_origin now origin w else (True, w))
             in if \<not> admitted then (Err (FetchError_new RateLimited), release_permit w)
                else let (r, w) = check_origin_limiter L now origin w
                     in (r, if r = Ok () then w else release_permit w))"

definition check_ip ::
  "'l limiter_api \<Rightarrow> nat \<Rightarrow> IpAddr \<Rightarrow> ('l, 'k) WorkControls \<Rightarrow>
   (unit, FetchError) res \<times> ('l, 'k) WorkControls" where
  "check_ip L now ip w =
     (case (case ips w ip of
              Some l \<Rightarrow> Ok l
            | None \<Rightarrow> limiter L (ip_fetch_rate (wc_limits w)) (ip_fetch_burst (wc_limits w))) of
        Ok l \<Rightarrow>
          let (ok, l) = limiter_check L now l; w = w\<lparr>ips := (ips w)(ip \<mapsto> l)\<rparr>
          in (if ok then Ok () else Err (FetchError_new RateLimited), w)
      | Err e \<Rightarrow> (Err e, w)
      | Panic \<Rightarrow> (Panic, w))"

section \<open>Facts\<close>

lemma secs_mono [simp]: "secs a \<le> secs b \<longleftrightarrow> a \<le> b"
  by (simp add: secs_def)

lemma secs_simps [simp]:
  "secs a = secs b \<longleftrightarrow> a = b" "min (secs a) (secs b) = secs (min a b)" "max (secs a) (secs b) = secs (max a b)"
  by (simp_all add: secs_def min_def max_def)

lemma check_rates_Ok:
  "check_rates rs = Ok () \<longleftrightarrow>
     list_all (\<lambda>(_, rate, burst). 1 \<le> rate \<and> rate \<le> burst \<and> burst \<le> 1000000) rs"
  by (induction rs rule: check_rates.induct) (auto simp: between_def)

lemma check_rates_not_Panic [simp]: "check_rates rs \<noteq> Panic"
  by (induction rs rule: check_rates.induct) auto

lemma Limits_validate_Ok:
  "Limits_validate l = Ok () \<longleftrightarrow>
     between 1 65536 (inbound_body_bytes l) \<and> between 1 4096 (active_handlers l) \<and>
     between 1 1024 (outbound_fetches l) \<and>
     1 \<le> global_fetch_rate l \<and> global_fetch_rate l \<le> global_fetch_burst l \<and> global_fetch_burst l \<le> 1000000 \<and>
     1 \<le> origin_fetch_rate l \<and> origin_fetch_rate l \<le> origin_fetch_burst l \<and> origin_fetch_burst l \<le> 1000000 \<and>
     1 \<le> ip_fetch_rate l \<and> ip_fetch_rate l \<le> ip_fetch_burst l \<and> ip_fetch_burst l \<le> 1000000 \<and>
     1 \<le> new_origins_per_minute l \<and> new_origins_per_minute l \<le> state_entries l \<and> state_entries l \<le> 100000 \<and>
     between 1 1024 (lim_max_keys l) \<and>
     0 < resolution_timeout l \<and> resolution_timeout l \<le> millis 1800"
proof -
  have i: "(if b then Err e else x) = Ok y \<longleftrightarrow> \<not> b \<and> x = Ok y" for b e and x :: "('x, 'y) res" and y
    by simp
  show ?thesis
    unfolding Limits_validate_def RESOLUTION_DEADLINE_def i res_bind_Ok_iff
    by (simp add: i check_rates_Ok between_def) linarith
qed

lemma unat_u32_saturating_add: "unat (u32_saturating_add a b) = min (unat a + unat b) (2 ^ 32 - 1)"
proof (cases "unat a + unat b < 2 ^ 32")
  case True
  then show ?thesis using unat_add_lem [of a b] by (simp add: u32_saturating_add_def)
qed (simp add: u32_saturating_add_def unsigned_minus_1_eq_mask mask_eq_exp_minus_1)

lemma unat_u32_saturating_sub: "unat (u32_saturating_sub a b) = unat a - unat b"
  by (auto simp: u32_saturating_sub_def unat_sub word_le_nat_alt)

lemma unat_min_u32: "unat (min a b :: u32) = min (unat a) (unat b)"
  by (simp add: min_def word_le_nat_alt)

lemma unat_push_bit_one: "k \<le> 6 \<Longrightarrow> unat (push_bit k (1 :: u32)) = 2 ^ k"
proof -
  assume "k \<le> 6"
  then have "k \<in> {0, 1, 2, 3, 4, 5, 6}" by auto
  then show ?thesis by auto
qed

text \<open>Seconds of backoff after the given number of failures, and seconds a circuit stays open.\<close>

definition backoff_secs :: "nat \<Rightarrow> nat" where
  "backoff_secs n = min (5 * 2 ^ min (n - 1) 6) 300"

definition open_secs :: "nat \<Rightarrow> nat" where
  "open_secs opened = min (30 * 2 ^ min opened 4) 300"

lemma duration_mul_pow:
  assumes "k \<le> 6" and "s \<le> 30"
  shows "min (duration_saturating_mul (secs s) (push_bit k 1)) MAX_FAILURE_BACKOFF = secs (min (s * 2 ^ k) 300)"
proof -
  have "secs s * 2 ^ k = secs (s * 2 ^ k)" by (simp add: secs_def)
  moreover have "secs 300 \<le> DURATION_MAX" by (simp add: DURATION_MAX_def secs_def)
  ultimately show ?thesis
    unfolding duration_saturating_mul_def unat_push_bit_one [OF assms(1)] MAX_FAILURE_BACKOFF_def
    by (simp add: min.assoc)
qed

lemma circuit_failure_eq:
  defines "n c \<equiv> min (unat (consecutive_failures c) + 1) (2 ^ 32 - 1)"
  shows "circuit_failure retry_after now c =
    ((max (secs (backoff_secs (unat (consecutive_failures c) + 1)))
          (min (case retry_after of Some d \<Rightarrow> d | None \<Rightarrow> 0) (secs 300)),
      if n c \<ge> 3 then Some Opened else None),
     if n c \<ge> 3
     then c\<lparr>consecutive_failures := u32_saturating_add (consecutive_failures c) 1,
            open_count := u32_saturating_add (open_count c) 1,
            open_until := Some (now + secs (open_secs (unat (open_count c))))\<rparr>
     else c\<lparr>consecutive_failures := u32_saturating_add (consecutive_failures c) 1\<rparr>)"
proof -
  let ?c = "u32_saturating_add (consecutive_failures c) 1"
  have u: "unat ?c = n c" by (simp add: unat_u32_saturating_add n_def)
  have e: "unat (min (u32_saturating_sub ?c 1) 6) = min (unat (consecutive_failures c)) 6"
    unfolding unat_min_u32 unat_u32_saturating_sub u n_def by simp
  have o: "unat (min (open_count c) 4) = min (unat (open_count c)) 4"
    unfolding unat_min_u32 by simp
  have t: "?c \<ge> 3 \<longleftrightarrow> n c \<ge> 3" by (simp add: word_le_nat_alt u)
  have b: "min (duration_saturating_mul MIN_FAILURE_BACKOFF (push_bit (min (unat (consecutive_failures c)) 6) 1))
      MAX_FAILURE_BACKOFF = secs (backoff_secs (unat (consecutive_failures c) + 1))"
    using duration_mul_pow [of "min (unat (consecutive_failures c)) 6" 5]
    by (simp add: backoff_secs_def MIN_FAILURE_BACKOFF_def)
  have p: "min (duration_saturating_mul (secs 30) (push_bit (min (unat (open_count c)) 4) 1))
      MAX_FAILURE_BACKOFF = secs (open_secs (unat (open_count c)))"
    using duration_mul_pow [of "min (unat (open_count c)) 4" 30] by (simp add: open_secs_def)
  have m: "MAX_FAILURE_BACKOFF = secs 300" by (simp add: MAX_FAILURE_BACKOFF_def)
  show ?thesis
    unfolding circuit_failure_def Let_def
    by (simp add: e o t b p del: push_bit_of_1) (simp add: m)
qed

section \<open>Runs of failures\<close>

definition run_failures :: "(duration option \<times> nat) list \<Rightarrow> CircuitState \<Rightarrow> CircuitState" where
  "run_failures fs c = fold (\<lambda>(retry_after, now) c. snd (circuit_failure retry_after now c)) fs c"

text \<open>The state of a circuit after \<open>n\<close> failures in a row, the last at time \<open>t\<close>, counting without bound.\<close>

definition after_failures :: "nat \<Rightarrow> nat \<Rightarrow> CircuitState \<Rightarrow> bool" where
  "after_failures n t c \<longleftrightarrow>
     unat (consecutive_failures c) = n \<and> unat (open_count c) = n - 2 \<and>
     open_until c = (if n \<ge> 3 then Some (t + secs (open_secs (n - 3))) else None)"

lemma circuit_failure_after:
  assumes "after_failures n t c" and "n + 1 < 2 ^ 32"
  shows "after_failures (n + 1) now (snd (circuit_failure retry_after now c))"
proof -
  have "min (unat (consecutive_failures c) + 1) (2 ^ 32 - 1) = n + 1"
    using assms by (simp add: after_failures_def)
  moreover have "unat (u32_saturating_add (consecutive_failures c) 1) = n + 1"
    "unat (u32_saturating_add (open_count c) 1) = n - 2 + 1"
    using assms by (simp_all add: unat_u32_saturating_add after_failures_def)
  ultimately show ?thesis
    using assms(1) unfolding circuit_failure_eq by (auto simp: after_failures_def)
qed

lemma run_failures_after:
  assumes "length fs < 2 ^ 32" and "fs \<noteq> []"
  shows "after_failures (length fs) (snd (last fs)) (run_failures fs CircuitState_default)"
  using assms
proof (induction fs rule: rev_induct)
  case (snoc f fs)
  obtain retry now where f: "f = (retry, now)" by (cases f)
  have "\<exists>t. after_failures (length fs) t (run_failures fs CircuitState_default)"
  proof (cases "fs = []")
    case True
    then show ?thesis by (simp add: run_failures_def after_failures_def CircuitState_default_def)
  next
    case False
    with snoc show ?thesis by auto
  qed
  with snoc.prems circuit_failure_after [of "length fs"] show ?case
    by (auto simp: run_failures_def f)
qed simp

section \<open>The controls as a machine\<close>

text \<open>
  The machine adds to the shared state what its users hold: the permits in use, the last clock reading
  and, as history, every admission of a new origin ever recorded.
\<close>

record ('l, 'k) ctl =
  ctl_w :: "('l, 'k) WorkControls"
  ctl_held :: nat
  ctl_clock :: nat
  ctl_admitted :: "(string \<times> nat) set"

inductive ctl_init :: "'l limiter_api \<Rightarrow> Limits \<Rightarrow> ('l, 'k) ctl \<Rightarrow> bool" for L limits where
  "WorkControls_new L limits = Ok w \<Longrightarrow>
   ctl_init L limits \<lparr>ctl_w = w, ctl_held = 0, ctl_clock = t, ctl_admitted = {}\<rparr>"

inductive ctl_step :: "'l limiter_api \<Rightarrow> ('l, 'k) ctl \<Rightarrow> ('l, 'k) ctl \<Rightarrow> bool" for L where
  step_begin: "ctl_clock s \<le> now \<Longrightarrow> begin_fetch L now origin (ctl_w s) = (r, w) \<Longrightarrow>
     ctl_step L s \<lparr>ctl_w = w, ctl_held = ctl_held s + (if r = Ok () then 1 else 0), ctl_clock = now,
                  ctl_admitted = ctl_admitted s \<union> set (new_origins w)\<rparr>"
| step_release: "0 < ctl_held s \<Longrightarrow>
     ctl_step L s (s\<lparr>ctl_w := release_permit (ctl_w s), ctl_held := ctl_held s - 1\<rparr>)"
| step_ip: "check_ip L now ip (ctl_w s) = (r, w) \<Longrightarrow> ctl_step L s (s\<lparr>ctl_w := w\<rparr>)"
| step_check: "check_circuit now key (ctl_w s) = (r, w) \<Longrightarrow> ctl_step L s (s\<lparr>ctl_w := w\<rparr>)"
| step_success: "success key (ctl_w s) = (r, w) \<Longrightarrow> ctl_step L s (s\<lparr>ctl_w := w\<rparr>)"
| step_failure: "failure_backoff now key retry (ctl_w s) = (r, w) \<Longrightarrow> ctl_step L s (s\<lparr>ctl_w := w\<rparr>)"
| step_remaining: "circuit_remaining now key (ctl_w s) = (r, w) \<Longrightarrow> ctl_step L s (s\<lparr>ctl_w := w\<rparr>)"
| step_evict: "ctl_step L s (s\<lparr>ctl_w := (ctl_w s)
     \<lparr>origins := origins (ctl_w s) |` A, ips := ips (ctl_w s) |` B, circuits := circuits (ctl_w s) |` D\<rparr>\<rparr>)"

text \<open>The origins admitted as new in the minute that ends at \<open>t\<close>.\<close>

definition admitted_in_minute :: "(string \<times> nat) set \<Rightarrow> nat \<Rightarrow> string set" where
  "admitted_in_minute hist t = {org. \<exists>s. (org, s) \<in> hist \<and> s \<le> t \<and> t - s < secs 60}"

definition ctl_inv :: "Limits \<Rightarrow> ('l, 'k) ctl \<Rightarrow> bool" where
  "ctl_inv limits s \<longleftrightarrow>
     wc_limits (ctl_w s) = limits \<and>
     outbound (ctl_w s) + ctl_held s = outbound_fetches limits \<and>
     distinct (map fst (new_origins (ctl_w s))) \<and>
     length (new_origins (ctl_w s)) \<le> min (new_origins_per_minute limits) (state_entries limits) \<and>
     set (new_origins (ctl_w s)) \<subseteq> ctl_admitted s \<and>
     (\<forall>(org, t) \<in> ctl_admitted s. t \<le> ctl_clock s) \<and>
     (\<forall>(org, t) \<in> ctl_admitted s. ctl_clock s - t < secs 60 \<longrightarrow>
        (\<exists>t' \<ge> t. (org, t') \<in> set (new_origins (ctl_w s)))) \<and>
     (\<forall>t. card (admitted_in_minute (ctl_admitted s) t) \<le> new_origins_per_minute limits)"

text \<open>What each operation leaves alone.\<close>

definition same_admission :: "('l, 'k) WorkControls \<Rightarrow> ('l, 'k) WorkControls \<Rightarrow> bool" where
  "same_admission w w' \<longleftrightarrow>
     outbound w' = outbound w \<and> new_origins w' = new_origins w \<and> wc_limits w' = wc_limits w"

lemma same_admission_ops:
  "check_ip L now ip w = (r, w') \<Longrightarrow> same_admission w w'"
  "check_origin_limiter L now origin w = (r', w') \<Longrightarrow> same_admission w w'"
  "check_circuit now key w = (r1, w') \<Longrightarrow> same_admission w w'"
  "success key w = (r2, w') \<Longrightarrow> same_admission w w'"
  "failure_backoff now key retry w = (r3, w') \<Longrightarrow> same_admission w w'"
  "circuit_remaining now key w = (r4, w') \<Longrightarrow> same_admission w w'"
  by (auto simp: same_admission_def check_ip_def check_origin_limiter_def check_circuit_def success_def
      failure_backoff_def circuit_remaining_def circuit_def
      split: option.splits res.splits prod.splits)

lemmas same_admission_snd = same_admission_ops [OF surjective_pairing]

lemma wc_limits_ops [simp]:
  "wc_limits (snd (check_ip L now ip w)) = wc_limits w"
  "wc_limits (snd (check_circuit now key w)) = wc_limits w"
  using same_admission_snd(1) [where L = L and now = now and ip = ip and w = w]
    same_admission_snd(3) [where now = now and key = key and w = w]
  by (simp_all add: same_admission_def)

lemma ctl_inv_same_admission:
  "ctl_inv limits s \<Longrightarrow> same_admission (ctl_w s) w \<Longrightarrow> ctl_inv limits (s\<lparr>ctl_w := w\<rparr>)"
  by (simp add: ctl_inv_def same_admission_def)

lemma admit_origin_effect:
  fixes w :: "('l, 'k) WorkControls"
  shows "wc_limits (snd (admit_origin now origin w)) = wc_limits w"
    and "outbound (snd (admit_origin now origin w)) = outbound w"
  by (simp_all add: admit_origin_def Let_def)

lemma admit_origin_cong:
  "new_origins w1 = new_origins w2 \<Longrightarrow> wc_limits w1 = wc_limits w2 \<Longrightarrow>
   new_origins (snd (admit_origin now origin w1)) = new_origins (snd (admit_origin now origin w2))"
  by (simp add: admit_origin_def Let_def)

lemma begin_fetch_effect:
  fixes w w' :: "('l, 'k) WorkControls"
  assumes "begin_fetch L now origin w = (r, w')"
  shows "wc_limits w' = wc_limits w"
    and "outbound w' + (if r = Ok () then 1 else 0) = outbound w"
    and "new_origins w' = new_origins w \<or> new_origins w' = new_origins (snd (admit_origin now origin w))"
proof -
  have "wc_limits w' = wc_limits w \<and> outbound w' + (if r = Ok () then 1 else 0) = outbound w \<and>
    (new_origins w' = new_origins w \<or> new_origins w' = new_origins (snd (admit_origin now origin w)))"
  proof (cases "outbound w = 0")
    case True
    with assms show ?thesis by (auto simp: begin_fetch_def)
  next
    case False
    obtain ok g where g: "limiter_check L now (global w) = (ok, g)" by fastforce
    define w1 where "w1 = w\<lparr>outbound := outbound w - 1, global := g\<rparr>"
    obtain adm w2 where w2: "(if origins w1 origin = None then admit_origin now origin w1 else (True, w1)) = (adm, w2)"
      by fastforce
    have e2: "wc_limits w2 = wc_limits w" "Suc (outbound w2) = outbound w"
      "new_origins w2 = new_origins w \<or> new_origins w2 = new_origins (snd (admit_origin now origin w))"
      using w2 False admit_origin_effect [of now origin w1] admit_origin_cong [of w1 w now origin]
      by (auto simp: w1_def split: if_splits)
    obtain r3 w3 where w3: "check_origin_limiter L now origin w2 = (r3, w3)" by fastforce
    note e3 = same_admission_ops(2) [OF w3, unfolded same_admission_def]
    have un: "begin_fetch L now origin w =
        (if \<not> ok then (Err (FetchError_new RateLimited), release_permit w1)
         else if \<not> adm then (Err (FetchError_new RateLimited), release_permit w2)
         else (r3, if r3 = Ok () then w3 else release_permit w3))"
      using False g w2 w3 by (auto simp: begin_fetch_def w1_def Let_def split: if_splits)
    consider "\<not> ok" | "ok" "\<not> adm" | "ok" "adm" "r3 = Ok ()" | "ok" "adm" "r3 \<noteq> Ok ()" by blast
    then show ?thesis
    proof cases
      case 1
      with assms un False show ?thesis by (auto simp: release_permit_def w1_def)
    next
      case 2
      with assms un e2 show ?thesis by (auto simp: release_permit_def)
    next
      case 3
      with assms un have "r = Ok ()" "w' = w3" by simp_all
      with e2 e3 show ?thesis by simp
    next
      case 4
      then have "begin_fetch L now origin w = (r3, release_permit w3)"
        using un by simp
      with assms 4 have "r \<noteq> Ok ()" "w' = release_permit w3" by simp_all
      with e2 e3 show ?thesis by (simp add: release_permit_def)
    qed
  qed
  then show "wc_limits w' = wc_limits w"
    and "outbound w' + (if r = Ok () then 1 else 0) = outbound w"
    and "new_origins w' = new_origins w \<or> new_origins w' = new_origins (snd (admit_origin now origin w))"
    by blast+
qed

text \<open>One admission: the retained entries, and possibly the origin at the current time.\<close>

lemma admit_origin_cases:
  fixes w :: "('l, 'k) WorkControls" and now :: nat
  defines "seen \<equiv> filter (\<lambda>(_, t). now - t < secs 60) (new_origins w)"
  obtains (refused) "new_origins (snd (admit_origin now origin w)) = seen"
    | (admitted) "new_origins (snd (admit_origin now origin w)) = AList.update origin now seen"
      and "origin \<in> fst ` set seen \<or>
           length seen < new_origins_per_minute (wc_limits w) \<and> length seen < state_entries (wc_limits w)"
proof (cases "map_of seen origin = None \<and>
    (length seen \<ge> new_origins_per_minute (wc_limits w) \<or> length seen \<ge> state_entries (wc_limits w))")
  case True
  then show thesis by (intro refused) (simp add: admit_origin_def Let_def seen_def)
next
  case False
  then show thesis
    by (intro admitted) (auto simp: admit_origin_def Let_def seen_def map_of_eq_None_iff)
qed

lemma AList_update_facts:
  assumes "distinct (map fst al)"
  shows "distinct (map fst (AList.update k v al))"
    and "length (AList.update k v al) = (if k \<in> fst ` set al then length al else Suc (length al))"
    and "set (AList.update k v al) = {(k, v)} \<union> {(j, x) \<in> set al. j \<noteq> k}"
proof -
  show "distinct (map fst (AList.update k v al))"
    using assms by (rule distinct_update)
  have "length (map fst (AList.update k v al)) = (if k \<in> fst ` set al then length al else Suc (length al))"
    by (simp add: update_keys)
  then show "length (AList.update k v al) = (if k \<in> fst ` set al then length al else Suc (length al))"
    by simp
  show "set (AList.update k v al) = {(k, v)} \<union> {(j, x) \<in> set al. j \<noteq> k}"
    using assms by (induction al) (auto simp: image_iff split: if_splits)
qed

text \<open>How one fetch changes the tracked origins, whichever way it goes.\<close>

lemma begin_fetch_tracked:
  fixes w w' :: "('l, 'k) WorkControls"
  assumes "begin_fetch L now origin w = (r, w')"
    and "distinct (map fst (new_origins w))"
    and "length (new_origins w) \<le> min (new_origins_per_minute (wc_limits w)) (state_entries (wc_limits w))"
    and "\<forall>(_, t) \<in> set (new_origins w). t \<le> now"
  shows "distinct (map fst (new_origins w'))"
    and "length (new_origins w') \<le> min (new_origins_per_minute (wc_limits w)) (state_entries (wc_limits w))"
    and "set (new_origins w') \<subseteq> insert (origin, now) (set (new_origins w))"
    and "\<forall>(g, u) \<in> set (new_origins w). now - u < secs 60 \<longrightarrow>
         (\<exists>t' \<ge> u. (g, t') \<in> set (new_origins w'))"
proof -
  let ?seen = "filter (\<lambda>(_, t). now - t < secs 60) (new_origins w)"
  have d: "distinct (map fst ?seen)" using assms(2) by (rule distinct_map_filter)
  have l: "length ?seen \<le> length (new_origins w)" by simp
  note u = AList_update_facts [OF d, of origin now]
  have "distinct (map fst (new_origins w')) \<and>
    length (new_origins w') \<le> min (new_origins_per_minute (wc_limits w)) (state_entries (wc_limits w)) \<and>
    set (new_origins w') \<subseteq> insert (origin, now) (set (new_origins w)) \<and>
    (\<forall>org t. (org, t) \<in> set (new_origins w) \<longrightarrow> now - t < secs 60 \<longrightarrow>
       (\<exists>t' \<ge> t. (org, t') \<in> set (new_origins w')))"
    using begin_fetch_effect(3) [OF assms(1)]
  proof
    assume "new_origins w' = new_origins w"
    with assms(2,3) show ?thesis by auto
  next
    assume n: "new_origins w' = new_origins (snd (admit_origin now origin w))"
    show ?thesis
    proof (cases rule: admit_origin_cases [of now origin w])
      case refused
      from l assms(3) have "length ?seen \<le> min (new_origins_per_minute (wc_limits w)) (state_entries (wc_limits w))"
        by (rule order_trans)
      with d show ?thesis unfolding n refused by auto
    next
      case admitted
      have "length (new_origins w') \<le> min (new_origins_per_minute (wc_limits w)) (state_entries (wc_limits w))"
        using admitted(2) order_trans [OF l assms(3)] unfolding n admitted(1) u(2)
        by (auto simp del: length_filter_le)
      moreover have "\<exists>t' \<ge> t. (org, t') \<in> set (new_origins w')"
        if "(org, t) \<in> set (new_origins w)" "now - t < secs 60" for org t
        using that assms(4) unfolding n admitted(1) u(3) by (cases "org = origin") auto
      moreover have "set (new_origins w') \<subseteq> insert (origin, now) (set (new_origins w))"
        unfolding n admitted(1) u(3) by auto
      ultimately show ?thesis using u(1) n admitted(1) by simp
    qed
  qed
  then show "distinct (map fst (new_origins w'))"
    and "length (new_origins w') \<le> min (new_origins_per_minute (wc_limits w)) (state_entries (wc_limits w))"
    and "set (new_origins w') \<subseteq> insert (origin, now) (set (new_origins w))"
    and "\<forall>(g, u) \<in> set (new_origins w). now - u < secs 60 \<longrightarrow>
         (\<exists>t' \<ge> u. (g, t') \<in> set (new_origins w'))"
    by blast+
qed

lemma admitted_in_minute_bound:
  assumes "\<And>org t. (org, t) \<in> hist \<Longrightarrow> now - t < secs 60 \<Longrightarrow> \<exists>t' \<ge> t. (org, t') \<in> set tracked"
    and "now \<le> t"
  shows "card (admitted_in_minute hist t) \<le> length tracked"
proof -
  have "admitted_in_minute hist t \<subseteq> fst ` set tracked"
  proof
    fix org assume "org \<in> admitted_in_minute hist t"
    then obtain s where "(org, s) \<in> hist" "t - s < secs 60" by (auto simp: admitted_in_minute_def)
    with assms(1) [of org s] assms(2) show "org \<in> fst ` set tracked" by force
  qed
  then have "card (admitted_in_minute hist t) \<le> card (fst ` set tracked)"
    by (rule card_mono [rotated]) simp
  also have "\<dots> \<le> card (set tracked)" by (rule card_image_le) simp
  also have "\<dots> \<le> length tracked" by (rule card_length)
  finally show ?thesis .
qed

lemma ctl_inv_begin:
  assumes "ctl_inv limits s" and "ctl_clock s \<le> now" and "begin_fetch L now origin (ctl_w s) = (r, w)"
  shows "ctl_inv limits \<lparr>ctl_w = w, ctl_held = ctl_held s + (if r = Ok () then 1 else 0), ctl_clock = now,
           ctl_admitted = ctl_admitted s \<union> set (new_origins w)\<rparr>"
proof -
  from assms(1) have i: "wc_limits (ctl_w s) = limits"
    "outbound (ctl_w s) + ctl_held s = outbound_fetches limits"
    "distinct (map fst (new_origins (ctl_w s)))"
    "length (new_origins (ctl_w s)) \<le> min (new_origins_per_minute limits) (state_entries limits)"
    "set (new_origins (ctl_w s)) \<subseteq> ctl_admitted s"
    and times: "\<And>org t. (org, t) \<in> ctl_admitted s \<Longrightarrow> t \<le> ctl_clock s"
    and tracked: "\<And>org t. (org, t) \<in> ctl_admitted s \<Longrightarrow> ctl_clock s - t < secs 60 \<Longrightarrow>
      \<exists>t' \<ge> t. (org, t') \<in> set (new_origins (ctl_w s))"
    and cards: "\<And>t. card (admitted_in_minute (ctl_admitted s) t) \<le> new_origins_per_minute limits"
    by (auto simp: ctl_inv_def)
  have old: "\<forall>(_, t) \<in> set (new_origins (ctl_w s)). t \<le> now"
    using i(5) times assms(2) by force
  note b = begin_fetch_tracked [OF assms(3) i(3) i(4) [folded i(1)] old]
  let ?hist = "ctl_admitted s \<union> set (new_origins w)"
  have sub: "?hist \<subseteq> insert (origin, now) (ctl_admitted s)" using b(3) i(5) by auto
  have times': "t \<le> now" if "(org, t) \<in> ?hist" for org t
    using that sub times [of org t] assms(2) by force
  have tracked': "\<exists>t' \<ge> t. (org, t') \<in> set (new_origins w)" if h: "(org, t) \<in> ?hist" "now - t < secs 60" for org t
  proof (cases "(org, t) \<in> set (new_origins w)")
    case False
    with h(1) have "(org, t) \<in> ctl_admitted s" by simp
    with tracked [of org t] h(2) assms(2) obtain t1 where
      "t \<le> t1" "(org, t1) \<in> set (new_origins (ctl_w s))" by force
    moreover from b(4) this h(2) obtain t2 where "t1 \<le> t2" "(org, t2) \<in> set (new_origins w)"
      by force
    ultimately show ?thesis by (meson order_trans)
  qed auto
  have "card (admitted_in_minute ?hist t) \<le> new_origins_per_minute limits" for t
  proof (cases "now \<le> t")
    case True
    have "card (admitted_in_minute ?hist t) \<le> length (new_origins w)"
      using tracked' True by (rule admitted_in_minute_bound)
    with b(2) i(1) show ?thesis by simp
  next
    case False
    have "admitted_in_minute ?hist t = admitted_in_minute (ctl_admitted s) t"
      using sub False by (fastforce simp: admitted_in_minute_def)
    with cards show ?thesis by simp
  qed
  moreover have "outbound w + (if r = Ok () then 1 else 0) = outbound (ctl_w s)" "wc_limits w = limits"
    using begin_fetch_effect(1,2) [OF assms(3)] i(1) by simp_all
  ultimately show ?thesis
    using b(1,2) i(1,2) times' tracked' by (auto simp: ctl_inv_def)
qed

text \<open>Every operation keeps the invariant, so it holds in every reachable state.\<close>

lemma ctl_inv_step: "ctl_step L s s' \<Longrightarrow> ctl_inv limits s \<Longrightarrow> ctl_inv limits s'"
proof (induction rule: ctl_step.induct)
  case (step_begin s now origin r w)
  from ctl_inv_begin [OF step_begin.prems step_begin.hyps] show ?case .
next
  case (step_release s)
  then show ?case by (simp add: ctl_inv_def release_permit_def)
next
  case (step_evict s A B D)
  then show ?case by (intro ctl_inv_same_admission) (simp_all add: same_admission_def)
qed (blast intro: ctl_inv_same_admission same_admission_ops)+

interpretation controls: invariant_of "ctl_init L limits" "ctl_step L" "ctl_inv limits"
  for L :: "'l limiter_api" and limits
proof
  fix s :: "('l, 'k) ctl"
  assume "ctl_init L limits s"
  then show "ctl_inv limits s"
    by cases (auto simp: ctl_inv_def WorkControls_new_def admitted_in_minute_def res_simps)
qed (rule ctl_inv_step)

section \<open>What a circuit promises\<close>

text \<open>
  The abstract circuit counts the failures since the last success without bound and remembers the time
  of the last one; the circuit of the code refines it as long as the 32-bit counter does not saturate.
\<close>

datatype circuit_event = Failed "duration option" nat | Succeeded

fun circuit_step :: "circuit_event \<Rightarrow> CircuitState \<Rightarrow> CircuitState" where
  "circuit_step (Failed retry_after now) c = snd (circuit_failure retry_after now c)"
| "circuit_step Succeeded c = snd (circuit_success c)"

fun abs_step :: "circuit_event \<Rightarrow> nat \<times> nat \<Rightarrow> nat \<times> nat" where
  "abs_step (Failed retry_after now) (n, t) = (n + 1, now)"
| "abs_step Succeeded (n, t) = (0, t)"

definition abs_blocked :: "nat \<Rightarrow> nat \<times> nat \<Rightarrow> bool" where
  "abs_blocked now = (\<lambda>(n, t). 3 \<le> n \<and> now < t + secs (open_secs (n - 3)))"

lemma after_failures_default: "after_failures 0 t CircuitState_default"
  by (simp add: after_failures_def CircuitState_default_def)

lemma circuit_step_simulates:
  "after_failures (fst a) (snd a) c \<Longrightarrow> fst a + 1 < 2 ^ 32 \<Longrightarrow>
   after_failures (fst (abs_step e a)) (snd (abs_step e a)) (circuit_step e c)"
  using circuit_failure_after [of "fst a" "snd a" c] after_failures_default [of "snd a"]
  by (cases e; cases a) (auto simp: circuit_success_def)

lemma abs_run_bound: "fst (fold abs_step es (0, 0)) \<le> length es"
proof (induction es rule: rev_induct)
  case (snoc e es)
  then show ?case by (cases e; cases "fold abs_step es (0, 0)") auto
qed simp

lemma circuit_run_simulates:
  "length es < 2 ^ 32 \<Longrightarrow>
   after_failures (fst (fold abs_step es (0, 0))) (snd (fold abs_step es (0, 0)))
     (fold circuit_step es CircuitState_default)"
proof (induction es rule: rev_induct)
  case Nil
  show ?case using after_failures_default [of 0] by simp
next
  case (snoc e es)
  then have "length es + 1 < 2 ^ 32" by simp
  with abs_run_bound [of es] have "fst (fold abs_step es (0, 0)) + 1 < 2 ^ 32" by linarith
  with snoc circuit_step_simulates [of "fold abs_step es (0, 0)"] show ?case by simp
qed

lemma circuit_check_after:
  "after_failures n t c \<Longrightarrow>
   circuit_check now c = (if abs_blocked now (n, t) then Err (FetchError_new FetchErrorKind.CircuitOpen) else Ok ())"
  by (simp add: after_failures_def circuit_check_def abs_blocked_def)

lemma backoff_secs_bounds: "5 \<le> backoff_secs n" "backoff_secs n \<le> 300"
  by (simp_all add: backoff_secs_def)

lemma open_secs_bounds: "30 \<le> open_secs n" "open_secs n \<le> 300"
  by (simp_all add: open_secs_def)

text \<open>
  C14. The circuit breaker refines the unbounded failure counter: after any sequence of fewer than \<open>2\<^sup>3\<^sup>2\<close>
  failures and successes, a fetch is refused exactly when the last three or more outcomes are failures and
  the last one is less than \<open>min (30 * 2 ^ min (n - 3) 4) 300\<close> seconds ago, \<open>n\<close> being their number.
\<close>

theorem circuit_refines_counter:
  assumes "length es < 2 ^ 32"
  shows "circuit_check now (fold circuit_step es CircuitState_default) =
    (if abs_blocked now (fold abs_step es (0, 0)) then Err (FetchError_new FetchErrorKind.CircuitOpen) else Ok ())"
  using circuit_check_after [OF circuit_run_simulates [OF assms]] by simp

theorem circuit_refines_counter_witness:
  "circuit_check (secs 40) (fold circuit_step
     [Succeeded, Failed None (secs 1), Failed None (secs 7), Failed None (secs 20)] CircuitState_default) =
   Err (FetchError_new FetchErrorKind.CircuitOpen)"
  using circuit_refines_counter
    [of "[Succeeded, Failed None (secs 1), Failed None (secs 7), Failed None (secs 20)]" "secs 40"]
  by (simp add: abs_blocked_def open_secs_def secs_def)

text \<open>
  In every state of a circuit, saturated counters included, the delay a failure asks for is between
  5 seconds and 5 minutes whatever \<open>Retry-After\<close> the origin sent, it is at least that value up to 5 minutes,
  and if the failure opens the circuit it stays open for between 30 seconds and 5 minutes.
\<close>

lemma failure_backoff_bounds:
  "\<exists>backoff transition c'.
     circuit_failure retry_after now c = ((backoff, transition), c') \<and>
     secs 5 \<le> backoff \<and> backoff \<le> secs 300 \<and>
     min (case retry_after of Some d \<Rightarrow> d | None \<Rightarrow> 0) (secs 300) \<le> backoff \<and>
     (transition = None \<and> open_until c' = open_until c \<or>
      transition = Some Opened \<and>
      (\<exists>left. open_until c' = Some (now + left) \<and> secs 30 \<le> left \<and> left \<le> secs 300))"
proof -
  have b: "secs 5 \<le> secs (backoff_secs n)" "secs (backoff_secs n) \<le> secs 300" for n
    using backoff_secs_bounds [of n] by simp_all
  show ?thesis
    using b open_secs_bounds unfolding circuit_failure_eq
    by (auto simp: le_max_iff_disj simp del: secs_simps)
qed

text \<open>
  A configuration of limits passes validation exactly when every number is in its documented range,
  each burst is at least its rate, the new origins per minute fit the state table and the deadline is
  positive and at most 1.8 seconds; the default limits pass.
\<close>

lemma limits_validated_iff:
  "(Limits_validate l = Ok () \<longleftrightarrow>
     between 1 65536 (inbound_body_bytes l) \<and> between 1 4096 (active_handlers l) \<and>
     between 1 1024 (outbound_fetches l) \<and> between 1 1024 (lim_max_keys l) \<and>
     list_all (\<lambda>(rate, burst). between 1 burst rate \<and> burst \<le> 1000000)
       [(global_fetch_rate l, global_fetch_burst l), (origin_fetch_rate l, origin_fetch_burst l),
        (ip_fetch_rate l, ip_fetch_burst l)] \<and>
     between 1 (state_entries l) (new_origins_per_minute l) \<and> state_entries l \<le> 100000 \<and>
     between 1 (millis 1800) (resolution_timeout l)) \<and>
   Limits_validate Limits_default = Ok ()"
  unfolding Limits_validate_Ok
  by (auto simp: between_def Limits_default_def RESOLUTION_DEADLINE_def millis_def)

lemma limits_default_valid: "Limits_validate Limits_default = Ok ()"
  unfolding Limits_validate_Ok by (simp add: between_def Limits_default_def RESOLUTION_DEADLINE_def millis_def)

text \<open>A limiter that never refuses, for the examples.\<close>

definition open_limiter :: "unit limiter_api" where
  "open_limiter = \<lparr>limiter_direct = (\<lambda>_ _. ()), limiter_check = (\<lambda>_ _. (True, ()))\<rparr>"

definition sample_controls :: "(unit, string) WorkControls" where
  "sample_controls = \<lparr>outbound = 32, global = (), origins = Map.empty, ips = Map.empty, new_origins = [],
     circuits = Map.empty, wc_limits = Limits_default\<rparr>"

lemma sample_controls_new: "WorkControls_new open_limiter Limits_default = Ok sample_controls"
  by (simp add: WorkControls_new_def limiter_def open_limiter_def Limits_default_def sample_controls_def)

lemma sample_controls_reachable:
  "reachable (ctl_init open_limiter Limits_default) (ctl_step open_limiter)
     \<lparr>ctl_w = sample_controls, ctl_held = 0, ctl_clock = 0, ctl_admitted = {}\<rparr>"
  by (intro reachable_init ctl_init.intros sample_controls_new)

lemma sample_begin_fetch:
  "\<exists>w. begin_fetch open_limiter 7 ''o'' sample_controls = (Ok (), w) \<and> outbound w = 31 \<and> new_origins w = [(''o'', 7)]"
  by (simp add: begin_fetch_def sample_controls_def open_limiter_def admit_origin_def check_origin_limiter_def
      limiter_def Limits_default_def Let_def)



lemma validated_limiters:
  assumes "Limits_validate limits = Ok ()"
  shows "limiter L (global_fetch_rate limits) (global_fetch_burst limits) \<noteq> Panic"
    and "limiter L (origin_fetch_rate limits) (origin_fetch_burst limits) \<noteq> Panic"
    and "limiter L (ip_fetch_rate limits) (ip_fetch_burst limits) \<noteq> Panic"
  using assms by (simp_all add: Limits_validate_Ok limiter_def)

lemma check_ip_not_Panic:
  "Limits_validate (wc_limits w) = Ok () \<Longrightarrow> fst (check_ip L now ip w) \<noteq> Panic"
  using validated_limiters(3) [of "wc_limits w" L]
  by (auto simp: check_ip_def Let_def split: res.splits option.splits prod.splits)

lemma begin_fetch_not_Panic:
  fixes w :: "('l, 'k) WorkControls"
  assumes "Limits_validate (wc_limits w) = Ok ()"
  shows "fst (begin_fetch L now origin w) \<noteq> Panic"
proof -
  have o: "fst (check_origin_limiter L now origin v) \<noteq> Panic" if "wc_limits v = wc_limits w"
    for v :: "('l, 'k) WorkControls"
    using that validated_limiters(2) [OF assms, of L]
    by (auto simp: check_origin_limiter_def Let_def split: res.splits option.splits prod.splits)
  show ?thesis
    by (auto simp: begin_fetch_def Let_def case_prod_unfold o admit_origin_effect(1))
qed

text \<open>
  With limits that passed validation no operation of the controls panics: the constructor, the fetch
  admission and the address limiter never meet a zero rate or burst, in any reachable state.
\<close>

lemma controls_never_panic:
  assumes "Limits_validate limits = Ok ()" and "reachable (ctl_init L limits) (ctl_step L) s"
  shows "(WorkControls_new L limits :: (('l, 'k) WorkControls, FetchError) res) \<noteq> Panic \<and>
    fst (begin_fetch L now origin (ctl_w (s :: ('l, 'k) ctl))) \<noteq> Panic \<and>
    fst (check_ip L now ip (ctl_w s)) \<noteq> Panic"
proof -
  have "wc_limits (ctl_w s) = limits" using controls.inv_reachable [OF assms(2)] by (simp add: ctl_inv_def)
  with assms(1) show ?thesis
    using begin_fetch_not_Panic [of "ctl_w s"] check_ip_not_Panic [of "ctl_w s"]
      validated_limiters(1) [OF assms(1), of L]
    by (simp add: WorkControls_new_def res_simps)
qed

end
