(* ===== verification/Resource.thy ===== *)
theory Resource
  imports Fetch
begin

text \<open>
  Parsing a fetched key set or client metadata document, \<open>crates/resolver/src/resource.rs\<close>. The JSON
  decoder is a parameter that yields the deserialised structures.
\<close>

section \<open>Documents\<close>

record ResourceKeyEntry =
  entry_jwk :: Ed25519Jwk
  entry_kid :: "string option"

record 'u CimdResource =
  cimd_inline_jwks :: "ResourceKeyEntry list option"
  cimd_jwks_uri :: "'u option"

datatype 'u ParsedResource = Jwks "ResourceKeyEntry list" | Cimd "'u CimdResource"

record FetchedJwk =
  fj_kty :: string
  fj_crv :: "string option"
  fj_kid :: "string option"
  fj_x :: "string option"

record FetchedJwks =
  fj_keys :: "FetchedJwk list"

record FetchedCimd =
  fc_client_id :: string
  fc_jwks :: "FetchedJwks option"
  fc_jwks_uri :: "string option"

record json_api =
  from_slice_jwks :: "string \<Rightarrow> FetchedJwks option"
  from_slice_cimd :: "string \<Rightarrow> FetchedCimd option"

section \<open>Parsing\<close>

definition is_ed25519 :: "FetchedJwk \<Rightarrow> bool" where
  "is_ed25519 key \<longleftrightarrow> fj_kty key = ''OKP'' \<and> fj_crv key = Some ''Ed25519''"

definition parse_key ::
  "crypto_api \<Rightarrow> bool \<Rightarrow> FetchedJwk \<Rightarrow> (ResourceKeyEntry, FetchError) res" where
  "parse_key C directory key =
     res_bind (ok_or (FetchError_new InvalidResource) (fj_x key)) (\<lambda>x.
     let jwk = Ed25519Jwk_new x in
     if \<not> is_valid_public_key C jwk then Err (FetchError_new InvalidResource)
     else if directory \<and> (case fj_kid key of Some kid \<Rightarrow> kid \<noteq> b64_thumbprint C jwk | None \<Rightarrow> False)
     then Err (FetchError_new InvalidResource)
     else Ok \<lparr>entry_jwk = jwk, entry_kid = fj_kid key\<rparr>)"

text \<open>\<open>Iterator::collect\<close> into a \<open>Result\<close>: every item, or the first error.\<close>

fun collect_results :: "('a \<Rightarrow> ('b, 'e) res) \<Rightarrow> 'a list \<Rightarrow> ('b list, 'e) res" where
  "collect_results f [] = Ok []"
| "collect_results f (x # xs) =
     res_bind (f x) (\<lambda>y. res_bind (collect_results f xs) (\<lambda>ys. Ok (y # ys)))"

definition parse_keys ::
  "crypto_api \<Rightarrow> FetchedJwks \<Rightarrow> nat \<Rightarrow> bool \<Rightarrow> (ResourceKeyEntry list, FetchError) res" where
  "parse_keys C jwks max_keys directory =
     (if length (fj_keys jwks) > max_keys then Err (FetchError_new InvalidResource)
      else collect_results (parse_key C directory) (filter is_ed25519 (fj_keys jwks)))"

definition parse_resource ::
  "'u url_api \<Rightarrow> crypto_api \<Rightarrow> json_api \<Rightarrow> ResourceKind \<Rightarrow> 'u \<Rightarrow> string \<Rightarrow> nat \<Rightarrow>
   ('u ParsedResource, FetchError) res" where
  "parse_resource U C J kind fetched_url body max_keys =
     (case kind of
        ResourceKind.Jwks \<Rightarrow>
          res_bind (ok_or (FetchError_new InvalidResource) (from_slice_jwks J body)) (\<lambda>jwks.
          res_bind (parse_keys C jwks max_keys (is_directory_url U fetched_url)) (\<lambda>keys.
          Ok (ParsedResource.Jwks keys)))
      | ResourceKind.Cimd \<Rightarrow>
          res_bind (ok_or (FetchError_new InvalidResource) (from_slice_cimd J body)) (\<lambda>metadata.
          res_bind (ensure (fc_client_id metadata = url_as_str U fetched_url)
                      (FetchError_new InvalidResource)) (\<lambda>_.
          case (fc_jwks metadata, fc_jwks_uri metadata) of
            (Some jwks, None) \<Rightarrow>
              res_bind (parse_keys C jwks max_keys False) (\<lambda>keys.
              Ok (ParsedResource.Cimd \<lparr>cimd_inline_jwks = Some keys, cimd_jwks_uri = None\<rparr>))
          | (None, Some uri) \<Rightarrow>
              if length uri > MAX_AGENT_URL_BYTES then Err (FetchError_new InvalidResource)
              else res_bind (ok_or (FetchError_new InvalidResource) (url_parse U uri)) (\<lambda>url.
                Ok (ParsedResource.Cimd
                      \<lparr>cimd_inline_jwks = None, cimd_jwks_uri = Some (url_set_fragment U None url)\<rparr>))
          | _ \<Rightarrow> Err (FetchError_new InvalidResource))))"

section \<open>Facts\<close>

lemma collect_results_Ok:
  "collect_results f xs = Ok ys \<longleftrightarrow> list_all2 (\<lambda>x y. f x = Ok y) xs ys"
  by (induction xs arbitrary: ys) (auto simp: res_simps list_all2_Cons1)

lemma collect_results_Panic:
  "(\<And>x. f x \<noteq> Panic) \<Longrightarrow> collect_results f xs \<noteq> Panic"
  by (induction xs) (auto simp: res_simps)

definition good_key :: "crypto_api \<Rightarrow> bool \<Rightarrow> FetchedJwk \<Rightarrow> bool" where
  "good_key C directory key \<longleftrightarrow>
     (\<exists>x. fj_x key = Some x \<and> is_valid_public_key C (Ed25519Jwk_new x) \<and>
          (directory \<longrightarrow> fj_kid key \<in> {None, Some (b64_thumbprint C (Ed25519Jwk_new x))}))"

definition entry_of :: "FetchedJwk \<Rightarrow> ResourceKeyEntry" where
  "entry_of key = \<lparr>entry_jwk = Ed25519Jwk_new (the (fj_x key)), entry_kid = fj_kid key\<rparr>"

lemma parse_key_Ok: "parse_key C d key = Ok e \<longleftrightarrow> good_key C d key \<and> e = entry_of key"
  by (cases "fj_x key"; cases "fj_kid key")
    (auto simp: parse_key_def ok_or_def good_key_def entry_of_def Let_def)

lemma parse_key_not_Ok: "\<not> good_key C d key \<Longrightarrow> parse_key C d key = Err (FetchError_new InvalidResource)"
  by (cases "fj_x key"; cases "fj_kid key")
    (auto simp: parse_key_def ok_or_def good_key_def Let_def split: if_splits)

lemma parse_keys_eq:
  "parse_keys C jwks max_keys d =
     (if length (fj_keys jwks) \<le> max_keys \<and> list_all (good_key C d) (filter is_ed25519 (fj_keys jwks))
      then Ok (map entry_of (filter is_ed25519 (fj_keys jwks)))
      else Err (FetchError_new InvalidResource))"
proof -
  have "collect_results (parse_key C d) ks =
      (if list_all (good_key C d) ks then Ok (map entry_of ks) else Err (FetchError_new InvalidResource))" for ks
  proof (induction ks)
    case (Cons k ks)
    then show ?case
      by (cases "good_key C d k") (auto simp: parse_key_not_Ok parse_key_Ok [THEN iffD2])
  qed simp
  then show ?thesis by (auto simp: parse_keys_def)
qed

lemma parse_keys_not_Panic [simp]: "parse_keys C jwks n d \<noteq> Panic"
  by (simp add: parse_keys_eq)

lemma parse_resource_not_Panic [simp]: "parse_resource U C J kind url body n \<noteq> Panic"
  by (auto simp: parse_resource_def res_simps split: ResourceKind.splits option.splits)

text \<open>The keys a resource carries itself.\<close>

fun resource_keys :: "'u ParsedResource \<Rightarrow> ResourceKeyEntry list" where
  "resource_keys (ParsedResource.Jwks keys) = keys"
| "resource_keys (ParsedResource.Cimd c) = (case cimd_inline_jwks c of Some keys \<Rightarrow> keys | None \<Rightarrow> [])"

text \<open>
  What the rest of the resolver relies on: a bounded number of keys, each 32 bytes of base64, and
  metadata that has either its keys or the place they are at, never both or none.
\<close>

fun valid_resource :: "'u url_api \<Rightarrow> crypto_api \<Rightarrow> nat \<Rightarrow> 'u ParsedResource \<Rightarrow> bool" where
  "valid_resource U C n (ParsedResource.Jwks keys) \<longleftrightarrow>
     length keys \<le> n \<and> list_all (\<lambda>e. is_valid_public_key C (entry_jwk e)) keys"
| "valid_resource U C n (ParsedResource.Cimd c) \<longleftrightarrow>
     (case (cimd_inline_jwks c, cimd_jwks_uri c) of
        (Some keys, None) \<Rightarrow>
          length keys \<le> n \<and> list_all (\<lambda>e. is_valid_public_key C (entry_jwk e)) keys
      | (None, Some url) \<Rightarrow> url_fragment U url = None
      | _ \<Rightarrow> False)"

lemma parse_keys_valid:
  assumes "parse_keys C jwks n d = Ok keys"
  shows "length keys \<le> n \<and> list_all (\<lambda>e. is_valid_public_key C (entry_jwk e)) keys"
proof
  from assms have k: "length (fj_keys jwks) \<le> n" "list_all (good_key C d) (filter is_ed25519 (fj_keys jwks))"
    "keys = map entry_of (filter is_ed25519 (fj_keys jwks))"
    by (auto simp: parse_keys_eq split: if_splits)
  then show "length keys \<le> n"
    using length_filter_le [of is_ed25519 "fj_keys jwks"] by (simp only: length_map order_trans)
  show "list_all (\<lambda>e. is_valid_public_key C (entry_jwk e)) keys"
    using k(2) unfolding k(3) by (auto simp: list_all_iff good_key_def entry_of_def)
qed

lemma parse_resource_valid:
  assumes "url_laws U" and "parse_resource U C J kind url body n = Ok r"
  shows "valid_resource U C n r"
  using assms(2)
  by (auto simp: parse_resource_def res_simps url_laws_set_fragment [OF assms(1)]
      split: ResourceKind.splits option.splits if_splits dest!: parse_keys_valid)

section \<open>Properties\<close>

text \<open>
  Which keys of a set are used: more members than the limit refuse the whole set; members that are not
  Ed25519 are skipped; every Ed25519 member must have a public key of 32 bytes and, in a directory, a
  key id that is absent or the key's own thumbprint, or the whole set is refused; the entries keep the
  order of the set.
\<close>

lemma parse_keys_correct:
  "parse_keys C jwks max_keys directory =
     (let ed = filter (\<lambda>k. fj_kty k = ''OKP'' \<and> fj_crv k = Some ''Ed25519'') (fj_keys jwks) in
      if length (fj_keys jwks) \<le> max_keys \<and> list_all (good_key C directory) ed
      then Ok (map (\<lambda>k. \<lparr>entry_jwk = Ed25519Jwk_new (the (fj_x k)), entry_kid = fj_kid k\<rparr>) ed)
      else Err (FetchError_new InvalidResource))"
  unfolding parse_keys_eq is_ed25519_def entry_of_def Let_def by simp

text \<open>
  C27. What a parsed document guarantees: at most the configured number of keys, every one a 32-byte key; a
  client metadata document names exactly the URL it was fetched from as its client id and has either
  inline keys or the URL of a key set, never both and never neither, and that URL is at most 2048
  bytes and has no fragment. Parsing never panics.
\<close>

theorem parse_resource_sound:
  assumes "url_laws U" and "parse_resource U C J kind url body n = Ok r"
  shows "valid_resource U C n r \<and>
    (case r of
       ParsedResource.Jwks keys \<Rightarrow> kind = ResourceKind.Jwks
     | ParsedResource.Cimd c \<Rightarrow>
         kind = ResourceKind.Cimd \<and>
         (\<exists>doc. from_slice_cimd J body = Some doc \<and> fc_client_id doc = url_as_str U url \<and>
            (cimd_inline_jwks c = None \<longleftrightarrow> cimd_jwks_uri c \<noteq> None) \<and>
            (\<forall>u. cimd_jwks_uri c = Some u \<longrightarrow>
               (\<exists>uri. fc_jwks_uri doc = Some uri \<and> length uri \<le> 2048))))"
proof -
  have v: "valid_resource U C n r"
    using parse_resource_valid [OF assms] .
  show ?thesis
    using assms(2) v
    by (auto simp: parse_resource_def res_simps MAX_AGENT_URL_BYTES_def
        split: ResourceKind.splits option.splits if_splits)
qed

definition sample_crypto :: crypto_api where
  "sample_crypto = \<lparr>sha256 = (\<lambda>s. s), b64_encode = (\<lambda>s. ''k''), b64_decode = (\<lambda>s. Some (replicate 32 (CHR ''x'')))\<rparr>"

definition sample_json :: json_api where
  "sample_json =
     \<lparr>from_slice_jwks = (\<lambda>_. Some \<lparr>fj_keys = [\<lparr>fj_kty = ''OKP'', fj_crv = Some ''Ed25519'', fj_kid = None,
                                               fj_x = Some ''k''\<rparr>]\<rparr>),
      from_slice_cimd = (\<lambda>_. Some \<lparr>fc_client_id = ''https://a.test/c'', fc_jwks = None,
                                   fc_jwks_uri = Some ''https://a.test/keys#x''\<rparr>)\<rparr>"

definition sample_cimd_url :: plain_url where
  "sample_cimd_url = \<lparr>pu_scheme = ''https'', pu_host = Some ''a.test'', pu_path = ''/c'', pu_query = None,
     pu_fragment = None\<rparr>"

definition sample_keys_url :: plain_url where
  "sample_keys_url = \<lparr>pu_scheme = ''https'', pu_host = Some ''a.test'', pu_path = ''/keys'', pu_query = None,
     pu_fragment = None\<rparr>"

lemma parse_cimd_sample:
  "parse_resource plain_url_api sample_crypto sample_json ResourceKind.Cimd sample_cimd_url body 32 =
     Ok (ParsedResource.Cimd \<lparr>cimd_inline_jwks = None, cimd_jwks_uri = Some sample_keys_url\<rparr>)"
proof -
  have "plain_parse ''https://a.test/keys#x'' = Some (sample_keys_url\<lparr>pu_fragment := Some ''x''\<rparr>)"
    by (simp add: plain_parse_def strip_prefix_def is_ascii_byte_def byte_val_def sample_keys_url_def)
  moreover have "plain_as_str sample_cimd_url = ''https://a.test/c''"
    by (simp add: plain_as_str_def sample_cimd_url_def)
  ultimately show ?thesis
    by (simp add: parse_resource_def sample_json_def ok_or_def ensure_def MAX_AGENT_URL_BYTES_def
        sample_keys_url_def)
qed

lemma parse_jwks_sample:
  "parse_resource plain_url_api sample_crypto sample_json ResourceKind.Jwks sample_keys_url body 32 =
     Ok (ParsedResource.Jwks [\<lparr>entry_jwk = Ed25519Jwk_new ''k'', entry_kid = None\<rparr>])"
  by (simp add: parse_resource_def sample_json_def ok_or_def parse_keys_eq is_ed25519_def good_key_def
      entry_of_def is_valid_public_key_def sample_crypto_def Ed25519Jwk_new_def)

theorem parse_resource_sound_witness:
  "valid_resource plain_url_api sample_crypto 32
     (ParsedResource.Cimd \<lparr>cimd_inline_jwks = None, cimd_jwks_uri = Some sample_keys_url\<rparr>)"
  using parse_resource_sound [OF url_laws_plain parse_cimd_sample] by blast

end
