(* ===== verification/Cache.thy ===== *)
theory Cache
  imports Controls Resource
begin

text \<open>
  The cache of fetched resources, \<open>crates/resolver/src/cache.rs\<close>: what a response says about its own
  freshness, when a stored representation may answer, and the load operation with its coalesced refresh.
  The \<open>http-cache-semantics\<close> policy is a parameter; the two \<open>moka\<close> caches are maps. A clock reading is a
  number of nanoseconds.
\<close>

definition MAX_FRESHNESS :: duration where "MAX_FRESHNESS = secs (24 * 60 * 60)"

record 'u ResourceKey =
  rk_url :: 'u
  rk_kind :: ResourceKind

record cache_req =
  cr_uri :: string
  cr_headers :: HeaderMap

record cache_resp =
  cp_status :: nat
  cp_headers :: HeaderMap

text \<open>
  The methods of \<open>CachePolicy\<close> that the sources call. \<open>pol_new\<close> is \<open>new_options\<close> with the freshness
  heuristic switched off; \<open>pol_uri\<close> says whether \<open>http::Request\<close> takes a text as its URI.
\<close>

datatype before_request = Fresh HeaderMap | Stale HeaderMap

datatype 'p after_response = NotModified 'p | Modified

record 'p policy_api =
  pol_uri :: "string \<Rightarrow> bool"
  pol_new :: "cache_req \<Rightarrow> cache_resp \<Rightarrow> nat \<Rightarrow> 'p"
  pol_is_storable :: "'p \<Rightarrow> bool"
  pol_before_request :: "'p \<Rightarrow> cache_req \<Rightarrow> nat \<Rightarrow> before_request"
  pol_after_response :: "'p \<Rightarrow> cache_req \<Rightarrow> cache_resp \<Rightarrow> nat \<Rightarrow> 'p after_response"
  pol_time_to_live :: "'p \<Rightarrow> nat \<Rightarrow> duration"

record ('u, 'p) Representation =
  rep_resource :: "'u ParsedResource"
  rep_policy :: 'p
  rep_stored_at :: nat
  rep_fresh_for :: duration
  rep_stale_if_error :: "duration option"

section \<open>When a stored representation may answer\<close>

text \<open>\<open>SystemTime::duration_since\<close> fails on a clock that went back; \<open>unwrap_or(ZERO)\<close> then reads zero.\<close>

definition fresh_request ::
  "'p policy_api \<Rightarrow> ('u, 'p) Representation \<Rightarrow> cache_req \<Rightarrow> nat \<Rightarrow> HeaderMap option" where
  "fresh_request P self request now =
     (if (if rep_stored_at self \<le> now then now - rep_stored_at self else 0) \<ge> MAX_FRESHNESS then None
      else case pol_before_request P (rep_policy self) request now of
             Fresh headers \<Rightarrow> Some headers
           | Stale _ \<Rightarrow> None)"

definition stale_allowed_after_error :: "('u, 'p) Representation \<Rightarrow> nat \<Rightarrow> bool" where
  "stale_allowed_after_error self now =
     (case rep_stale_if_error self of
        None \<Rightarrow> False
      | Some stale_for \<Rightarrow>
          rep_stored_at self \<le> now \<and>
          now - rep_stored_at self \<le> min (rep_fresh_for self + stale_for) DURATION_MAX)"

section \<open>Cache directives\<close>

text \<open>The directives of all \<open>Cache-Control\<close> values that are text, split at commas.\<close>

definition directives :: "(string \<Rightarrow> string option) \<Rightarrow> HeaderMap \<Rightarrow> string list" where
  "directives to_str headers =
     concat (map (split_on (CHR '','')) (List.map_filter to_str (hm_get_all headers ''cache-control'')))"

definition trim_quotes :: "string \<Rightarrow> string" where
  "trim_quotes s = trim_by (\<lambda>c. byte_val c = 34) s"

definition is_freshness :: "string \<Rightarrow> bool" where
  "is_freshness directive =
     (case split_once (CHR ''='') directive of
        None \<Rightarrow> False
      | Some (name, value) \<Rightarrow>
          (eq_ignore_ascii_case (str_trim name) ''max-age'' \<or>
           eq_ignore_ascii_case (str_trim name) ''s-maxage'') \<and>
          parse_unsigned 64 (str_trim (trim_quotes value)) \<noteq> None)"

definition apply_default_freshness ::
  "(string \<Rightarrow> string option) \<Rightarrow> (string \<Rightarrow> duration option) \<Rightarrow> HeaderMap \<Rightarrow> HeaderMap" where
  "apply_default_freshness to_str parse_http_date headers =
     (let ds = map str_trim (directives to_str headers);
          no_store = list_ex (\<lambda>d. eq_ignore_ascii_case d ''no-store'') ds;
          has_freshness = list_ex is_freshness ds;
          has_expires =
            (case Option.bind (map_of headers ''expires'') to_str of
               Some value \<Rightarrow> parse_http_date value \<noteq> None
             | None \<Rightarrow> False)
      in if \<not> no_store \<and> \<not> has_freshness \<and> \<not> has_expires
         then headers @ [(''cache-control'', ''max-age=300'')]
         else headers)"

text \<open>\<open>Iterator::find_map\<close>.\<close>

fun find_map :: "('a \<Rightarrow> 'b option) \<Rightarrow> 'a list \<Rightarrow> 'b option" where
  "find_map f [] = None"
| "find_map f (x # xs) = (case f x of Some y \<Rightarrow> Some y | None \<Rightarrow> find_map f xs)"

definition stale_directive :: "string \<Rightarrow> nat option" where
  "stale_directive directive =
     (case split_once (CHR ''='') (str_trim directive) of
        None \<Rightarrow> None
      | Some (name, value) \<Rightarrow>
          if eq_ignore_ascii_case name ''stale-if-error'' then parse_unsigned 64 (trim_quotes value)
          else None)"

definition parse_stale_if_error ::
  "(string \<Rightarrow> string option) \<Rightarrow> HeaderMap \<Rightarrow> duration option" where
  "parse_stale_if_error to_str headers =
     (let ds = directives to_str headers in
      if list_ex (\<lambda>d. eq_ignore_ascii_case (str_trim d) ''must-revalidate'') ds then None
      else map_option (\<lambda>seconds. secs (min seconds (MAX_FRESHNESS div secs 1)))
             (find_map stale_directive ds))"

section \<open>From responses to representations\<close>

definition cache_request ::
  "'u url_api \<Rightarrow> 'p policy_api \<Rightarrow> 'u ResourceKey \<Rightarrow> (cache_req, FetchError) res" where
  "cache_request U P key =
     (if pol_uri P (url_as_str U (rk_url key))
      then Ok \<lparr>cr_uri = url_as_str U (rk_url key),
               cr_headers = [(''accept'', ResourceKind_accept U (rk_kind key) (rk_url key)),
                             (''accept-encoding'', ''identity'')]\<rparr>
      else Err (FetchError_new InvalidResource))"

text \<open>The status and the headers are already typed, so building the response cannot fail.\<close>

definition response_from_fetch :: "FetchResponse \<Rightarrow> (cache_resp, FetchError) res" where
  "response_from_fetch response = Ok \<lparr>cp_status = resp_status response, cp_headers = resp_headers response\<rparr>"

text \<open>What the conversion calls besides the policy: header text, dates, the key decoder and JSON.\<close>

record decode_api =
  dec_to_str :: "string \<Rightarrow> string option"
  dec_http_date :: "string \<Rightarrow> duration option"
  dec_crypto :: crypto_api
  dec_json :: json_api

definition representation_from_response ::
  "'u url_api \<Rightarrow> 'p policy_api \<Rightarrow> decode_api \<Rightarrow> nat \<Rightarrow> 'u ResourceKey \<Rightarrow> cache_req \<Rightarrow>
   ('u, 'p) Representation option \<Rightarrow> FetchResponse \<Rightarrow> nat \<Rightarrow> (('u, 'p) Representation, FetchError) res" where
  "representation_from_response U P D now key request previous response max_keys =
     (if resp_status response = 304 then
        res_bind (ok_or (FetchError_new InvalidResource) previous) (\<lambda>previous.
        res_bind (response_from_fetch response) (\<lambda>response_meta.
        case pol_after_response P (rep_policy previous) request response_meta now of
          NotModified policy \<Rightarrow>
            Ok \<lparr>rep_resource = rep_resource previous, rep_policy = policy, rep_stored_at = now,
                rep_fresh_for = min (pol_time_to_live P policy now) MAX_FRESHNESS,
                rep_stale_if_error =
                  (case parse_stale_if_error (dec_to_str D) (cp_headers response_meta) of
                     Some d \<Rightarrow> Some d
                   | None \<Rightarrow> rep_stale_if_error previous)\<rparr>
        | Modified \<Rightarrow> Err (FetchError_new InvalidResource)))
      else
        let response = response\<lparr>resp_headers :=
              apply_default_freshness (dec_to_str D) (dec_http_date D) (resp_headers response)\<rparr> in
        res_bind (response_from_fetch response) (\<lambda>response_meta.
        let policy = pol_new P request response_meta now in
        res_bind (parse_resource U (dec_crypto D) (dec_json D) (rk_kind key) (rk_url key)
                    (resp_body response) max_keys) (\<lambda>resource.
        Ok \<lparr>rep_resource = resource, rep_policy = policy, rep_stored_at = now,
            rep_fresh_for = min (pol_time_to_live P policy now) MAX_FRESHNESS,
            rep_stale_if_error = parse_stale_if_error (dec_to_str D) (cp_headers response_meta)\<rparr>)))"

section \<open>The store\<close>

record ('u, 'p) RefreshOutcome =
  ro_result :: "(('u, 'p) Representation, FetchError) res"
  ro_valid_until :: nat

record ('u, 'p) CacheStore =
  representations :: "'u ResourceKey \<rightharpoonup> ('u, 'p) Representation"
  refreshes :: "'u ResourceKey \<rightharpoonup> ('u, 'p) RefreshOutcome"
  cache_events :: "string list"

definition CacheStore_new :: "('u, 'p) CacheStore" where
  "CacheStore_new = \<lparr>representations = Map.empty, refreshes = Map.empty, cache_events = []\<rparr>"

definition cache_event ::
  "string \<Rightarrow> ('u, 'p, 'z) CacheStore_scheme \<Rightarrow> ('u, 'p, 'z) CacheStore_scheme" where
  "cache_event e s = s\<lparr>cache_events := cache_events s @ [e]\<rparr>"

definition result_or_stale ::
  "(('u, 'p) Representation, FetchError) res \<Rightarrow> ('u, 'p) Representation option \<Rightarrow> nat \<Rightarrow>
   ('u, 'p, 'z) CacheStore_scheme \<Rightarrow>
   (('u, 'p) Representation, FetchError) res \<times> ('u, 'p, 'z) CacheStore_scheme" where
  "result_or_stale result previous now s =
     (case result of
        Ok representation \<Rightarrow> (Ok representation, s)
      | Err error \<Rightarrow>
          (case previous of
             Some old \<Rightarrow>
               if allows_stale error \<and> stale_allowed_after_error old now
               then (Ok old, cache_event ''stale_on_error'' s)
               else (Err error, cache_event ''error'' s)
           | None \<Rightarrow> (Err error, cache_event ''error'' s))
      | Panic \<Rightarrow> (Panic, s))"

definition publish ::
  "'p policy_api \<Rightarrow> 'u ResourceKey \<Rightarrow> ('u, 'p) Representation \<Rightarrow>
   ('u, 'p, 'z) CacheStore_scheme \<Rightarrow> ('u, 'p, 'z) CacheStore_scheme" where
  "publish P key representation s =
     (if pol_is_storable P (rep_policy representation)
      then s\<lparr>representations := (representations s)(key \<mapsto> representation)\<rparr>
      else s\<lparr>representations := (representations s)(key := None)\<rparr>)"

text \<open>\<open>Cache::get_with\<close>: the entry that is there, or the one the given computation leaves.\<close>

definition get_with ::
  "'u ResourceKey \<Rightarrow>
   (('u, 'p, 'z) CacheStore_scheme \<Rightarrow> ('u, 'p) RefreshOutcome \<times> ('u, 'p, 'z) CacheStore_scheme) \<Rightarrow>
   ('u, 'p, 'z) CacheStore_scheme \<Rightarrow> ('u, 'p) RefreshOutcome \<times> ('u, 'p, 'z) CacheStore_scheme" where
  "get_with key init s =
     (case refreshes s key of
        Some outcome \<Rightarrow> (outcome, s)
      | None \<Rightarrow> let (outcome, s) = init s in (outcome, s\<lparr>refreshes := (refreshes s)(key \<mapsto> outcome)\<rparr>))"

text \<open>
  \<open>CacheStore::load\<close>. The refresh of the loader is an argument; \<open>now\<close> is the reading of the system clock
  at the start, \<open>inst\<close> the monotonic one when a recorded outcome is looked at. \<open>load_refresh\<close> is its second
  half, taken when nothing fresh is stored.
\<close>

type_synonym ('u, 'p, 'z) refresh_fn =
  "'u ResourceKey \<Rightarrow> ('u, 'p) Representation option \<Rightarrow> ('u, 'p, 'z) CacheStore_scheme \<Rightarrow>
     ('u, 'p) RefreshOutcome \<times> ('u, 'p, 'z) CacheStore_scheme"

definition load_refresh ::
  "('u, 'p, 'z) refresh_fn \<Rightarrow> nat \<Rightarrow> nat \<Rightarrow> 'u ResourceKey \<Rightarrow> ('u, 'p) Representation option \<Rightarrow>
   ('u, 'p, 'z) CacheStore_scheme \<Rightarrow>
   (('u, 'p) Representation, FetchError) res \<times> ('u, 'p, 'z) CacheStore_scheme" where
  "load_refresh refresh now inst key previous s =
     (let run = (\<lambda>s. let (outcome, s) = get_with key (refresh key previous) s
                     in result_or_stale (ro_result outcome) previous now s)
      in case refreshes s key of
           Some outcome \<Rightarrow>
             if ro_valid_until outcome > inst then result_or_stale (ro_result outcome) previous now s
             else run (s\<lparr>refreshes := (refreshes s)(key := None)\<rparr>)
         | None \<Rightarrow> run s)"

definition CacheStore_load ::
  "'u url_api \<Rightarrow> 'p policy_api \<Rightarrow> ('u, 'p, 'z) refresh_fn \<Rightarrow> nat \<Rightarrow> nat \<Rightarrow> 'u ResourceKey \<Rightarrow>
   ('u, 'p, 'z) CacheStore_scheme \<Rightarrow>
   (('u, 'p) Representation, FetchError) res \<times> ('u, 'p, 'z) CacheStore_scheme" where
  "CacheStore_load U P refresh now inst key s =
     (case cache_request U P key of
        Ok request \<Rightarrow>
          (case representations s key of
             Some representation \<Rightarrow>
               if fresh_request P representation request now \<noteq> None
               then (Ok representation, cache_event ''fresh_hit'' s)
               else load_refresh refresh now inst key (Some representation) s
           | None \<Rightarrow> load_refresh refresh now inst key None s)
      | Err e \<Rightarrow> (Err e, s)
      | Panic \<Rightarrow> (Panic, s))"

section \<open>Facts\<close>

lemma cache_request_not_Panic [simp]: "cache_request U P key \<noteq> Panic"
  by (simp add: cache_request_def)

text \<open>The state a refresh starts in: a recorded outcome that has expired is dropped first.\<close>

definition refresh_start ::
  "'u ResourceKey \<Rightarrow> ('u, 'p, 'z) CacheStore_scheme \<Rightarrow> ('u, 'p, 'z) CacheStore_scheme" where
  "refresh_start key s = (if refreshes s key = None then s else s\<lparr>refreshes := (refreshes s)(key := None)\<rparr>)"

lemma load_refresh_eq:
  "load_refresh refresh now inst key previous s =
     (case refreshes s key of
        Some outcome \<Rightarrow>
          if ro_valid_until outcome > inst then result_or_stale (ro_result outcome) previous now s
          else (let (outcome, t) = refresh key previous (refresh_start key s)
                in result_or_stale (ro_result outcome) previous now (t\<lparr>refreshes := (refreshes t)(key \<mapsto> outcome)\<rparr>))
      | None \<Rightarrow>
          (let (outcome, t) = refresh key previous (refresh_start key s)
           in result_or_stale (ro_result outcome) previous now (t\<lparr>refreshes := (refreshes t)(key \<mapsto> outcome)\<rparr>)))"
  by (auto simp: load_refresh_def get_with_def refresh_start_def Let_def case_prod_unfold split: option.splits)

lemma result_or_stale_Ok:
  "result_or_stale result previous now s = (Ok rep, t) \<Longrightarrow>
   result = Ok rep \<or>
   (\<exists>e. result = Err e \<and> previous = Some rep \<and> allows_stale e \<and> stale_allowed_after_error rep now)"
  by (auto simp: result_or_stale_def split: res.splits option.splits if_splits)

lemma result_or_stale_state:
  "representations (snd (result_or_stale result previous now s)) = representations s"
  "refreshes (snd (result_or_stale result previous now s)) = refreshes s"
  by (auto simp: result_or_stale_def cache_event_def split: res.splits option.splits)

lemma fresh_request_Some:
  "fresh_request P rep request now \<noteq> None \<longleftrightarrow>
     now - rep_stored_at rep < MAX_FRESHNESS \<and> (\<exists>h. pol_before_request P (rep_policy rep) request now = Fresh h)"
  by (auto simp: fresh_request_def MAX_FRESHNESS_def secs_def split: before_request.splits if_splits)

text \<open>The outcome a load works with: the recorded one while it lasts, or that of a new refresh.\<close>

definition outcome_of ::
  "('u, 'p, 'z) refresh_fn \<Rightarrow> nat \<Rightarrow> 'u ResourceKey \<Rightarrow> ('u, 'p, 'z) CacheStore_scheme \<Rightarrow>
   ('u, 'p) RefreshOutcome" where
  "outcome_of refresh inst key s =
     (case refreshes s key of
        Some outcome \<Rightarrow>
          if inst < ro_valid_until outcome then outcome
          else fst (refresh key (representations s key) (refresh_start key s))
      | None \<Rightarrow> fst (refresh key (representations s key) (refresh_start key s)))"

lemma load_refresh_outcome:
  "\<exists>t. load_refresh refresh now inst key (representations s key) s =
     result_or_stale (ro_result (outcome_of refresh inst key s)) (representations s key) now t"
  by (auto simp: load_refresh_eq outcome_of_def case_prod_unfold Let_def split: option.splits)

lemma load_Ok:
  assumes "CacheStore_load U P refresh now inst key s = (Ok rep, s')"
  shows "(\<exists>request h. cache_request U P key = Ok request \<and> representations s key = Some rep \<and>
            now - rep_stored_at rep < secs 86400 \<and> pol_before_request P (rep_policy rep) request now = Fresh h) \<or>
    ro_result (outcome_of refresh inst key s) = Ok rep \<or>
    (\<exists>e d. ro_result (outcome_of refresh inst key s) = Err e \<and> allows_stale e \<and>
       representations s key = Some rep \<and> rep_stale_if_error rep = Some d \<and>
       rep_stored_at rep \<le> now \<and> now - rep_stored_at rep \<le> rep_fresh_for rep + d)"
proof -
  from assms obtain request where q: "cache_request U P key = Ok request"
    by (auto simp: CacheStore_load_def split: res.splits)
  show ?thesis
  proof (cases "\<exists>old. representations s key = Some old \<and> fresh_request P old request now \<noteq> None")
    case True
    with assms q have "representations s key = Some rep" "fresh_request P rep request now \<noteq> None"
      by (auto simp: CacheStore_load_def)
    with q show ?thesis by (auto simp: fresh_request_Some MAX_FRESHNESS_def simp del: not_None_eq)
  next
    case False
    with assms q have "load_refresh refresh now inst key (representations s key) s = (Ok rep, s')"
      by (auto simp: CacheStore_load_def split: option.splits)
    then obtain t where
      "result_or_stale (ro_result (outcome_of refresh inst key s)) (representations s key) now t = (Ok rep, s')"
      using load_refresh_outcome [of refresh now inst key s] by metis
    from result_or_stale_Ok [OF this] show ?thesis
      by (auto simp: stale_allowed_after_error_def split: option.splits)
  qed
qed

text \<open>How a load changes the store: not at all but for the event count, or by one refresh and its record.\<close>

lemma result_or_stale_events: "\<exists>evs. snd (result_or_stale result previous now s) = s\<lparr>cache_events := evs\<rparr>"
proof -
  have "\<exists>evs. s = s\<lparr>cache_events := evs\<rparr>" by (rule exI [of _ "cache_events s"]) simp
  then show ?thesis by (auto simp: result_or_stale_def cache_event_def split: res.splits option.splits)
qed

lemma load_state:
  fixes s :: "('u, 'p, 'z) CacheStore_scheme" and refresh :: "('u, 'p, 'z) refresh_fn" and key :: "'u ResourceKey"
  defines "r \<equiv> refresh key (representations s key) (refresh_start key s)"
  obtains (kept) evs where "snd (CacheStore_load U P refresh now inst key s) = s\<lparr>cache_events := evs\<rparr>"
    | (refreshed) evs where "snd (CacheStore_load U P refresh now inst key s) =
        snd r\<lparr>refreshes := (refreshes (snd r))(key \<mapsto> fst r), cache_events := evs\<rparr>"
proof -
  have same: "\<exists>evs. s = s\<lparr>cache_events := evs\<rparr>" by (rule exI [of _ "cache_events s"]) simp
  have "(\<exists>evs. snd (CacheStore_load U P refresh now inst key s) = s\<lparr>cache_events := evs\<rparr>) \<or>
    (\<exists>evs. snd (CacheStore_load U P refresh now inst key s) =
        snd r\<lparr>refreshes := (refreshes (snd r))(key \<mapsto> fst r), cache_events := evs\<rparr>)"
  proof (cases "snd (CacheStore_load U P refresh now inst key s) =
      snd (load_refresh refresh now inst key (representations s key) s)")
    case True
    show ?thesis
      unfolding True load_refresh_eq r_def
      using result_or_stale_events [of _ "representations s key" now]
      by (auto simp: case_prod_unfold Let_def split: option.split)
  next
    case False
    with same show ?thesis
      by (auto simp: CacheStore_load_def cache_event_def split: res.splits option.splits if_splits)
  qed
  then show thesis using that by blast
qed

section \<open>The contract of a refresh\<close>

text \<open>
  The store keeps representations that are valid for their key. The locale states what a refresh must
  keep for that; inside it a load keeps it too and only returns valid representations.
\<close>

definition cache_inv ::
  "('u ResourceKey \<Rightarrow> ('u, 'p) Representation \<Rightarrow> bool) \<Rightarrow> ('u, 'p, 'z) CacheStore_scheme \<Rightarrow> bool" where
  "cache_inv valid s \<longleftrightarrow>
     (\<forall>key rep. representations s key = Some rep \<longrightarrow> valid key rep) \<and>
     (\<forall>key out rep. refreshes s key = Some out \<and> ro_result out = Ok rep \<longrightarrow> valid key rep)"

lemma cache_inv_events [simp]: "cache_inv valid (cache_event e s) = cache_inv valid s"
  by (simp add: cache_inv_def cache_event_def)

lemma cache_inv_result_or_stale [simp]:
  "cache_inv valid (snd (result_or_stale result previous now s)) = cache_inv valid s"
  by (simp add: cache_inv_def result_or_stale_state)

lemma cache_inv_start: "cache_inv valid s \<Longrightarrow> cache_inv valid (refresh_start key s)"
  by (auto simp: cache_inv_def refresh_start_def)

lemma publish_refreshes [simp]: "refreshes (publish P key rep s) = refreshes s"
  by (simp add: publish_def)

lemma cache_inv_publish: "cache_inv valid s \<Longrightarrow> valid key rep \<Longrightarrow> cache_inv valid (publish P key rep s)"
  by (auto simp: cache_inv_def publish_def)

locale refresher =
  fixes refresh :: "('u, 'p, 'z) refresh_fn"
    and valid :: "'u ResourceKey \<Rightarrow> ('u, 'p) Representation \<Rightarrow> bool"
  assumes refresh_keeps:
    "cache_inv valid s \<Longrightarrow> (\<And>old. previous = Some old \<Longrightarrow> valid key old) \<Longrightarrow>
     cache_inv valid (snd (refresh key previous s))"
    and refresh_valid:
    "(\<And>old. previous = Some old \<Longrightarrow> valid key old) \<Longrightarrow>
     ro_result (fst (refresh key previous s)) = Ok rep \<Longrightarrow> valid key rep"
begin

lemma outcome_valid:
  assumes "cache_inv valid s" and "ro_result (outcome_of refresh inst key s) = Ok rep"
  shows "valid key rep"
proof -
  have "valid key rep" if "ro_result (fst (refresh key (representations s key) (refresh_start key s))) = Ok rep"
    using _ that by (rule refresh_valid) (use assms(1) in \<open>auto simp: cache_inv_def\<close>)
  with assms show ?thesis by (auto simp: outcome_of_def cache_inv_def split: option.splits if_splits)
qed

lemma load_refresh_keeps:
  assumes "cache_inv valid s"
  shows "cache_inv valid (snd (load_refresh refresh now inst key (representations s key) s))"
proof -
  let ?o = "fst (refresh key (representations s key) (refresh_start key s))"
  let ?t = "snd (refresh key (representations s key) (refresh_start key s))"
  have v: "\<And>old. representations s key = Some old \<Longrightarrow> valid key old"
    using assms by (auto simp: cache_inv_def)
  have "cache_inv valid ?t" using refresh_keeps [OF cache_inv_start [OF assms] v] .
  with refresh_valid [OF v] have "cache_inv valid (?t\<lparr>refreshes := (refreshes ?t)(key \<mapsto> ?o)\<rparr>)"
    by (auto simp: cache_inv_def)
  with assms show ?thesis by (auto simp: load_refresh_eq Let_def case_prod_unfold split: option.splits)
qed

lemma load_keeps:
  assumes "cache_inv valid s"
  shows "cache_inv valid (snd (CacheStore_load U P refresh now inst key s))"
  using assms load_refresh_keeps [OF assms, of now inst key]
  by (auto simp: CacheStore_load_def split: res.splits option.splits)

lemma load_valid:
  assumes "cache_inv valid s" and "CacheStore_load U P refresh now inst key s = (Ok rep, s')"
  shows "valid key rep"
  using load_Ok [OF assms(2)] assms(1) outcome_valid [OF assms(1), of inst key rep]
  by (auto simp: cache_inv_def)

end

section \<open>Facts about directives\<close>

lemma directives_append: "directives f (a @ b) = directives f a @ directives f b"
  by (simp add: directives_def hm_get_all_def List.map_filter_def)

lemma max_age_directive:
  assumes "f ''max-age=300'' = Some ''max-age=300''"
  shows "directives f [(''cache-control'', ''max-age=300'')] = [''max-age=300'']"
  using assms by (simp add: directives_def hm_get_all_def List.map_filter_def split_on_no_sep)

lemma is_freshness_default: "is_freshness (str_trim ''max-age=300'')"
proof -
  have "str_trim ''max-age=300'' = ''max-age=300''" "trim_quotes ''300'' = ''300''"
    "str_trim ''max-age'' = ''max-age''" "str_trim ''300'' = ''300''"
    by (simp_all add: str_trim_def trim_quotes_def trim_by_def byte_val_def)
  moreover have "parse_unsigned 64 ''300'' = Some 300"
    by (simp add: parse_unsigned_def is_digit_def digits_value_def byte_val_def)
  ultimately show ?thesis by (simp add: is_freshness_def eq_ignore_ascii_case_def)
qed

text \<open>A response says how long it lasts, or that it must not be stored.\<close>

definition explicit_lifetime ::
  "(string \<Rightarrow> string option) \<Rightarrow> (string \<Rightarrow> duration option) \<Rightarrow> HeaderMap \<Rightarrow> bool" where
  "explicit_lifetime to_str date headers \<longleftrightarrow>
     (\<exists>d \<in> set (directives to_str headers). eq_ignore_ascii_case (str_trim d) ''no-store'' \<or> is_freshness (str_trim d)) \<or>
     (\<exists>v t. map_of headers ''expires'' = Some v \<and> to_str v = Some t \<and> date t \<noteq> None)"

lemma apply_default_freshness_eq:
  "apply_default_freshness f g hs =
     (if explicit_lifetime f g hs then hs else hs @ [(''cache-control'', ''max-age=300'')])"
  by (auto simp: apply_default_freshness_def explicit_lifetime_def Let_def list_ex_iff
      split: option.splits bind_splits)

lemma find_map_Some: "find_map f xs = Some y \<Longrightarrow> \<exists>x \<in> set xs. f x = Some y"
  by (induction xs) (auto split: option.splits)

lemma MAX_FRESHNESS_secs [simp]: "MAX_FRESHNESS div secs (Suc 0) = 86400"
  by (simp add: MAX_FRESHNESS_def secs_def)

lemma parse_stale_if_error_bound: "parse_stale_if_error f hs = Some d \<Longrightarrow> d \<le> MAX_FRESHNESS"
  by (auto simp: parse_stale_if_error_def Let_def split: if_splits) (simp add: MAX_FRESHNESS_def)

section \<open>Properties\<close>

text \<open>
  C21. What a load answers with: the stored representation when its policy calls it fresh and it was stored
  less than a day ago; or the result of the refresh outcome in force; or, after an error of a class that
  allows it, the stored representation while its age is within its freshness plus the stale-if-error
  time the origin granted. Nothing else is ever served.
\<close>

theorem load_answers:
  assumes "CacheStore_load U P refresh now inst key s = (Ok rep, s')"
  shows "(\<exists>request h. cache_request U P key = Ok request \<and> representations s key = Some rep \<and>
            now - rep_stored_at rep < secs 86400 \<and> pol_before_request P (rep_policy rep) request now = Fresh h) \<or>
    ro_result (outcome_of refresh inst key s) = Ok rep \<or>
    (\<exists>e d. ro_result (outcome_of refresh inst key s) = Err e \<and> allows_stale e \<and>
       representations s key = Some rep \<and> rep_stale_if_error rep = Some d \<and>
       rep_stored_at rep \<le> now \<and> now - rep_stored_at rep \<le> rep_fresh_for rep + d)"
  using load_Ok [OF assms] .

text \<open>
  Every stored response has an explicit lifetime: one that names none and does not forbid storing gets
  \<open>max-age=300\<close> appended, any other is left as it is, and applying the default twice is applying it once.
\<close>

lemma default_freshness:
  assumes "to_str ''max-age=300'' = Some ''max-age=300''"
  shows "explicit_lifetime to_str date (apply_default_freshness to_str date headers) \<and>
    apply_default_freshness to_str date headers =
      (if explicit_lifetime to_str date headers then headers
       else headers @ [(''cache-control'', ''max-age=300'')]) \<and>
    apply_default_freshness to_str date (apply_default_freshness to_str date headers) =
      apply_default_freshness to_str date headers"
proof -
  have "explicit_lifetime to_str date (headers @ [(''cache-control'', ''max-age=300'')])"
    using is_freshness_default
    by (auto simp: explicit_lifetime_def directives_append max_age_directive [of to_str, OF assms])
  then show ?thesis by (simp add: apply_default_freshness_eq)
qed

text \<open>
  How long an origin lets a stored resource survive errors: \<open>must-revalidate\<close> anywhere in the
  \<open>Cache-Control\<close> values switches it off, otherwise it is the first readable \<open>stale-if-error\<close> directive,
  cut to one day.
\<close>

lemma stale_if_error_window:
  "parse_stale_if_error to_str headers =
     (if \<exists>d \<in> set (directives to_str headers). eq_ignore_ascii_case (str_trim d) ''must-revalidate'' then None
      else map_option (\<lambda>n. min (secs n) (secs 86400)) (find_map stale_directive (directives to_str headers)))"
  by (auto simp: parse_stale_if_error_def Let_def list_ex_iff)

text \<open>
  C31. A \<open>304\<close> response that carries \<open>must-revalidate\<close> does not switch the fallback off: the window of the
  previous representation stays in force.
\<close>

theorem not_modified_keeps_window:
  assumes "resp_status response = 304"
    and "\<exists>d \<in> set (directives (dec_to_str D) (resp_headers response)). eq_ignore_ascii_case (str_trim d) ''must-revalidate''"
    and "pol_after_response P (rep_policy old) request
           \<lparr>cp_status = 304, cp_headers = resp_headers response\<rparr> now = NotModified policy"
  shows "\<exists>rep. representation_from_response U P D now key request (Some old) response max_keys = Ok rep \<and>
    rep_resource rep = rep_resource old \<and> rep_stored_at rep = now \<and>
    rep_stale_if_error rep = rep_stale_if_error old"
proof -
  have "parse_stale_if_error (dec_to_str D) (resp_headers response) = None"
    using assms(2) by (auto simp: parse_stale_if_error_def list_ex_iff)
  with assms(1,3) show ?thesis
    by (simp add: representation_from_response_def response_from_fetch_def ok_or_def)
qed

text \<open>A policy that keeps everything for an hour, for the examples.\<close>

definition hour_policy :: "nat policy_api" where
  "hour_policy =
     \<lparr>pol_uri = (\<lambda>_. True), pol_new = (\<lambda>_ _ now. now), pol_is_storable = (\<lambda>_. True),
      pol_before_request = (\<lambda>stored q now. if now < stored + secs 3600 then Fresh (cr_headers q) else Stale (cr_headers q)),
      pol_after_response = (\<lambda>_ _ _ now. NotModified now), pol_time_to_live = (\<lambda>_ _. secs 3600)\<rparr>"

definition sample_decode :: decode_api where
  "sample_decode = \<lparr>dec_to_str = Some, dec_http_date = (\<lambda>_. None), dec_crypto = sample_crypto, dec_json = sample_json\<rparr>"

definition sample_keys :: "plain_url ParsedResource" where
  "sample_keys = ParsedResource.Jwks [\<lparr>entry_jwk = Ed25519Jwk_new ''k'', entry_kid = None\<rparr>]"

definition sample_rep :: "(plain_url, nat) Representation" where
  "sample_rep = \<lparr>rep_resource = sample_keys, rep_policy = 0, rep_stored_at = 0, rep_fresh_for = secs 3600,
     rep_stale_if_error = Some (secs 60)\<rparr>"

definition sample_key :: "plain_url ResourceKey" where
  "sample_key = \<lparr>rk_url = sample_keys_url, rk_kind = ResourceKind.Jwks\<rparr>"

definition sample_cache :: "(plain_url, nat) CacheStore" where
  "sample_cache = CacheStore_new\<lparr>representations := [sample_key \<mapsto> sample_rep]\<rparr>"

text \<open>A refresh that always times out.\<close>

definition timing_out :: "(plain_url, nat, unit) refresh_fn" where
  "timing_out key previous s = (\<lparr>ro_result = Err (FetchError_new Timeout), ro_valid_until = 0\<rparr>, s)"

lemma stale_sample:
  "\<exists>t. CacheStore_load plain_url_api hour_policy timing_out (secs 3650) 0 sample_key sample_cache = (Ok sample_rep, t)"
  by (simp add: CacheStore_load_def cache_request_def hour_policy_def sample_cache_def CacheStore_new_def
      fresh_request_def sample_rep_def MAX_FRESHNESS_def secs_def load_refresh_eq refresh_start_def
      timing_out_def result_or_stale_def allows_stale_def FetchError_class_def FetchError_new_def
      stale_allowed_after_error_def DURATION_MAX_def)

theorem load_answers_witness:
  "rep_stored_at sample_rep \<le> secs 3650 \<and> secs 3650 - rep_stored_at sample_rep \<le> rep_fresh_for sample_rep + secs 60"
proof -
  obtain t where t: "CacheStore_load plain_url_api hour_policy timing_out (secs 3650) 0 sample_key sample_cache = (Ok sample_rep, t)"
    using stale_sample by blast
  have o: "ro_result (outcome_of timing_out 0 sample_key sample_cache) = Err (FetchError_new Timeout)"
    by (simp add: outcome_of_def sample_cache_def CacheStore_new_def timing_out_def)
  have "pol_before_request hour_policy (rep_policy sample_rep) q (secs 3650) = Stale (cr_headers q)" for q
    by (simp add: hour_policy_def sample_rep_def secs_def)
  with load_answers [OF t] o show ?thesis by (auto simp: sample_rep_def)
qed

theorem not_modified_keeps_window_witness:
  "\<exists>rep. representation_from_response plain_url_api hour_policy sample_decode 7 sample_key
       \<lparr>cr_uri = [], cr_headers = []\<rparr> (Some sample_rep)
       \<lparr>resp_status = 304, resp_headers = [(''cache-control'', ''must-revalidate'')], resp_body = []\<rparr> 32 = Ok rep \<and>
     rep_stale_if_error rep = Some (secs 60)"
proof -
  let ?r = "\<lparr>resp_status = 304, resp_headers = [(''cache-control'', ''must-revalidate'')], resp_body = []\<rparr>"
  have "directives (dec_to_str sample_decode) (resp_headers ?r) = [''must-revalidate'']"
    by (simp add: directives_def sample_decode_def hm_get_all_def List.map_filter_def split_on_no_sep)
  moreover have "eq_ignore_ascii_case (str_trim ''must-revalidate'') ''must-revalidate''" by code_simp
  ultimately have "\<exists>d \<in> set (directives (dec_to_str sample_decode) (resp_headers ?r)).
      eq_ignore_ascii_case (str_trim d) ''must-revalidate''"
    by simp
  from not_modified_keeps_window [OF _ this, of hour_policy sample_rep _ 7 7 plain_url_api sample_key 32]
  show ?thesis by (fastforce simp: hour_policy_def sample_rep_def)
qed

end
