(* ===== verification/Metrics.thy ===== *)
theory Metrics
  imports Fetch
begin

text \<open>
  The resolver's metrics, \<open>crates/resolver/src/metrics.rs\<close>: the instruments with what was recorded, their
  labels, the histogram view and the exporter settings. Aggregation and export belong to the telemetry
  library.
\<close>

section \<open>Instruments\<close>

text \<open>What a counter or a histogram has recorded, by its one attribute.\<close>

type_synonym attribute = "string \<times> string"

record counter =
  ct_name :: string
  ct_description :: string
  ct_unit :: string
  ct_count :: "attribute \<Rightarrow> nat"

record histogram =
  hg_name :: string
  hg_description :: string
  hg_unit :: string
  hg_points :: "(attribute \<times> duration) list"

definition RESOLUTION_DURATION_METRIC :: string where
  "RESOLUTION_DURATION_METRIC = ''web_bot_auth.resolver.resolution.duration''"
definition FETCH_DURATION_METRIC :: string where
  "FETCH_DURATION_METRIC = ''web_bot_auth.resolver.fetch.duration''"

text \<open>The bucket boundaries in nanoseconds.\<close>

definition RESOLVER_DURATION_BUCKETS :: "duration list" where
  "RESOLVER_DURATION_BUCKETS =
     [25000, 50000, 100000, 250000, 500000, 1000000, 2500000, 5000000, 10000000, 25000000, 50000000, 100000000,
      250000000, 500000000, 1000000000, 1800000000, 2000000000]"

record Metrics =
  mt_resolution_results :: counter
  mt_resolution_duration :: histogram
  mt_cache_events :: counter
  mt_fetch_results :: counter
  mt_fetch_duration :: histogram

definition Metrics_new :: Metrics where
  "Metrics_new =
     \<lparr>mt_resolution_results =
        \<lparr>ct_name = ''web_bot_auth.resolver.resolutions'', ct_description = ''Completed resolver requests by result'',
         ct_unit = ''{request}'', ct_count = (\<lambda>_. 0)\<rparr>,
      mt_resolution_duration =
        \<lparr>hg_name = RESOLUTION_DURATION_METRIC, hg_description = ''Resolver request duration'', hg_unit = ''s'',
         hg_points = []\<rparr>,
      mt_cache_events =
        \<lparr>ct_name = ''web_bot_auth.resolver.cache.events'',
         ct_description = ''Resource cache events. Refresh events record refresh starts'', ct_unit = ''{event}'',
         ct_count = (\<lambda>_. 0)\<rparr>,
      mt_fetch_results =
        \<lparr>ct_name = ''web_bot_auth.resolver.fetches'', ct_description = ''Completed outbound resource fetches by result'',
         ct_unit = ''{fetch}'', ct_count = (\<lambda>_. 0)\<rparr>,
      mt_fetch_duration =
        \<lparr>hg_name = FETCH_DURATION_METRIC, hg_description = ''Outbound resource fetch duration'', hg_unit = ''s'',
         hg_points = []\<rparr>\<rparr>"

definition counter_add :: "nat \<Rightarrow> attribute \<Rightarrow> counter \<Rightarrow> counter" where
  "counter_add n a c = c\<lparr>ct_count := (ct_count c)(a := ct_count c a + n)\<rparr>"

definition histogram_record :: "duration \<Rightarrow> attribute \<Rightarrow> histogram \<Rightarrow> histogram" where
  "histogram_record d a h = h\<lparr>hg_points := hg_points h @ [(a, d)]\<rparr>"

definition Metrics_resolution :: "string \<Rightarrow> duration \<Rightarrow> Metrics \<Rightarrow> Metrics" where
  "Metrics_resolution result d m =
     m\<lparr>mt_resolution_results := counter_add 1 (''result'', result) (mt_resolution_results m),
       mt_resolution_duration := histogram_record d (''result'', result) (mt_resolution_duration m)\<rparr>"

definition Metrics_cache_event :: "string \<Rightarrow> Metrics \<Rightarrow> Metrics" where
  "Metrics_cache_event event m = m\<lparr>mt_cache_events := counter_add 1 (''event'', event) (mt_cache_events m)\<rparr>"

definition Metrics_fetch :: "string \<Rightarrow> duration \<Rightarrow> Metrics \<Rightarrow> Metrics" where
  "Metrics_fetch result d m =
     m\<lparr>mt_fetch_results := counter_add 1 (''result'', result) (mt_fetch_results m),
       mt_fetch_duration := histogram_record d (''result'', result) (mt_fetch_duration m)\<rparr>"

text \<open>The explicit boundaries for the two duration histograms; other instruments keep their defaults.\<close>

definition resolver_duration_histogram_view :: "string \<Rightarrow> duration list option" where
  "resolver_duration_histogram_view instrument =
     (if instrument \<in> {RESOLUTION_DURATION_METRIC, FETCH_DURATION_METRIC}
      then Some RESOLVER_DURATION_BUCKETS else None)"

section \<open>Labels and exporter\<close>

definition resolution_result :: "(ResolveResponse, FetchError) res \<Rightarrow> string" where
  "resolution_result result =
     (case result of
        Ok (Resolved _ _) \<Rightarrow> ''resolved''
      | Ok (KeyNotFound _) \<Rightarrow> ''key_not_found''
      | Err error \<Rightarrow> FetchErrorKind_as_str (err_kind error)
      | Panic \<Rightarrow> [])"

definition fetch_result :: "(unit, FetchErrorKind) res \<Rightarrow> string" where
  "fetch_result result =
     (case result of Ok _ \<Rightarrow> ''ok'' | Err kind \<Rightarrow> FetchErrorKind_as_str kind | Panic \<Rightarrow> [])"

text \<open>The environment is a map of the variables whose values are Unicode.\<close>

definition exporter_endpoint_from_env :: "(string \<rightharpoonup> string) \<Rightarrow> string option" where
  "exporter_endpoint_from_env env =
     (let pick = (\<lambda>name. case env name of
                           Some value \<Rightarrow> if str_trim value \<noteq> [] then Some value else None
                         | None \<Rightarrow> None)
      in case pick ''OTEL_EXPORTER_OTLP_METRICS_ENDPOINT'' of
           Some value \<Rightarrow> Some value
         | None \<Rightarrow> pick ''OTEL_EXPORTER_OTLP_ENDPOINT'')"

definition export_interval_from_env :: "(string \<rightharpoonup> string) \<Rightarrow> duration" where
  "export_interval_from_env env =
     (case Option.bind (env ''OTEL_METRIC_EXPORT_INTERVAL'') (parse_unsigned 64) of
        Some milliseconds \<Rightarrow> if milliseconds > 0 then millis milliseconds else secs 5
      | None \<Rightarrow> secs 5)"

datatype MetricsExporterState = Disabled | Enabled | InvalidEndpoint

text \<open>\<open>build\<close> says whether the exporter library accepts an endpoint.\<close>

definition initialize_metrics_exporter ::
  "(string \<Rightarrow> bool) \<Rightarrow> (string \<rightharpoonup> string) \<Rightarrow> MetricsExporterState \<times> duration option" where
  "initialize_metrics_exporter build env =
     (case exporter_endpoint_from_env env of
        None \<Rightarrow> (Disabled, None)
      | Some endpoint \<Rightarrow>
          if build endpoint then (Enabled, Some (export_interval_from_env env)) else (InvalidEndpoint, None))"

section \<open>Facts\<close>

lemma count_list_snoc: "count_list (xs @ [y]) x = count_list xs x + (if y = x then 1 else 0)"
  by (induction xs) auto

lemma count_list_pos [simp]: "0 < count_list xs x \<longleftrightarrow> x \<in> set xs"
  by (induction xs) auto

text \<open>The counters are the histories counted.\<close>

lemma cache_event_counts:
  "ct_count (mt_cache_events (fold Metrics_cache_event events m)) (k, e) =
     ct_count (mt_cache_events m) (k, e) + (if k = ''event'' then count_list events e else 0)"
  "mt_fetch_results (fold Metrics_cache_event events m) = mt_fetch_results m"
  "mt_fetch_duration (fold Metrics_cache_event events m) = mt_fetch_duration m"
  by (induction events arbitrary: m) (auto simp: Metrics_cache_event_def counter_add_def)

definition record_fetches :: "(string \<times> duration) list \<Rightarrow> Metrics \<Rightarrow> Metrics" where
  "record_fetches = fold (\<lambda>(label, d). Metrics_fetch label d)"

lemma fetch_counts:
  "ct_count (mt_fetch_results (record_fetches fetches m)) (k, label) =
     ct_count (mt_fetch_results m) (k, label) + (if k = ''result'' then count_list (map fst fetches) label else 0)"
  "length (hg_points (mt_fetch_duration (record_fetches fetches m))) =
     length (hg_points (mt_fetch_duration m)) + length fetches"
  "mt_cache_events (record_fetches fetches m) = mt_cache_events m"
  unfolding record_fetches_def
  by (induction fetches arbitrary: m) (auto simp: Metrics_fetch_def counter_add_def histogram_record_def)

lemma Metrics_new_empty [simp]:
  "ct_count (mt_cache_events Metrics_new) a = 0" "ct_count (mt_fetch_results Metrics_new) a = 0"
  "hg_points (mt_fetch_duration Metrics_new) = []"
  by (simp_all add: Metrics_new_def)

text \<open>The boundaries increase strictly, are few, and the deadline is one of them.\<close>

lemma duration_buckets:
  "sorted_wrt (<) RESOLVER_DURATION_BUCKETS" "millis 1800 \<in> set RESOLVER_DURATION_BUCKETS"
  "length RESOLVER_DURATION_BUCKETS \<le> 20"
  by (simp_all add: RESOLVER_DURATION_BUCKETS_def millis_def)

definition cache_labels :: "string list" where
  "cache_labels = [''fresh_hit'', ''refresh'', ''stale_on_error'', ''error'']"

definition fetch_labels :: "string list" where
  "fetch_labels = ''ok'' # map FetchErrorKind_as_str
     [BadRequest, Dns, UnsafeAddress, RateLimited, Overloaded, FetchErrorKind.CircuitOpen, Timeout, Transport,
      HttpStatus, MediaType, ContentEncoding, BodyTooLarge, InvalidResource]"

lemma fetch_result_label: "r \<noteq> Panic \<Longrightarrow> fetch_result r \<in> set fetch_labels"
proof -
  have k: "FetchErrorKind_as_str kind \<in> set fetch_labels" for kind
    by (cases kind) (simp_all add: fetch_labels_def)
  assume "r \<noteq> Panic"
  with k show ?thesis by (cases r) (simp_all add: fetch_result_def, simp add: fetch_labels_def)
qed

end
