(* ===== verification/Fixture.thy ===== *)
theory Fixture
  imports Resource
begin

text \<open>
  The deterministic transport of the integration tests, \<open>crates/resolver/src/fixture.rs\<close>: an
  implementation of the DNS and HTTP traits with no network. It is a part of the program and at the same
  time a concrete instance of the loader's parameters.
\<close>

definition FIXTURE_AGENT_URL :: string where "FIXTURE_AGENT_URL = ''https://fixture.web-bot-auth.test''"
definition FIXTURE_AGENT_B_URL :: string where "FIXTURE_AGENT_B_URL = ''https://fixture-b.web-bot-auth.test''"
definition FIXTURE_HOST :: string where "FIXTURE_HOST = ''fixture.web-bot-auth.test''"
definition FIXTURE_B_HOST :: string where "FIXTURE_B_HOST = ''fixture-b.web-bot-auth.test''"
definition AGENT_A_X :: string where "AGENT_A_X = ''HeASB7bZRkoeg6vmjyELll2w181pbxHrCaCjIoBWtdo''"
definition AGENT_B_X :: string where "AGENT_B_X = ''BPGSJ5ZwWg-DHPYthdEJqbGMINULnW91nGkytUXlW4s''"

datatype FixtureMode = HealthyV1 | RotatedV2 | Malformed | Unavailable | Delayed

fun FixtureMode_as_str :: "FixtureMode \<Rightarrow> string" where
  "FixtureMode_as_str HealthyV1 = ''healthy_v1''"
| "FixtureMode_as_str RotatedV2 = ''rotated_v2''"
| "FixtureMode_as_str Malformed = ''malformed''"
| "FixtureMode_as_str Unavailable = ''unavailable''"
| "FixtureMode_as_str Delayed = ''delayed''"

record FixtureTransport =
  ft_mode :: FixtureMode

definition FixtureTransport_new :: FixtureTransport where
  "FixtureTransport_new = \<lparr>ft_mode = HealthyV1\<rparr>"

definition set_mode :: "FixtureMode \<Rightarrow> FixtureTransport \<Rightarrow> FixtureTransport" where
  "set_mode mode self = self\<lparr>ft_mode := mode\<rparr>"

definition FixtureTransport_default :: FixtureTransport where
  "FixtureTransport_default = FixtureTransport_new"

definition FixtureTransport_mode :: "FixtureTransport \<Rightarrow> FixtureMode" where
  "FixtureTransport_mode self = ft_mode self"

definition fixture_x :: "'u url_api \<Rightarrow> 'u \<Rightarrow> FixtureMode \<Rightarrow> string" where
  "fixture_x U url mode =
     (if url_host_str U url = Some FIXTURE_B_HOST then AGENT_B_X
      else if mode = RotatedV2 then AGENT_B_X else AGENT_A_X)"

definition fixture_body ::
  "'u url_api \<Rightarrow> crypto_api \<Rightarrow> 'u FetchRequest \<Rightarrow> FixtureMode \<Rightarrow> string" where
  "fixture_body U C request mode =
     (let x = fixture_x U (fr_url request) mode;
          agent_url = (if url_host_str U (fr_url request) = Some FIXTURE_B_HOST
                       then FIXTURE_AGENT_B_URL else FIXTURE_AGENT_URL)
      in case fr_kind request of
           ResourceKind.Jwks \<Rightarrow>
             let kid = (if url_path U (fr_url request) = ''/.well-known/http-message-signatures-directory''
                        then '', \"kid\":\"'' @ b64_thumbprint C (Ed25519Jwk_new x) @ ''\"'' else [])
             in ''{\"keys\":[{\"kty\":\"OKP\",\"crv\":\"Ed25519\"'' @ kid @ '',\"x\":\"'' @ x @ ''\"}]}''
         | ResourceKind.Cimd \<Rightarrow>
             ''{\"client_id\":\"'' @ url_as_str U (fr_url request) @ ''\",\"jwks_uri\":\"'' @ agent_url @ ''/jwks\"}'')"

definition fixture_content_type :: "'u url_api \<Rightarrow> 'u FetchRequest \<Rightarrow> string" where
  "fixture_content_type U request =
     (case fr_kind request of
        ResourceKind.Jwks \<Rightarrow>
          if url_path U (fr_url request) = ''/.well-known/http-message-signatures-directory''
          then ''application/http-message-signatures-directory+json'' else ''application/jwk-set+json''
      | ResourceKind.Cimd \<Rightarrow> ''application/json'')"

definition fixture_response ::
  "'u url_api \<Rightarrow> crypto_api \<Rightarrow> 'u FetchRequest \<Rightarrow> FixtureMode \<Rightarrow> (FetchResponse, FetchError) res" where
  "fixture_response U C request mode =
     (if mode = Unavailable then Err (FetchError_new Transport)
      else Ok \<lparr>resp_status = 200,
               resp_headers = [(''content-type'', fixture_content_type U request), (''cache-control'', ''no-cache'')],
               resp_body = (if mode = Malformed then ''{not-json'' else fixture_body U C request mode)\<rparr>)"

definition fixture_resolve :: "string \<Rightarrow> nat \<Rightarrow> (IpAddr list, FetchError) res" where
  "fixture_resolve host port =
     (if host \<noteq> FIXTURE_HOST \<and> host \<noteq> FIXTURE_B_HOST then Err (FetchError_new Dns)
      else Ok [V4 (ipv4 8 8 8 8)])"

text \<open>The answer and the time it takes.\<close>

definition fixture_fetch ::
  "'u url_api \<Rightarrow> crypto_api \<Rightarrow> FixtureTransport \<Rightarrow> 'u FetchRequest \<Rightarrow>
   (FetchResponse, FetchError) res \<times> duration" where
  "fixture_fetch U C self request =
     (if url_host_str U (fr_url request) \<notin> {Some FIXTURE_HOST, Some FIXTURE_B_HOST}
      then (Err (FetchError_new Transport), 0)
      else (fixture_response U C request (ft_mode self), if ft_mode self = Delayed then secs 2 else 0))"

section \<open>Facts\<close>

lemma fixture_address_reachable: "globally_reachable prefix_ipnet (V4 (ipv4 8 8 8 8))"
  by (simp add: globally_reachable_v4_octets [OF ipnet_laws_prefix] octets_def unat_ipv4)

lemma fixture_resolve_reachable:
  "fixture_resolve host port = Ok answer \<Longrightarrow> list_all (globally_reachable prefix_ipnet) answer"
  using fixture_address_reachable by (auto simp: fixture_resolve_def simp del: globally_reachable.simps split: if_splits)

lemma fixture_not_Panic: "fixture_resolve host port \<noteq> Panic" "fst (fixture_fetch U C self request) \<noteq> Panic"
  by (simp_all add: fixture_resolve_def fixture_fetch_def fixture_response_def)

end
