(* ===== verification/Loader.thy ===== *)
theory Loader
  imports Cache Metrics Fixture
begin

text \<open>
  The loader, \<open>crates/resolver/src/loader.rs\<close>: a refresh goes through the circuit breaker, the destination
  policy, the fetch permits and limiters, DNS, the address policy and the HTTP client, and publishes what it
  parsed. DNS and the HTTP client are trait objects, so they are parameters here.
\<close>

section \<open>Environment and state\<close>

text \<open>
  What a loader is built from. DNS answers and responses change over time: both take the moment of the
  call.
\<close>

record ('u, 'p, 'l) ResourceLoader =
  rl_urls :: "'u url_api"
  rl_policy :: "'p policy_api"
  rl_decode :: decode_api
  rl_limiter :: "'l limiter_api"
  rl_ipnet :: ipnet_api
  rl_dns :: "nat \<Rightarrow> string \<Rightarrow> nat \<Rightarrow> (IpAddr list, FetchError) res"
  rl_http :: "nat \<Rightarrow> 'u FetchRequest \<Rightarrow> (FetchResponse, FetchError) res"
  rl_destination :: DestinationPolicy
  rl_max_keys :: nat

text \<open>\<open>ProductionDns\<close> over the system's \<open>lookup_host\<close>, which answers socket addresses.\<close>

definition ProductionDns_resolve ::
  "(string \<Rightarrow> nat \<Rightarrow> (IpAddr \<times> nat) list option) \<Rightarrow> string \<Rightarrow> nat \<Rightarrow> (IpAddr list, FetchError) res" where
  "ProductionDns_resolve lookup_host host port =
     (case lookup_host host port of
        Some addresses \<Rightarrow> Ok (map fst addresses)
      | None \<Rightarrow> Err (FetchError_new Dns))"

text \<open>
  What changes: the cache, the controls, the fetch metric and, as history, the requests handed to the
  HTTP client.
\<close>

record ('u, 'p, 'l) Loader_state = "('u, 'p) CacheStore" +
  ld_controls :: "('l, 'u ResourceKey) WorkControls"
  ld_fetch_results :: "string list"
  ld_sent :: "'u FetchRequest list"

text \<open>The clock readings of one refresh, in the order of the code.\<close>

record refresh_times =
  t_circuit :: nat
  t_begin :: nat
  t_dns :: nat
  t_ip :: nat
  t_headers :: nat
  t_http :: nat
  t_represent :: nat
  t_after :: nat
  t_end :: nat

section \<open>Sequencing\<close>

text \<open>Steps that change the state and may fail, in sequence: the question mark of the code.\<close>

type_synonym ('a, 's) stateful = "'s \<Rightarrow> ('a, FetchError) res \<times> 's"

definition st_bind :: "('a, 's) stateful \<Rightarrow> ('a \<Rightarrow> ('b, 's) stateful) \<Rightarrow> ('b, 's) stateful" where
  "st_bind m f s =
     (case m s of (Ok a, t) \<Rightarrow> f a t | (Err e, t) \<Rightarrow> (Err e, t) | (Panic, t) \<Rightarrow> (Panic, t))"

definition st_lift :: "('a, FetchError) res \<Rightarrow> ('a, 's) stateful" where
  "st_lift r s = (r, s)"

definition on_controls ::
  "(('l, 'u ResourceKey) WorkControls \<Rightarrow> ('a, FetchError) res \<times> ('l, 'u ResourceKey) WorkControls) \<Rightarrow>
   ('a, ('u, 'p, 'l) Loader_state) stateful" where
  "on_controls f s = (let (r, w) = f (ld_controls s) in (r, s\<lparr>ld_controls := w\<rparr>))"

text \<open>A scope that owns a permit gives it back however it is left.\<close>

definition with_permit ::
  "('a, ('u, 'p, 'l) Loader_state) stateful \<Rightarrow> ('a, ('u, 'p, 'l) Loader_state) stateful" where
  "with_permit m s = (let (r, t) = m s in (r, t\<lparr>ld_controls := release_permit (ld_controls t)\<rparr>))"

section \<open>Operations\<close>

definition ResourceLoader_new ::
  "('u, 'p, 'l) ResourceLoader \<Rightarrow> Limits \<Rightarrow> (('u, 'p, 'l) Loader_state, FetchError) res" where
  "ResourceLoader_new E limits =
     res_bind (WorkControls_new (rl_limiter E) limits) (\<lambda>w.
     Ok \<lparr>representations = Map.empty, refreshes = Map.empty, cache_events = [], ld_controls = w,
         ld_fetch_results = [], ld_sent = []\<rparr>)"

definition send_fetch ::
  "('u, 'p, 'l) ResourceLoader \<Rightarrow> refresh_times \<Rightarrow> 'u FetchRequest \<Rightarrow>
   (FetchResponse, ('u, 'p, 'l) Loader_state) stateful" where
  "send_fetch E T request s =
     (let response = rl_http E (t_http T) request;
          label = fetch_result (res_bind (map_err err_kind response) (\<lambda>_. Ok ()))
      in (response, s\<lparr>ld_sent := ld_sent s @ [request], ld_fetch_results := ld_fetch_results s @ [label]\<rparr>))"

text \<open>The request headers: those of the cached policy when something is stored, or the plain ones.\<close>

definition conditional_headers ::
  "'p policy_api \<Rightarrow> nat \<Rightarrow> ('u, 'p) Representation option \<Rightarrow> cache_req \<Rightarrow> HeaderMap" where
  "conditional_headers P now previous request =
     (case previous of
        Some old \<Rightarrow>
          (case pol_before_request P (rep_policy old) request now of Stale h \<Rightarrow> h | Fresh h \<Rightarrow> h)
      | None \<Rightarrow> cr_headers request)"

text \<open>The part of \<open>refresh_inner\<close> that holds the fetch permit.\<close>

definition refresh_fetch ::
  "('u, 'p, 'l) ResourceLoader \<Rightarrow> refresh_times \<Rightarrow> 'u ResourceKey \<Rightarrow> ('u, 'p) Representation option \<Rightarrow>
   string \<Rightarrow> nat \<Rightarrow> (('u, 'p) Representation, ('u, 'p, 'l) Loader_state) stateful" where
  "refresh_fetch E T key previous host port =
     st_bind (st_lift (rl_dns E (t_dns T) host port)) (\<lambda>addresses.
     st_bind (st_lift (map_err (\<lambda>_. FetchError_new UnsafeAddress)
                        (validate_all_addresses (rl_ipnet E) addresses))) (\<lambda>addresses.
     st_bind (st_lift (case addresses of [] \<Rightarrow> Panic | a # _ \<Rightarrow> Ok a)) (\<lambda>selected_ip.
     st_bind (on_controls (check_ip (rl_limiter E) (t_ip T) selected_ip)) (\<lambda>_.
     st_bind (st_lift (cache_request (rl_urls E) (rl_policy E) key)) (\<lambda>request.
     st_bind (send_fetch E T
       \<lparr>fr_url = rk_url key, fr_kind = rk_kind key,
        fr_headers = conditional_headers (rl_policy E) (t_headers T) previous request,
        fr_selected_ip = selected_ip\<rparr>) (\<lambda>response.
     st_bind (st_lift (representation_from_response (rl_urls E) (rl_policy E) (rl_decode E) (t_represent T)
                        key request previous response (rl_max_keys E))) (\<lambda>representation s.
     (Ok representation, publish (rl_policy E) key representation s))))))))"

definition refresh_inner ::
  "('u, 'p, 'l) ResourceLoader \<Rightarrow> refresh_times \<Rightarrow> 'u ResourceKey \<Rightarrow> ('u, 'p) Representation option \<Rightarrow>
   (('u, 'p) Representation, ('u, 'p, 'l) Loader_state) stateful" where
  "refresh_inner E T key previous =
     (let U = rl_urls E; url = rk_url key in
      st_bind (on_controls (check_circuit (t_circuit T) key)) (\<lambda>_.
      st_bind (st_lift (map_err (\<lambda>_. FetchError_new UnsafeAddress)
                         (validate_url U (rl_destination E) url))) (\<lambda>_.
      st_bind (st_lift (ok_or (FetchError_new InvalidResource) (url_host_str U url))) (\<lambda>host.
      st_bind (st_lift (ok_or (FetchError_new InvalidResource) (url_port_or_known_default U url))) (\<lambda>port.
      st_bind (on_controls (begin_fetch (rl_limiter E) (t_begin T) (url_origin_ascii U url))) (\<lambda>_.
      with_permit (refresh_fetch E T key previous host port)))))))"

text \<open>How long the outcome is in force, and the update of the circuit that goes with it.\<close>

definition refresh_validity ::
  "('u, 'p, 'l) ResourceLoader \<Rightarrow> nat \<Rightarrow> 'u ResourceKey \<Rightarrow> (('u, 'p) Representation, FetchError) res \<Rightarrow>
   ('l, 'u ResourceKey) WorkControls \<Rightarrow> duration \<times> ('l, 'u ResourceKey) WorkControls" where
  "refresh_validity E now key result w =
     (case result of
        Ok representation \<Rightarrow>
          let (transition, w) = success key w
          in (if pol_is_storable (rl_policy E) (rep_policy representation) then millis 50 else 0, w)
      | Err error \<Rightarrow>
          (case FetchError_class error of
             Transient \<Rightarrow>
               let ((backoff, transition), w) = failure_backoff now key (err_retry_after error) w in (backoff, w)
           | FailureClass.CircuitOpen \<Rightarrow> circuit_remaining now key w
           | Permanent \<Rightarrow> (COALESCED_FAILURE_TTL, w)
           | LoadShed \<Rightarrow> (COALESCED_FAILURE_TTL, w))
      | Panic \<Rightarrow> (0, w))"

definition refresh ::
  "('u, 'p, 'l) ResourceLoader \<Rightarrow> refresh_times \<Rightarrow> 'u ResourceKey \<Rightarrow> ('u, 'p) Representation option \<Rightarrow>
   ('u, 'p, 'l) Loader_state \<Rightarrow> ('u, 'p) RefreshOutcome \<times> ('u, 'p, 'l) Loader_state" where
  "refresh E T key previous s =
     (let (result, s) = refresh_inner E T key previous (cache_event ''refresh'' s);
          (valid_for, w) = refresh_validity E (t_after T) key result (ld_controls s)
      in (\<lparr>ro_result = result, ro_valid_until = t_end T + valid_for\<rparr>, s\<lparr>ld_controls := w\<rparr>))"

definition load ::
  "('u, 'p, 'l) ResourceLoader \<Rightarrow> refresh_times \<Rightarrow> nat \<Rightarrow> nat \<Rightarrow> 'u ResourceKey \<Rightarrow>
   (('u, 'p) Representation, ('u, 'p, 'l) Loader_state) stateful" where
  "load E T now inst key s = CacheStore_load (rl_urls E) (rl_policy E) (refresh E T) now inst key s"

section \<open>Facts\<close>

lemma st_bind_cases:
  obtains (Ok) a t where "m s = (Ok a, t)" "st_bind m f s = f a t"
    | (Err) e t where "m s = (Err e, t)" "st_bind m f s = (Err e, t)"
    | (Panic) t where "m s = (Panic, t)" "st_bind m f s = (Panic, t)"
proof (cases "m s")
  case (Pair r t)
  then show thesis by (cases r) (auto simp: st_bind_def intro: that)
qed

section \<open>What a refresh does\<close>

text \<open>
  A request that may leave the resolver: it passes the destination policy, and its address is one of a
  DNS answer for its host and port in which every address is globally reachable.
\<close>

definition safe_request :: "('u, 'p, 'l) ResourceLoader \<Rightarrow> 'u FetchRequest \<Rightarrow> bool" where
  "safe_request E q \<longleftrightarrow>
     validate_url (rl_urls E) (rl_destination E) (fr_url q) = Ok () \<and>
     (\<exists>t host port answer.
        url_host_str (rl_urls E) (fr_url q) = Some host \<and>
        url_port_or_known_default (rl_urls E) (fr_url q) = Some port \<and>
        rl_dns E t host port = Ok answer \<and> fr_selected_ip q \<in> set answer \<and>
        list_all (globally_reachable (rl_ipnet E)) answer)"

text \<open>A resource parsed from the body of a response to a safe request for the key's own URL.\<close>

definition fetched :: "('u, 'p, 'l) ResourceLoader \<Rightarrow> 'u ResourceKey \<Rightarrow> 'u ParsedResource \<Rightarrow> bool" where
  "fetched E key r \<longleftrightarrow>
     (\<exists>t q response. safe_request E q \<and> fr_url q = rk_url key \<and> rl_http E t q = Ok response \<and>
        parse_resource (rl_urls E) (dec_crypto (rl_decode E)) (dec_json (rl_decode E)) (rk_kind key) (rk_url key)
          (resp_body response) (rl_max_keys E) = Ok r)"

definition valid_rep :: "('u, 'p, 'l) ResourceLoader \<Rightarrow> 'u ResourceKey \<Rightarrow> ('u, 'p) Representation \<Rightarrow> bool" where
  "valid_rep E key rep \<longleftrightarrow>
     fetched E key (rep_resource rep) \<and> rep_fresh_for rep \<le> MAX_FRESHNESS \<and>
     (\<forall>d. rep_stale_if_error rep = Some d \<longrightarrow> d \<le> MAX_FRESHNESS)"

lemma representation_valid:
  assumes "safe_request E q" and "fr_url q = rk_url key" and "rl_http E t q = Ok response"
    and "representation_from_response (rl_urls E) P (rl_decode E) now key request previous response
           (rl_max_keys E) = Ok rep"
    and "\<And>old. previous = Some old \<Longrightarrow> valid_rep E key old"
  shows "valid_rep E key rep"
proof (cases "resp_status response = 304")
  case True
  with assms(4) obtain old where "previous = Some old" "rep_resource rep = rep_resource old"
    "rep_fresh_for rep \<le> MAX_FRESHNESS"
    "rep_stale_if_error rep = parse_stale_if_error (dec_to_str (rl_decode E)) (resp_headers response) \<or>
     rep_stale_if_error rep = rep_stale_if_error old"
    by (auto simp: representation_from_response_def response_from_fetch_def ok_or_def
        split: option.splits after_response.splits)
  with assms(5) [of old] show ?thesis
    by (auto simp: valid_rep_def dest: parse_stale_if_error_bound)
next
  case False
  let ?b = "resp_body response"
  from False assms(4) have "parse_resource (rl_urls E) (dec_crypto (rl_decode E)) (dec_json (rl_decode E)) (rk_kind key)
      (rk_url key) ?b (rl_max_keys E) = Ok (rep_resource rep)"
    "rep_fresh_for rep \<le> MAX_FRESHNESS"
    "\<exists>hs. rep_stale_if_error rep = parse_stale_if_error (dec_to_str (rl_decode E)) hs"
    by (auto simp: representation_from_response_def response_from_fetch_def Let_def res_simps)
  with assms(1-3) show ?thesis
    by (auto simp: valid_rep_def fetched_def dest: parse_stale_if_error_bound [OF sym])
qed

text \<open>Everything a refresh may change outside the controls.\<close>

definition refresh_effect ::
  "('u, 'p, 'l) ResourceLoader \<Rightarrow> 'u ResourceKey \<Rightarrow> ('u, 'p) Representation option \<Rightarrow>
   ('u, 'p, 'l) Loader_state \<Rightarrow> (('u, 'p) Representation, FetchError) res \<times> ('u, 'p, 'l) Loader_state \<Rightarrow> bool" where
  "refresh_effect E key previous s = (\<lambda>(r, t).
     (\<exists>reqs. ld_sent t = ld_sent s @ reqs \<and> length reqs \<le> 1 \<and>
        list_all (\<lambda>q. safe_request E q \<and> fr_url q = rk_url key) reqs) \<and>
     refreshes t = refreshes s \<and>
     (case r of
        Ok rep \<Rightarrow>
          ((\<forall>old. previous = Some old \<longrightarrow> valid_rep E key old) \<longrightarrow> valid_rep E key rep) \<and>
          representations t = representations (publish (rl_policy E) key rep s)
      | _ \<Rightarrow> representations t = representations s))"

lemma refresh_effect_refl: "\<not> (\<exists>rep. r = Ok rep) \<Longrightarrow> refresh_effect E key previous s (r, s)"
  by (auto simp: refresh_effect_def split: res.splits)

lemma refresh_effect_controls [simp]:
  "refresh_effect E key previous s (r, t\<lparr>ld_controls := w\<rparr>) = refresh_effect E key previous s (r, t)"
  "refresh_effect E key previous (s\<lparr>ld_controls := w\<rparr>) x = refresh_effect E key previous s x"
  by (auto simp: refresh_effect_def publish_def split: res.splits)

lemma refresh_effect_st_lift:
  "(\<And>a. r = Ok a \<Longrightarrow> refresh_effect E key previous s (f a s)) \<Longrightarrow>
   refresh_effect E key previous s (st_bind (st_lift r) f s)"
  by (cases r) (simp_all add: st_bind_def st_lift_def refresh_effect_refl)

lemma refresh_effect_on_controls:
  "(\<And>a w. refresh_effect E key previous (s\<lparr>ld_controls := w\<rparr>) (f a (s\<lparr>ld_controls := w\<rparr>))) \<Longrightarrow>
   refresh_effect E key previous s (st_bind (on_controls g) f s)"
  by (auto simp: st_bind_def on_controls_def refresh_effect_refl Let_def split: res.splits prod.splits)

lemma refresh_effect_send:
  assumes "safe_request E q" and "fr_url q = rk_url key"
  shows "refresh_effect E key previous s
    (st_bind (send_fetch E T q) (\<lambda>response.
     st_bind (st_lift (representation_from_response (rl_urls E) (rl_policy E) (rl_decode E) now
                        key request previous response (rl_max_keys E))) (\<lambda>representation s.
     (Ok representation, publish (rl_policy E) key representation s))) s)"
proof (cases "rl_http E (t_http T) q")
  case (Ok response)
  show ?thesis
    using assms representation_valid [OF assms Ok, of "rl_policy E" now request previous]
    by (auto simp: st_bind_def send_fetch_def st_lift_def Ok Let_def refresh_effect_def publish_def
        split: res.splits)
qed (use assms in \<open>auto simp: st_bind_def send_fetch_def Let_def refresh_effect_def\<close>)

lemma refresh_fetch_effect:
  assumes "validate_url (rl_urls E) (rl_destination E) (rk_url key) = Ok ()"
    and "url_host_str (rl_urls E) (rk_url key) = Some host"
    and "url_port_or_known_default (rl_urls E) (rk_url key) = Some port"
  shows "refresh_effect E key previous s (refresh_fetch E T key previous host port s)"
  unfolding refresh_fetch_def
proof (intro refresh_effect_st_lift refresh_effect_on_controls refresh_effect_send)
  fix answer vs ip request
  assume dns: "rl_dns E (t_dns T) host port = Ok answer"
    and "map_err (\<lambda>_. FetchError_new UnsafeAddress) (validate_all_addresses (rl_ipnet E) answer) = Ok vs"
    and ip: "(case vs of [] \<Rightarrow> Panic | a # _ \<Rightarrow> Ok a) = Ok ip"
  then have vs: "validate_all_addresses (rl_ipnet E) answer = Ok vs"
    by (cases "validate_all_addresses (rl_ipnet E) answer") auto
  have "ip \<in> set vs" using ip by (cases vs) auto
  with destination.check_Ok [OF vs]
  have "ip \<in> set answer" "list_all (globally_reachable (rl_ipnet E)) answer"
    by (auto simp: list_all_iff)
  with assms dns show "safe_request E
      \<lparr>fr_url = rk_url key, fr_kind = rk_kind key,
       fr_headers = conditional_headers (rl_policy E) (t_headers T) previous request, fr_selected_ip = ip\<rparr>"
    unfolding safe_request_def by auto
qed simp

lemma with_permit_effect:
  "refresh_effect E key previous s (with_permit m s) = refresh_effect E key previous s (m s)"
  by (cases "m s") (simp add: with_permit_def)

lemma refresh_inner_effect: "refresh_effect E key previous s (refresh_inner E T key previous s)"
  unfolding refresh_inner_def Let_def
proof (intro refresh_effect_on_controls refresh_effect_st_lift, unfold with_permit_effect)
  fix w u host port a w'
  assume "map_err (\<lambda>_. FetchError_new UnsafeAddress) (validate_url (rl_urls E) (rl_destination E) (rk_url key)) = Ok u"
    and "ok_or (FetchError_new InvalidResource) (url_host_str (rl_urls E) (rk_url key)) = Ok host"
    and "ok_or (FetchError_new InvalidResource) (url_port_or_known_default (rl_urls E) (rk_url key)) = Ok port"
  then show "refresh_effect E key previous (s\<lparr>ld_controls := w, ld_controls := w'\<rparr>)
      (refresh_fetch E T key previous host port (s\<lparr>ld_controls := w, ld_controls := w'\<rparr>))"
    by (intro refresh_fetch_effect) (auto simp: ok_or_def validate_url_def split: option.splits if_splits)
qed

text \<open>A refresh keeps the contract the cache asks for.\<close>

lemma refresh_inner_representations:
  fixes E :: "('u, 'p, 'l) ResourceLoader"
  assumes "refresh_inner E T key previous s = (r, t)" and "cache_inv (valid_rep E) s"
    and "\<And>old. previous = Some old \<Longrightarrow> valid_rep E key old"
  shows "cache_inv (valid_rep E) t" and "r = Ok rep \<Longrightarrow> valid_rep E key rep"
proof -
  have e: "refresh_effect E key previous s (r, t)"
    using refresh_inner_effect [of E key previous s T] assms(1) by simp
  show "r = Ok rep \<Longrightarrow> valid_rep E key rep"
    using e assms(3) by (simp add: refresh_effect_def)
  have f: "refreshes t = refreshes s" using e by (simp add: refresh_effect_def)
  have "\<exists>u :: ('u, 'p, 'l) Loader_state. cache_inv (valid_rep E) u \<and> refreshes u = refreshes s \<and> representations t = representations u"
  proof (cases r)
    case (Ok rep)
    with e assms(3) have "valid_rep E key rep" "representations t = representations (publish (rl_policy E) key rep s)"
      by (simp_all add: refresh_effect_def)
    with assms(2) show ?thesis
      by (intro exI [of _ "publish (rl_policy E) key rep s"]) (simp add: cache_inv_publish)
  qed (use e assms(2) in \<open>auto simp: refresh_effect_def\<close>)
  with f show "cache_inv (valid_rep E) t" by (auto simp: cache_inv_def)
qed

lemma refresh_unfold:
  "refresh E T key previous s =
     (let (r, t) = refresh_inner E T key previous (cache_event ''refresh'' s)
      in (\<lparr>ro_result = r, ro_valid_until = t_end T + fst (refresh_validity E (t_after T) key r (ld_controls t))\<rparr>,
          t\<lparr>ld_controls := snd (refresh_validity E (t_after T) key r (ld_controls t))\<rparr>))"
  by (simp add: refresh_def case_prod_unfold Let_def)

lemma cache_inv_controls [simp]: "cache_inv valid (s\<lparr>ld_controls := w\<rparr>) = cache_inv valid s"
  by (simp add: cache_inv_def)

lemma refresh_inner_valid:
  assumes "\<And>old. previous = Some old \<Longrightarrow> valid_rep E key old"
    and "refresh_inner E T key previous s = (Ok rep, t)"
  shows "valid_rep E key rep"
  using refresh_inner_effect [of E key previous s T] assms by (simp add: refresh_effect_def)

interpretation loader: refresher "refresh E T" "valid_rep E" for E :: "('a, 'b, 'c) ResourceLoader" and T
proof
  fix s :: "('a, 'b, 'c) Loader_state" and key and previous :: "('a, 'b) Representation option"
  assume i: "cache_inv (valid_rep E) s" and v: "\<And>old. previous = Some old \<Longrightarrow> valid_rep E key old"
  obtain r t where rt: "refresh_inner E T key previous (cache_event ''refresh'' s) = (r, t)" by fastforce
  have "cache_inv (valid_rep E) t"
    by (rule refresh_inner_representations(1) [OF rt _ v]) (simp add: i)
  then show "cache_inv (valid_rep E) (snd (refresh E T key previous s))"
    by (simp add: refresh_unfold rt)
next
  fix s :: "('a, 'b, 'c) Loader_state" and key rep and previous :: "('a, 'b) Representation option"
  assume v: "\<And>old. previous = Some old \<Longrightarrow> valid_rep E key old"
    and "ro_result (fst (refresh E T key previous s)) = Ok rep"
  then obtain t where "refresh_inner E T key previous (cache_event ''refresh'' s) = (Ok rep, t)"
    by (cases "refresh_inner E T key previous (cache_event ''refresh'' s)") (simp add: refresh_unfold)
  with v show "valid_rep E key rep" by (rule refresh_inner_valid)
qed

section \<open>Permits and panics\<close>

text \<open>
  What a computation does to the controls: it gives back every permit it takes and, with validated
  limits and total parameters, does not panic.
\<close>

definition permit_neutral :: "('a, ('u, 'p, 'l) Loader_state) stateful \<Rightarrow> bool" where
  "permit_neutral m \<longleftrightarrow>
     (\<forall>s. outbound (ld_controls (snd (m s))) = outbound (ld_controls s) \<and>
          wc_limits (ld_controls (snd (m s))) = wc_limits (ld_controls s))"

definition panic_free :: "Limits \<Rightarrow> ('a, ('u, 'p, 'l) Loader_state) stateful \<Rightarrow> bool" where
  "panic_free limits m \<longleftrightarrow>
     (\<forall>s. wc_limits (ld_controls s) = limits \<longrightarrow>
        fst (m s) \<noteq> Panic \<and> wc_limits (ld_controls (snd (m s))) = limits)"

named_theorems neutral_intros and panic_intros

lemma neutral_bind [neutral_intros]:
  "permit_neutral m \<Longrightarrow> (\<And>a. permit_neutral (f a)) \<Longrightarrow> permit_neutral (st_bind m f)"
  unfolding permit_neutral_def
proof
  fix s
  assume "\<forall>s. outbound (ld_controls (snd (m s))) = outbound (ld_controls s) \<and>
      wc_limits (ld_controls (snd (m s))) = wc_limits (ld_controls s)"
    and "\<And>a. \<forall>s. outbound (ld_controls (snd (f a s))) = outbound (ld_controls s) \<and>
      wc_limits (ld_controls (snd (f a s))) = wc_limits (ld_controls s)"
  then show "outbound (ld_controls (snd (st_bind m f s))) = outbound (ld_controls s) \<and>
      wc_limits (ld_controls (snd (st_bind m f s))) = wc_limits (ld_controls s)"
    by (cases rule: st_bind_cases [of m s f]) (metis snd_conv)+
qed

lemma neutral_lift [neutral_intros]: "permit_neutral (st_lift r)"
  by (simp add: permit_neutral_def st_lift_def)

lemma neutral_on_controls:
  "(\<And>w. same_admission w (snd (g w))) \<Longrightarrow> permit_neutral (on_controls g)"
  by (simp add: permit_neutral_def on_controls_def same_admission_def case_prod_unfold Let_def)

lemma neutral_send [neutral_intros]: "permit_neutral (send_fetch E T q)"
  by (simp add: permit_neutral_def send_fetch_def Let_def)

lemma neutral_publish [neutral_intros]: "permit_neutral (\<lambda>s. (Ok rep, publish P key rep s))"
  by (simp add: permit_neutral_def publish_def)

lemma refresh_fetch_neutral: "permit_neutral (refresh_fetch E T key previous host port)"
  unfolding refresh_fetch_def
  by (intro neutral_intros neutral_on_controls same_admission_snd(1))

text \<open>The permit taken at the start of a fetch is the one given back at its end.\<close>

lemma neutral_permit_scope:
  assumes "permit_neutral m"
  shows "permit_neutral (st_bind (on_controls (begin_fetch L now origin)) (\<lambda>_. with_permit m))"
  unfolding permit_neutral_def
proof
  fix s :: "('a, 'b, 'c) Loader_state"
  obtain r w where b: "begin_fetch L now origin (ld_controls s) = (r, w)" by fastforce
  note e = begin_fetch_effect(1,2) [OF b]
  let ?t = "s\<lparr>ld_controls := w\<rparr>"
  obtain r' t where t: "m ?t = (r', t)" by fastforce
  with assms have "outbound (ld_controls t) = outbound w" "wc_limits (ld_controls t) = wc_limits w"
    unfolding permit_neutral_def by (metis Loader_state.select_convs(1) Loader_state.surjective
        Loader_state.update_convs(1) snd_conv)+
  with e b t show "outbound (ld_controls (snd (st_bind (on_controls (begin_fetch L now origin)) (\<lambda>_. with_permit m) s))) =
      outbound (ld_controls s) \<and>
    wc_limits (ld_controls (snd (st_bind (on_controls (begin_fetch L now origin)) (\<lambda>_. with_permit m) s))) =
      wc_limits (ld_controls s)"
    by (cases r) (auto simp: st_bind_def on_controls_def with_permit_def release_permit_def)
qed

lemma refresh_inner_neutral: "permit_neutral (refresh_inner E T key previous)"
  unfolding refresh_inner_def Let_def
  by (intro neutral_bind neutral_permit_scope refresh_fetch_neutral neutral_lift neutral_on_controls
      same_admission_snd(3))

lemma refresh_validity_same: "same_admission w (snd (refresh_validity E now key r w))"
  using same_admission_snd(4,5,6) [where key = key and w = w]
  by (auto simp: refresh_validity_def same_admission_def case_prod_unfold Let_def
      split: res.splits FailureClass.splits)

lemma panic_bind [panic_intros]:
  fixes m :: "('a, ('u, 'p, 'l) Loader_state) stateful"
  assumes "panic_free limits m" and "\<And>s a t. m s = (Ok a, t) \<Longrightarrow> panic_free limits (f a)"
  shows "panic_free limits (st_bind m f)"
  unfolding panic_free_def
proof (intro allI impI)
  fix s :: "('u, 'p, 'l) Loader_state"
  assume "wc_limits (ld_controls s) = limits"
  with assms(1) have l: "fst (m s) \<noteq> Panic" "wc_limits (ld_controls (snd (m s))) = limits"
    by (simp_all add: panic_free_def)
  show "fst (st_bind m f s) \<noteq> Panic \<and> wc_limits (ld_controls (snd (st_bind m f s))) = limits"
  proof (cases rule: st_bind_cases [of m s f])
    case (Ok a t)
    with assms(2) [OF Ok(1)] l show ?thesis by (simp add: panic_free_def)
  qed (use l in simp_all)
qed

lemma panic_lift: "r \<noteq> Panic \<Longrightarrow> panic_free limits (st_lift r)"
  by (simp add: panic_free_def st_lift_def)

lemma panic_on_controls:
  "(\<And>w. wc_limits w = limits \<Longrightarrow> fst (g w) \<noteq> Panic \<and> wc_limits (snd (g w)) = limits) \<Longrightarrow>
   panic_free limits (on_controls g)"
  by (simp add: panic_free_def on_controls_def case_prod_unfold Let_def)

text \<open>The parameters of the loader return: DNS and the HTTP client answer or fail.\<close>

definition total_env :: "('u, 'p, 'l) ResourceLoader \<Rightarrow> bool" where
  "total_env E \<longleftrightarrow> (\<forall>t host port. rl_dns E t host port \<noteq> Panic) \<and> (\<forall>t q. rl_http E t q \<noteq> Panic)"

lemma representation_not_Panic [simp]:
  "representation_from_response U P D now key request previous response n \<noteq> Panic"
  by (auto simp: representation_from_response_def response_from_fetch_def res_simps Let_def
      split: after_response.splits)

lemma map_err_Panic: "map_err f r = Panic \<longleftrightarrow> r = Panic"
  by (cases r) auto

lemma map_err_Ok: "map_err f r = Ok a \<longleftrightarrow> r = Ok a"
  by (cases r) auto

lemma refresh_fetch_panic_free:
  assumes "total_env E" and "Limits_validate limits = Ok ()"
  shows "panic_free limits (refresh_fetch E T key previous host port)"
  unfolding refresh_fetch_def
proof (intro panic_intros)
  show "panic_free limits (st_lift (rl_dns E (t_dns T) host port))"
    using assms(1) by (intro panic_lift) (simp add: total_env_def)
next
  fix answer
  show "panic_free limits (st_lift (map_err (\<lambda>_. FetchError_new UnsafeAddress)
      (validate_all_addresses (rl_ipnet E) answer)))"
    by (intro panic_lift) (simp add: map_err_Panic destination.check_total)
next
  fix s t and answer vs and s' t' :: "('a, 'b, 'c) Loader_state"
  assume "st_lift (map_err (\<lambda>_. FetchError_new UnsafeAddress) (validate_all_addresses (rl_ipnet E) answer)) s' = (Ok vs, t')"
  then have "vs \<noteq> []" using destination.check_Ok by (auto simp: st_lift_def map_err_Ok)
  then show "panic_free limits (st_lift (case vs of [] \<Rightarrow> Panic | a # _ \<Rightarrow> Ok a))"
    by (intro panic_lift) (auto split: list.splits)
next
  fix ip
  show "panic_free limits (on_controls (check_ip (rl_limiter E) (t_ip T) ip))"
    using assms(2) by (intro panic_on_controls) (simp add: check_ip_not_Panic)
next
  show "panic_free limits (st_lift (cache_request (rl_urls E) (rl_policy E) key))"
    by (intro panic_lift) simp
next
  fix q
  show "panic_free limits (send_fetch E T q)"
    using assms(1) by (simp add: panic_free_def send_fetch_def Let_def total_env_def)
next
  fix request response
  show "panic_free limits (st_lift (representation_from_response (rl_urls E) (rl_policy E) (rl_decode E) (t_represent T)
      key request previous response (rl_max_keys E)))"
    by (intro panic_lift) simp
next
  fix rep
  show "panic_free limits (\<lambda>s. (Ok rep, publish (rl_policy E) key rep s))" by (simp add: panic_free_def publish_def)
qed

lemma with_permit_panic: "panic_free limits m \<Longrightarrow> panic_free limits (with_permit m)"
  by (simp add: panic_free_def with_permit_def release_permit_def case_prod_unfold Let_def)

lemma check_circuit_not_Panic: "fst (check_circuit now key w) \<noteq> Panic"
  by (simp add: check_circuit_def circuit_check_def case_prod_unfold Let_def split: option.splits)

lemma refresh_inner_panic_free:
  assumes "total_env E" and "Limits_validate limits = Ok ()"
  shows "panic_free limits (refresh_inner E T key previous)"
  unfolding refresh_inner_def Let_def
proof (intro panic_intros with_permit_panic refresh_fetch_panic_free assms)
  show "panic_free limits (on_controls (check_circuit (t_circuit T) key))"
    by (intro panic_on_controls) (simp add: check_circuit_not_Panic)
next
  show "panic_free limits (on_controls (begin_fetch (rl_limiter E) (t_begin T) (url_origin_ascii (rl_urls E) (rk_url key))))"
    using assms(2) begin_fetch_effect(1) [OF surjective_pairing]
    by (intro panic_on_controls) (auto simp: begin_fetch_not_Panic)
qed (auto intro!: panic_lift simp: ok_or_def validate_url_def split: option.splits)

section \<open>The loader as a machine\<close>

lemma cache_event_fields [simp]:
  "ld_sent (cache_event e s) = ld_sent s" "ld_controls (cache_event e s) = ld_controls s"
  by (simp_all add: cache_event_def)

lemma refresh_sent:
  "\<exists>reqs. ld_sent (snd (refresh E T key previous s)) = ld_sent s @ reqs \<and> length reqs \<le> 1 \<and>
     list_all (\<lambda>q. safe_request E q \<and> fr_url q = rk_url key) reqs"
proof -
  obtain r t where rt: "refresh_inner E T key previous (cache_event ''refresh'' s) = (r, t)" by fastforce
  from refresh_inner_effect [of E key previous "cache_event ''refresh'' s" T, unfolded rt]
  show ?thesis by (simp add: refresh_effect_def refresh_unfold rt)
qed

lemma refresh_controls:
  "outbound (ld_controls (snd (refresh E T key previous s))) = outbound (ld_controls s)"
  "wc_limits (ld_controls (snd (refresh E T key previous s))) = wc_limits (ld_controls s)"
proof -
  obtain r t where rt: "refresh_inner E T key previous (cache_event ''refresh'' s) = (r, t)" by fastforce
  have "outbound (ld_controls t) = outbound (ld_controls s) \<and> wc_limits (ld_controls t) = wc_limits (ld_controls s)"
    using refresh_inner_neutral [of E T key previous, unfolded permit_neutral_def,
        THEN spec [of _ "cache_event ''refresh'' s"]] rt
    by simp
  with refresh_validity_same [of "ld_controls t" E "t_after T" key r]
  show "outbound (ld_controls (snd (refresh E T key previous s))) = outbound (ld_controls s)"
    "wc_limits (ld_controls (snd (refresh E T key previous s))) = wc_limits (ld_controls s)"
    by (simp_all add: refresh_unfold rt same_admission_def)
qed

lemma refresh_start_fields [simp]:
  "ld_sent (refresh_start key s) = ld_sent s" "ld_controls (refresh_start key s) = ld_controls s"
  by (simp_all add: refresh_start_def)

text \<open>One load: at most one request, a safe one for the key's own URL, and every permit given back.\<close>

lemma load_effect:
  "\<exists>reqs. ld_sent (snd (load E T now inst key s)) = ld_sent s @ reqs \<and> length reqs \<le> 1 \<and>
     list_all (\<lambda>q. safe_request E q \<and> fr_url q = rk_url key) reqs"
  "outbound (ld_controls (snd (load E T now inst key s))) = outbound (ld_controls s)"
  "wc_limits (ld_controls (snd (load E T now inst key s))) = wc_limits (ld_controls s)"
proof -
  note state = load_state [of "rl_urls E" "rl_policy E" "refresh E T" now inst key s]
  note r = refresh_sent [of E T key "representations s key" "refresh_start key s"]
    refresh_controls [of E T key "representations s key" "refresh_start key s"]
  show "\<exists>reqs. ld_sent (snd (load E T now inst key s)) = ld_sent s @ reqs \<and> length reqs \<le> 1 \<and>
     list_all (\<lambda>q. safe_request E q \<and> fr_url q = rk_url key) reqs"
    by (cases rule: state) (use r(1) in \<open>simp_all add: load_def\<close>)
  show "outbound (ld_controls (snd (load E T now inst key s))) = outbound (ld_controls s)"
    by (cases rule: state) (simp_all add: load_def r(2))
  show "wc_limits (ld_controls (snd (load E T now inst key s))) = wc_limits (ld_controls s)"
    by (cases rule: state) (simp_all add: load_def r(3))
qed

inductive loader_init :: "('u, 'p, 'l) ResourceLoader \<Rightarrow> Limits \<Rightarrow> ('u, 'p, 'l) Loader_state \<Rightarrow> bool"
  for E limits where
  "ResourceLoader_new E limits = Ok s \<Longrightarrow> loader_init E limits s"

text \<open>Loads of any key at any time, and the loss of any entries of the bounded caches.\<close>

inductive loader_step :: "('u, 'p, 'l) ResourceLoader \<Rightarrow> ('u, 'p, 'l) Loader_state \<Rightarrow> ('u, 'p, 'l) Loader_state \<Rightarrow> bool"
  for E where
  step_load: "load E T now inst key s = (r, t) \<Longrightarrow> loader_step E s t"
| step_evict: "loader_step E s
     (s\<lparr>representations := representations s |` A, refreshes := refreshes s |` B,
       ld_controls := (ld_controls s)\<lparr>origins := origins (ld_controls s) |` F, ips := ips (ld_controls s) |` G,
         circuits := circuits (ld_controls s) |` H\<rparr>\<rparr>)"

definition loader_inv :: "('u, 'p, 'l) ResourceLoader \<Rightarrow> Limits \<Rightarrow> ('u, 'p, 'l) Loader_state \<Rightarrow> bool" where
  "loader_inv E limits s \<longleftrightarrow>
     cache_inv (valid_rep E) s \<and> list_all (safe_request E) (ld_sent s) \<and>
     outbound (ld_controls s) = outbound_fetches limits \<and> wc_limits (ld_controls s) = limits"

lemma loader_inv_step: "loader_inv E limits s \<Longrightarrow> loader_step E s t \<Longrightarrow> loader_inv E limits t"
proof -
  assume i: "loader_inv E limits s" and "loader_step E s t"
  from \<open>loader_step E s t\<close> show ?thesis
  proof cases
    case (step_load T now inst key r)
    then have t: "t = snd (load E T now inst key s)" by simp
    have "cache_inv (valid_rep E) t"
      using i by (simp add: t load_def loader_inv_def loader.load_keeps)
    moreover have "list_all (safe_request E) (ld_sent t)"
      using i load_effect(1) [of E T now inst key s] by (auto simp: t loader_inv_def list_all_iff)
    ultimately show ?thesis using i by (simp add: loader_inv_def t load_effect(2,3))
  next
    case step_evict
    with i show ?thesis by (auto simp: loader_inv_def cache_inv_def restrict_map_def split: if_splits)
  qed
qed

interpretation loaders: invariant_of "loader_init E limits" "loader_step E" "loader_inv E limits" for E limits
proof
  fix s assume "loader_init E limits s"
  then show "loader_inv E limits s"
    by cases (auto simp: ResourceLoader_new_def WorkControls_new_def res_simps loader_inv_def cache_inv_def)
qed (rule loader_inv_step)

lemma loader_reachable:
  assumes "reachable (loader_init E limits) (loader_step E) s"
  shows "cache_inv (valid_rep E) s" and "list_all (safe_request E) (ld_sent s)"
    and "outbound (ld_controls s) = outbound_fetches limits" and "wc_limits (ld_controls s) = limits"
  using loaders.inv_reachable [OF assms] by (simp_all add: loader_inv_def)

section \<open>The loader over the fixture transport\<close>

definition fixture_env :: "(plain_url, nat, unit) ResourceLoader" where
  "fixture_env =
     \<lparr>rl_urls = plain_url_api, rl_policy = hour_policy, rl_decode = sample_decode, rl_limiter = open_limiter,
      rl_ipnet = prefix_ipnet, rl_dns = (\<lambda>_. fixture_resolve),
      rl_http = (\<lambda>_ q. fst (fixture_fetch plain_url_api sample_crypto FixtureTransport_new q)),
      rl_destination = \<lparr>allowed_ports = {443}\<rparr>, rl_max_keys = 32\<rparr>"

definition fixture_key :: "string \<Rightarrow> plain_url ResourceKey" where
  "fixture_key p =
     \<lparr>rk_url = \<lparr>pu_scheme = ''https'', pu_host = Some FIXTURE_HOST, pu_path = p, pu_query = None,
                pu_fragment = None\<rparr>,
      rk_kind = ResourceKind.Jwks\<rparr>"

definition fixture_times :: refresh_times where
  "fixture_times = \<lparr>t_circuit = 1, t_begin = 2, t_dns = 3, t_ip = 4, t_headers = 5, t_http = 6, t_represent = 7,
     t_after = 8, t_end = 9\<rparr>"

definition fixture_start :: "(plain_url, nat, unit) Loader_state" where
  "fixture_start =
     \<lparr>representations = Map.empty, refreshes = Map.empty, cache_events = [],
      ld_controls = \<lparr>outbound = 32, global = (), origins = Map.empty, ips = Map.empty, new_origins = [],
        circuits = Map.empty, wc_limits = Limits_default\<rparr>,
      ld_fetch_results = [], ld_sent = []\<rparr>"

lemma fixture_env_simps [simp]:
  "rl_urls fixture_env = plain_url_api" "rl_policy fixture_env = hour_policy" "rl_decode fixture_env = sample_decode"
  "rl_limiter fixture_env = open_limiter" "rl_ipnet fixture_env = prefix_ipnet"
  "rl_dns fixture_env m = fixture_resolve"
  "rl_http fixture_env m q = fst (fixture_fetch plain_url_api sample_crypto FixtureTransport_new q)"
  "rl_destination fixture_env = \<lparr>allowed_ports = {443}\<rparr>" "rl_max_keys fixture_env = 32"
  by (simp_all add: fixture_env_def)

lemma fixture_start_simps [simp]:
  "representations fixture_start = Map.empty" "refreshes fixture_start = Map.empty" "cache_events fixture_start = []"
  "ld_sent fixture_start = []" "wc_limits (ld_controls fixture_start) = Limits_default"
  "circuits (ld_controls fixture_start) = Map.empty"
  by (simp_all add: fixture_start_def)

lemma fixture_start_reachable:
  "reachable (loader_init fixture_env Limits_default) (loader_step fixture_env) fixture_start"
  by (intro reachable_init loader_init.intros)
    (simp add: ResourceLoader_new_def WorkControls_new_def fixture_env_def fixture_start_def limiter_def
      open_limiter_def Limits_default_def)

lemma fixture_total: "total_env fixture_env"
  by (simp add: total_env_def fixture_env_def fixture_not_Panic)

definition fixture_request :: "string \<Rightarrow> plain_url FetchRequest" where
  "fixture_request p =
     \<lparr>fr_url = rk_url (fixture_key p), fr_kind = ResourceKind.Jwks,
      fr_headers = [(''accept'', ResourceKind_accept plain_url_api ResourceKind.Jwks (rk_url (fixture_key p))),
                    (''accept-encoding'', ''identity'')],
      fr_selected_ip = V4 (ipv4 8 8 8 8)\<rparr>"

lemma fixture_refresh_fetch:
  assumes "wc_limits (ld_controls s) = Limits_default"
  shows "\<exists>rep t. refresh_fetch fixture_env fixture_times (fixture_key p) None FIXTURE_HOST 443 s = (Ok rep, t) \<and>
     rep_resource rep = sample_keys \<and> ld_sent t = ld_sent s @ [(fixture_request p)]"
proof -
  have v: "validate_all_addresses prefix_ipnet [V4 (ipv4 8 8 8 8)] = Ok [V4 (ipv4 8 8 8 8)]"
    using fixture_address_reachable by (simp add: validate_all_addresses_def del: globally_reachable.simps)
  have q: "cache_request plain_url_api hour_policy (fixture_key p) =
      Ok \<lparr>cr_uri = plain_as_str (rk_url (fixture_key p)), cr_headers = fr_headers (fixture_request p)\<rparr>"
    by (simp add: cache_request_def hour_policy_def fixture_request_def fixture_key_def ResourceKind_accept_def
        is_directory_url_def DIRECTORY_PATH_def)
  obtain response where r: "fst (fixture_fetch plain_url_api sample_crypto FixtureTransport_new (fixture_request p)) = Ok response"
    "resp_status response = 200"
    by (auto simp: fixture_fetch_def fixture_response_def FixtureTransport_new_def fixture_request_def fixture_key_def)
  have j: "parse_resource plain_url_api sample_crypto sample_json ResourceKind.Jwks url body 32 = Ok sample_keys" for url body
    by (simp add: parse_resource_def sample_json_def ok_or_def parse_keys_eq is_ed25519_def good_key_def
        entry_of_def is_valid_public_key_def sample_crypto_def Ed25519Jwk_new_def sample_keys_def)
  have k: "rk_kind (fixture_key p) = ResourceKind.Jwks" by (simp add: fixture_key_def)
  have f: "\<lparr>fr_url = rk_url (fixture_key p), fr_kind = ResourceKind.Jwks, fr_headers = fr_headers (fixture_request p),
      fr_selected_ip = V4 (ipv4 8 8 8 8)\<rparr> = (fixture_request p)"
    by (simp add: fixture_request_def)
  have "check_ip open_limiter (t_ip fixture_times) (V4 (ipv4 8 8 8 8)) w =
      (Ok (), w\<lparr>ips := (ips w)(V4 (ipv4 8 8 8 8) \<mapsto> ())\<rparr>)" if "wc_limits w = Limits_default"
    for w :: "(unit, plain_url ResourceKey) WorkControls"
    using that by (simp add: check_ip_def limiter_def open_limiter_def Limits_default_def split: option.splits)
  with assms show ?thesis
    by (simp add: refresh_fetch_def st_bind_def st_lift_def on_controls_def fixture_env_def fixture_resolve_def
        v q k f r j conditional_headers_def send_fetch_def representation_from_response_def response_from_fetch_def
        sample_decode_def publish_def Let_def)
qed

lemma fixture_load:
  "\<exists>rep t. load fixture_env fixture_times 0 0 (fixture_key p) fixture_start = (Ok rep, t) \<and>
     rep_resource rep = sample_keys \<and> ld_sent t = [(fixture_request p)]"
proof -
  let ?w = "(ld_controls fixture_start)\<lparr>circuits := [(fixture_key p) \<mapsto> CircuitState_default]\<rparr>"
  let ?s = "fixture_start\<lparr>cache_events := [''refresh''], ld_controls := ?w\<rparr>"
  obtain r w where b: "begin_fetch open_limiter 2 (''https://'' @ FIXTURE_HOST) ?w = (r, w)" by fastforce
  then have "r = Ok ()" "wc_limits w = Limits_default"
    by (auto simp: begin_fetch_def fixture_start_def open_limiter_def admit_origin_def check_origin_limiter_def
        limiter_def Limits_default_def Let_def)
  with fixture_refresh_fetch [of "?s\<lparr>ld_controls := w\<rparr>" p] obtain rep t where
    t: "refresh_fetch fixture_env fixture_times (fixture_key p) None FIXTURE_HOST 443 (?s\<lparr>ld_controls := w\<rparr>) = (Ok rep, t)"
    "rep_resource rep = sample_keys" "ld_sent t = [(fixture_request p)]"
    by (auto simp: fixture_start_def)
  have c: "check_circuit (t_circuit fixture_times) (fixture_key p) (ld_controls fixture_start) = (Ok (), ?w)"
    by (simp add: check_circuit_def circuit_def circuit_check_def CircuitState_default_def)
  have u: "validate_url plain_url_api \<lparr>allowed_ports = {443}\<rparr> (rk_url (fixture_key p)) = Ok ()"
    "pu_host (rk_url (fixture_key p)) = Some FIXTURE_HOST" "pu_scheme (rk_url (fixture_key p)) = ''https''"
    by (simp_all add: validate_url_def fixture_key_def)
  have "refresh_inner fixture_env fixture_times (fixture_key p) None (cache_event ''refresh'' fixture_start) =
      (Ok rep, t\<lparr>ld_controls := release_permit (ld_controls t)\<rparr>)"
    using b t(1) \<open>r = Ok ()\<close>
    by (simp add: refresh_inner_def st_bind_def st_lift_def on_controls_def with_permit_def c u ok_or_def
        cache_event_def fixture_times_def [THEN arg_cong [of _ _ t_begin]])
  then show ?thesis
    using t(2,3)
    by (simp add: load_def CacheStore_load_def load_refresh_eq refresh_start_def refresh_unfold result_or_stale_def
        cache_request_def hour_policy_def [THEN arg_cong [of _ _ pol_uri]] Let_def)
qed

section \<open>Properties\<close>

text \<open>
  Server-side request forgery: whatever the resolver was asked to load and whatever DNS answered over
  time, every request it ever handed to the HTTP client has an \<open>https\<close> URL with a host, no user
  information and an allowed port, and is pinned to an address of a DNS answer for exactly that host and
  port in which every address is globally reachable.
\<close>

lemma requests_are_safe:
  assumes "reachable (loader_init E limits) (loader_step E) s" and "q \<in> set (ld_sent s)"
  shows "url_scheme (rl_urls E) (fr_url q) = ''https'' \<and>
    url_username (rl_urls E) (fr_url q) = [] \<and> url_password (rl_urls E) (fr_url q) = None \<and>
    (\<exists>t host port answer.
       url_host_str (rl_urls E) (fr_url q) = Some host \<and>
       url_port_or_known_default (rl_urls E) (fr_url q) = Some port \<and>
       port \<in> allowed_ports (rl_destination E) \<and> rl_dns E t host port = Ok answer \<and>
       fr_selected_ip q \<in> set answer \<and> list_all (globally_reachable (rl_ipnet E)) answer)"
proof -
  from loader_reachable(2) [OF assms(1)] assms(2) have "safe_request E q" by (simp add: list_all_iff)
  then show ?thesis by (auto simp: safe_request_def validate_url_def split: if_splits option.splits)
qed

text \<open>
  Where served key material comes from: in every reachable state, a representation that a load returns,
  be it fresh, just refreshed, revalidated or stale, was parsed, under this key's kind and URL and
  the configured key limit, from the body of a response to a safe request for exactly this URL; its
  freshness and its stale-if-error time are at most a day each.
\<close>

lemma served_was_fetched:
  assumes "reachable (loader_init E limits) (loader_step E) s"
    and "load E T now inst key s = (Ok rep, s')"
  shows "(\<exists>t q response. safe_request E q \<and> fr_url q = rk_url key \<and> rl_http E t q = Ok response \<and>
      parse_resource (rl_urls E) (dec_crypto (rl_decode E)) (dec_json (rl_decode E)) (rk_kind key) (rk_url key)
        (resp_body response) (rl_max_keys E) = Ok (rep_resource rep)) \<and>
    rep_fresh_for rep \<le> secs 86400 \<and> (rep_stale_if_error rep = None \<or> the (rep_stale_if_error rep) \<le> secs 86400)"
proof -
  have "valid_rep E key rep"
    using loader_reachable(1) [OF assms(1)] assms(2) [unfolded load_def] by (rule loader.load_valid)
  then show ?thesis
    by (cases "rep_stale_if_error rep") (auto simp: valid_rep_def fetched_def MAX_FRESHNESS_def)
qed

text \<open>
  One load does bounded work: it hands at most one request to the HTTP client, for the key's own URL, and
  gives back every fetch permit it took, whether it succeeds or fails. With validated limits, and a DNS
  and an HTTP client that return, its refresh does not panic.
\<close>

lemma load_bounded_work:
  assumes "Limits_validate limits = Ok ()" and "total_env E"
    and "reachable (loader_init E limits) (loader_step E) s"
  shows "(\<exists>reqs. ld_sent (snd (load E T now inst key s)) = ld_sent s @ reqs \<and> length reqs \<le> 1 \<and>
       list_all (\<lambda>q. fr_url q = rk_url key) reqs) \<and>
    outbound (ld_controls (snd (load E T now inst key s))) = outbound_fetches limits \<and>
    fst (refresh_inner E T key previous s) \<noteq> Panic"
proof -
  obtain reqs where "ld_sent (snd (load E T now inst key s)) = ld_sent s @ reqs" "length reqs \<le> 1"
    "list_all (\<lambda>q. fr_url q = rk_url key) reqs"
    using load_effect(1) [of E T now inst key s] by (auto simp: list_all_iff)
  moreover have "fst (refresh_inner E T key previous s) \<noteq> Panic"
    using refresh_inner_panic_free [OF assms(2,1), of T key previous] loader_reachable(4) [OF assms(3)]
    by (simp add: panic_free_def)
  ultimately show ?thesis by (auto simp: load_effect(2) loader_reachable(3) [OF assms(3)])
qed

text \<open>
  C29. How long an outcome stops further refreshes of its resource: 50 milliseconds for a storable success and
  for a failure that is permanent or the resolver's own load shedding, no time for a success that must not
  be stored, between 5 seconds and 5 minutes for a transient failure, and the time the circuit stays open
  for a refusal by the circuit.
\<close>

theorem refresh_in_force:
  assumes "refresh E T key previous s = (out, t)"
  shows "case ro_result out of
      Ok rep \<Rightarrow> ro_valid_until out =
        t_end T + (if pol_is_storable (rl_policy E) (rep_policy rep) then millis 50 else 0)
    | Err e \<Rightarrow>
        (case FetchError_class e of
           Transient \<Rightarrow> t_end T + secs 5 \<le> ro_valid_until out \<and> ro_valid_until out \<le> t_end T + secs 300
         | FailureClass.CircuitOpen \<Rightarrow>
             (\<exists>c. circuits (ld_controls t) key = Some c \<and>
                  ro_valid_until out = t_end T + circuit_time_left (t_after T) c)
         | _ \<Rightarrow> ro_valid_until out = t_end T + millis 50)
    | Panic \<Rightarrow> True"
proof -
  have b: "secs 5 \<le> fst (fst (failure_backoff now key retry w)) \<and> fst (fst (failure_backoff now key retry w)) \<le> secs 300"
    for now retry and w :: "('c, 'a ResourceKey) WorkControls"
  proof -
    have "secs 5 \<le> fst (fst (circuit_failure retry now c)) \<and> fst (fst (circuit_failure retry now c)) \<le> secs 300" for c
      unfolding circuit_failure_eq using backoff_secs_bounds [of "unat (consecutive_failures c) + 1"]
      by (simp add: le_max_iff_disj)
    then show ?thesis by (simp add: failure_backoff_def case_prod_unfold Let_def)
  qed
  obtain r u where rt: "refresh_inner E T key previous (cache_event ''refresh'' s) = (r, u)" by fastforce
  have o: "out = \<lparr>ro_result = r, ro_valid_until = t_end T + fst (refresh_validity E (t_after T) key r (ld_controls u))\<rparr>"
    and t: "t = u\<lparr>ld_controls := snd (refresh_validity E (t_after T) key r (ld_controls u))\<rparr>"
    using assms by (simp_all add: refresh_unfold rt)
  have c: "circuits (snd (circuit_remaining now key w)) key = Some (fst (circuit key w)) \<and>
      fst (circuit_remaining now key w) = circuit_time_left now (fst (circuit key w))"
    for now and w :: "('c, 'a ResourceKey) WorkControls"
    by (simp add: circuit_remaining_def circuit_def split: option.splits)
  show ?thesis
    unfolding o t using b [of "t_after T" _ "ld_controls u"] c [of "t_after T" "ld_controls u"]
    by (auto simp: refresh_validity_def COALESCED_FAILURE_TTL_def case_prod_unfold Let_def
        split: res.splits FailureClass.splits)
qed

theorem refresh_in_force_witness:
  "\<exists>rep t. refresh fixture_env fixture_times (fixture_key ''/jwks'') None fixture_start =
     (\<lparr>ro_result = Ok rep, ro_valid_until = 9 + millis 50\<rparr>, t)"
proof -
  obtain out t where r: "refresh fixture_env fixture_times (fixture_key ''/jwks'') None fixture_start = (out, t)" by fastforce
  obtain rep u where l: "load fixture_env fixture_times 0 0 (fixture_key ''/jwks'') fixture_start = (Ok rep, u)"
    using fixture_load by blast
  have "ro_result out = Ok rep"
    using l r by (auto simp: load_def CacheStore_load_def load_refresh_eq refresh_start_def result_or_stale_def
        cache_request_def hour_policy_def [THEN arg_cong [of _ _ pol_uri]] split: res.splits)
  with refresh_in_force [OF r] have "out = \<lparr>ro_result = Ok rep, ro_valid_until = 9 + millis 50\<rparr>"
    by (simp add: hour_policy_def fixture_times_def)
  with r show ?thesis by blast
qed

text \<open>
  C30. Stored means found again: after a refresh that returned a storable representation, a load of the same
  key answers with exactly that representation, sends nothing and changes nothing but the event count,
  as long as the policy calls it fresh and it is less than a day old.
\<close>

theorem refresh_then_hit:
  assumes "refresh E T key previous s = (out, s')" and "ro_result out = Ok rep"
    and "pol_is_storable (rl_policy E) (rep_policy rep)"
    and "cache_request (rl_urls E) (rl_policy E) key = Ok request"
    and "now - rep_stored_at rep < secs 86400"
    and "pol_before_request (rl_policy E) (rep_policy rep) request now = Fresh h"
  shows "load E T' now inst key s' = (Ok rep, cache_event ''fresh_hit'' s')"
proof -
  obtain r t where rt: "refresh_inner E T key previous (cache_event ''refresh'' s) = (r, t)" by fastforce
  with assms(1,2) have r: "r = Ok rep" and t: "representations s' = representations t"
    by (auto simp: refresh_unfold)
  from refresh_inner_effect [of E key previous "cache_event ''refresh'' s" T] rt r
  have "representations t key = Some rep" using assms(3) by (simp add: refresh_effect_def publish_def)
  moreover have "fresh_request (rl_policy E) rep request now \<noteq> None"
    using assms(5,6) unfolding fresh_request_Some by (simp add: MAX_FRESHNESS_def)
  ultimately show ?thesis using assms(4) t by (simp add: load_def CacheStore_load_def)
qed

theorem refresh_then_hit_witness:
  "\<exists>rep s'. load fixture_env fixture_times (secs 60) 0 (fixture_key ''/jwks'') s' = (Ok rep, cache_event ''fresh_hit'' s') \<and>
     rep_resource rep = sample_keys"
proof -
  let ?k = "fixture_key ''/jwks''"
  obtain out t where r: "refresh fixture_env fixture_times ?k None fixture_start = (out, t)" by fastforce
  obtain rep u where l: "load fixture_env fixture_times 0 0 ?k fixture_start = (Ok rep, u)" "rep_resource rep = sample_keys"
    using fixture_load by blast
  have o: "ro_result out = Ok rep"
    using l(1) r by (auto simp: load_def CacheStore_load_def load_refresh_eq refresh_start_def result_or_stale_def
        cache_request_def hour_policy_def [THEN arg_cong [of _ _ pol_uri]] split: res.splits)
  obtain q where q: "cache_request (rl_urls fixture_env) (rl_policy fixture_env) ?k = Ok q"
    by (simp add: cache_request_def hour_policy_def)
  have p: "pol_before_request (rl_policy fixture_env) (rep_policy rep) q (secs 60) = Fresh (cr_headers q)"
    by (simp add: hour_policy_def secs_def)
  have "pol_is_storable (rl_policy fixture_env) (rep_policy rep)" by (simp add: hour_policy_def)
  moreover have "secs 60 - rep_stored_at rep < secs 86400" by (simp add: secs_def)
  ultimately have "load fixture_env fixture_times (secs 60) 0 ?k t = (Ok rep, cache_event ''fresh_hit'' t)"
    using refresh_then_hit [OF r o _ q _ p] by blast
  with l(2) show ?thesis by blast
qed

end
