(* ===== verification/Service.thy ===== *)
theory Service
  imports Loader
begin

text \<open>
  The resolver service, \<open>crates/resolver/src/service.rs\<close>: handler admission, the deadline, the discovery
  traversal and the choice of the key. The deadline of \<open>tokio::time::timeout\<close> may drop the work at any
  await point: the state it leaves is then an argument.
\<close>

section \<open>Service\<close>

definition TEST_KEY_THUMBPRINTS :: "string list" where
  "TEST_KEY_THUMBPRINTS = [''poqkLGiymh_W0uP6PZFw-dvez3QJT5SolqXBCW38r0U'']"

record ('u, 'p, 'l) ResolverService =
  rs_loader :: "('u, 'p, 'l) ResourceLoader"
  rs_limits :: Limits
  rs_allow_test_keys :: bool

record ('u, 'p, 'l) Service_state =
  sv_loader :: "('u, 'p, 'l) Loader_state"
  sv_handlers :: nat
  sv_resolutions :: "string list"

text \<open>The clock readings of one load.\<close>

record load_times =
  lt_refresh :: refresh_times
  lt_now :: nat
  lt_instant :: nat

definition load_at ::
  "('u, 'p, 'l) ResourceLoader \<Rightarrow> load_times \<Rightarrow> 'u ResourceKey \<Rightarrow>
   (('u, 'p) Representation, ('u, 'p, 'l) Loader_state) stateful" where
  "load_at E t key = load E (lt_refresh t) (lt_now t) (lt_instant t) key"

text \<open>\<open>E\<close> is the loader's environment without the limit on keys, which the limits give.\<close>

definition ResolverService_new ::
  "('u, 'p, 'l) ResourceLoader \<Rightarrow> Limits \<Rightarrow> bool \<Rightarrow>
   (('u, 'p, 'l) ResolverService \<times> ('u, 'p, 'l) Service_state, string) res" where
  "ResolverService_new E limits allow_test_keys =
     res_bind (Limits_validate limits) (\<lambda>_.
     let E = E\<lparr>rl_max_keys := lim_max_keys limits\<rparr> in
     case ResourceLoader_new E limits of
       Ok loader \<Rightarrow>
         Ok (\<lparr>rs_loader = E, rs_limits = limits, rs_allow_test_keys = allow_test_keys\<rparr>,
             \<lparr>sv_loader = loader, sv_handlers = active_handlers limits, sv_resolutions = []\<rparr>)
     | _ \<Rightarrow> Panic)"

definition inbound_body_limit :: "('u, 'p, 'l) ResolverService \<Rightarrow> nat" where
  "inbound_body_limit self = inbound_body_bytes (rs_limits self)"

definition known_test_key :: "string \<Rightarrow> bool" where
  "known_test_key key_id \<longleftrightarrow> key_id \<in> set TEST_KEY_THUMBPRINTS"

definition select_key :: "crypto_api \<Rightarrow> ResourceKeyEntry list \<Rightarrow> string \<Rightarrow> Ed25519Jwk option" where
  "select_key C keys key_id =
     map_option entry_jwk
       (case find (\<lambda>key. entry_kid key = Some key_id) keys of
          Some key \<Rightarrow> Some key
        | None \<Rightarrow> find (\<lambda>key. b64_thumbprint C (entry_jwk key) = key_id) keys)"

definition validate_request ::
  "'u url_api \<Rightarrow> ResolveRequest \<Rightarrow> ('u DiscoveryTarget, FetchError) res" where
  "validate_request U request =
     (if req_api_version request \<noteq> ResolverApiVersion.V1 \<or> req_key_id request = [] \<or>
         length (req_key_id request) > MAX_KEY_ID_BYTES \<or> length (req_agent_url request) > MAX_AGENT_URL_BYTES
      then Err (FetchError_new BadRequest)
      else map_err (\<lambda>_. FetchError_new BadRequest)
             (parse_discovery_target U (req_agent_url request) (req_discovery request)))"

fun jwks_keys :: "'u ParsedResource \<Rightarrow> (ResourceKeyEntry list, FetchError) res" where
  "jwks_keys (ParsedResource.Jwks keys) = Ok keys"
| "jwks_keys (ParsedResource.Cimd _) = Err (FetchError_new InvalidResource)"

fun cimd_document :: "'u ParsedResource \<Rightarrow> ('u CimdResource, FetchError) res" where
  "cimd_document (ParsedResource.Cimd c) = Ok c"
| "cimd_document (ParsedResource.Jwks _) = Err (FetchError_new InvalidResource)"

definition load_jwks ::
  "('u, 'p, 'l) ResourceLoader \<Rightarrow> load_times \<Rightarrow> 'u \<Rightarrow> (ResourceKeyEntry list, ('u, 'p, 'l) Loader_state) stateful" where
  "load_jwks E t url =
     st_bind (load_at E t \<lparr>rk_url = url, rk_kind = ResourceKind.Jwks\<rparr>) (\<lambda>representation.
     st_lift (jwks_keys (rep_resource representation)))"

definition load_keys ::
  "('u, 'p, 'l) ResourceLoader \<Rightarrow> load_times \<Rightarrow> load_times \<Rightarrow> DiscoveryMechanism \<Rightarrow> 'u \<Rightarrow>
   (ResourceKeyEntry list, ('u, 'p, 'l) Loader_state) stateful" where
  "load_keys E t1 t2 discovery fetch_url =
     (case discovery of
        DiscoveryMechanism.Cimd \<Rightarrow>
          st_bind (load_at E t1 \<lparr>rk_url = fetch_url, rk_kind = ResourceKind.Cimd\<rparr>) (\<lambda>metadata.
          st_bind (st_lift (cimd_document (rep_resource metadata))) (\<lambda>cimd.
          case cimd_inline_jwks cimd of
            Some keys \<Rightarrow> st_lift (Ok keys)
          | None \<Rightarrow>
              st_bind (st_lift (ok_or (FetchError_new InvalidResource) (cimd_jwks_uri cimd))) (load_jwks E t2)))
      | _ \<Rightarrow> load_jwks E t1 fetch_url)"

definition resolve_inner ::
  "('u, 'p, 'l) ResolverService \<Rightarrow> load_times \<Rightarrow> load_times \<Rightarrow> ResolveRequest \<Rightarrow>
   (ResolveResponse, ('u, 'p, 'l) Loader_state) stateful" where
  "resolve_inner self t1 t2 request =
     (let E = rs_loader self in
      st_bind (st_lift (validate_request (rl_urls E) request)) (\<lambda>target.
      let normalized_identifier = target_identifier target in
      if \<not> rs_allow_test_keys self \<and> known_test_key (req_key_id request)
      then st_lift (Ok (KeyNotFound normalized_identifier))
      else st_bind (load_keys E t1 t2 (req_discovery request) (target_fetch_url target)) (\<lambda>keys.
        st_lift (Ok (case select_key (dec_crypto (rl_decode E)) keys (req_key_id request) of
                       Some jwk \<Rightarrow> Resolved normalized_identifier jwk
                     | None \<Rightarrow> KeyNotFound normalized_identifier)))))"

definition acquire_handler :: "('u, 'p, 'l) Service_state \<Rightarrow> ('u, 'p, 'l) Service_state option" where
  "acquire_handler s = (if sv_handlers s = 0 then None else Some (s\<lparr>sv_handlers := sv_handlers s - 1\<rparr>))"

text \<open>\<open>expired\<close> is the state in which the deadline dropped the work, when it did.\<close>

definition resolve_timed ::
  "('u, 'p, 'l) ResolverService \<Rightarrow> load_times \<Rightarrow> load_times \<Rightarrow> ('u, 'p, 'l) Loader_state option \<Rightarrow>
   ResolveRequest \<Rightarrow> (ResolveResponse, ('u, 'p, 'l) Service_state) stateful" where
  "resolve_timed self t1 t2 expired request s =
     (case acquire_handler s of
        None \<Rightarrow> (Err (FetchError_new Overloaded), s)
      | Some s \<Rightarrow>
          let (result, loader) =
                (case expired of
                   Some loader \<Rightarrow> (Err (FetchError_new Timeout), loader)
                 | None \<Rightarrow> resolve_inner self t1 t2 request (sv_loader s))
          in (result, s\<lparr>sv_loader := loader, sv_handlers := sv_handlers s + 1\<rparr>))"

definition resolve ::
  "('u, 'p, 'l) ResolverService \<Rightarrow> load_times \<Rightarrow> load_times \<Rightarrow> ('u, 'p, 'l) Loader_state option \<Rightarrow>
   ResolveRequest \<Rightarrow> (ResolveResponse, ('u, 'p, 'l) Service_state) stateful" where
  "resolve self t1 t2 expired request s =
     (let (result, s) = resolve_timed self t1 t2 expired request s
      in (result, s\<lparr>sv_resolutions := sv_resolutions s @ [resolution_result result]\<rparr>))"

section \<open>Facts\<close>

lemma find_SomeD: "find P xs = Some x \<Longrightarrow> x \<in> set xs \<and> P x"
  by (auto simp: find_Some_iff)

lemma select_key_Some:
  assumes "select_key C keys key_id = Some jwk"
  shows "\<exists>e \<in> set keys. entry_jwk e = jwk \<and> (entry_kid e = Some key_id \<or> b64_thumbprint C jwk = key_id)"
  using assms by (auto simp: select_key_def split: option.splits dest!: find_SomeD)

lemma select_key_None:
  "select_key C keys key_id = None \<longleftrightarrow>
     (\<forall>e \<in> set keys. entry_kid e \<noteq> Some key_id \<and> b64_thumbprint C (entry_jwk e) \<noteq> key_id)"
  by (auto simp: select_key_def find_None_iff split: option.splits dest!: find_SomeD)

lemma st_bind_Ok: "st_bind m f s = (Ok b, u) \<longleftrightarrow> (\<exists>a t. m s = (Ok a, t) \<and> f a t = (Ok b, u))"
  by (cases "m s"; cases "fst (m s)") (auto simp: st_bind_def)

lemma st_lift_Ok: "st_lift r s = (Ok a, t) \<longleftrightarrow> r = Ok a \<and> t = s"
  by (auto simp: st_lift_def)

text \<open>
  Where the entries of a key set come from: the resource at the target's URL, or for a metadata
  document its inline keys or the key set it points to.
\<close>

definition published ::
  "('u, 'p, 'l) ResourceLoader \<Rightarrow> DiscoveryMechanism \<Rightarrow> 'u \<Rightarrow> ResourceKeyEntry \<Rightarrow> bool" where
  "published E discovery url e \<longleftrightarrow>
     (if discovery = DiscoveryMechanism.Cimd then
        \<exists>doc. fetched E \<lparr>rk_url = url, rk_kind = ResourceKind.Cimd\<rparr> (ParsedResource.Cimd doc) \<and>
          ((\<exists>keys. cimd_inline_jwks doc = Some keys \<and> e \<in> set keys) \<or>
           (\<exists>uri keys. cimd_inline_jwks doc = None \<and> cimd_jwks_uri doc = Some uri \<and> e \<in> set keys \<and>
              fetched E \<lparr>rk_url = uri, rk_kind = ResourceKind.Jwks\<rparr> (ParsedResource.Jwks keys)))
      else \<exists>keys. e \<in> set keys \<and>
             fetched E \<lparr>rk_url = url, rk_kind = ResourceKind.Jwks\<rparr> (ParsedResource.Jwks keys))"

lemma load_at_fetched:
  assumes "reachable (loader_init E limits) (loader_step E) s" and "load_at E t key s = (Ok rep, s')"
  shows "fetched E key (rep_resource rep)" and "reachable (loader_init E limits) (loader_step E) s'"
proof -
  have "valid_rep E key rep"
    using loader_reachable(1) [OF assms(1)] assms(2) [unfolded load_at_def load_def] by (rule loader.load_valid)
  then show "fetched E key (rep_resource rep)" by (simp add: valid_rep_def)
  show "reachable (loader_init E limits) (loader_step E) s'"
    using assms(1) step_load [OF assms(2) [unfolded load_at_def]] by (rule reachable_step)
qed

lemma load_jwks_fetched:
  assumes "reachable (loader_init E limits) (loader_step E) s" and "load_jwks E t url s = (Ok keys, s')"
  shows "fetched E \<lparr>rk_url = url, rk_kind = ResourceKind.Jwks\<rparr> (ParsedResource.Jwks keys)"
proof -
  from assms(2) obtain rep where
    "load_at E t \<lparr>rk_url = url, rk_kind = ResourceKind.Jwks\<rparr> s = (Ok rep, s')" "jwks_keys (rep_resource rep) = Ok keys"
    by (auto simp: load_jwks_def st_bind_Ok st_lift_Ok)
  moreover from this(2) have "rep_resource rep = ParsedResource.Jwks keys" by (cases "rep_resource rep") auto
  ultimately show ?thesis using load_at_fetched(1) [OF assms(1)] by force
qed

lemma load_keys_published:
  assumes "reachable (loader_init E limits) (loader_step E) s"
    and "load_keys E t1 t2 discovery url s = (Ok keys, s')" and "e \<in> set keys"
  shows "published E discovery url e"
proof (cases "discovery = DiscoveryMechanism.Cimd")
  case True
  with assms(2) obtain rep u doc where l: "load_at E t1 \<lparr>rk_url = url, rk_kind = ResourceKind.Cimd\<rparr> s = (Ok rep, u)"
    and d: "cimd_document (rep_resource rep) = Ok doc"
    and k: "(case cimd_inline_jwks doc of
        Some keys \<Rightarrow> st_lift (Ok keys)
      | None \<Rightarrow> st_bind (st_lift (ok_or (FetchError_new InvalidResource) (cimd_jwks_uri doc))) (load_jwks E t2)) u = (Ok keys, s')"
    by (auto simp: load_keys_def st_bind_Ok st_lift_Ok)
  have "rep_resource rep = ParsedResource.Cimd doc" using d by (cases "rep_resource rep") auto
  with load_at_fetched [OF assms(1) l]
  have f: "fetched E \<lparr>rk_url = url, rk_kind = ResourceKind.Cimd\<rparr> (ParsedResource.Cimd doc)"
    and r: "reachable (loader_init E limits) (loader_step E) u"
    by simp_all
  show ?thesis
  proof (cases "cimd_inline_jwks doc")
    case None
    with k obtain uri where u: "cimd_jwks_uri doc = Some uri" "load_jwks E t2 uri u = (Ok keys, s')"
      by (auto simp: st_bind_Ok st_lift_Ok ok_or_def split: option.splits)
    from load_jwks_fetched [OF r u(2)] f None u(1) assms(3) True show ?thesis
      unfolding published_def by (auto intro!: exI [of _ doc])
  next
    case (Some ks)
    with k f assms(3) True show ?thesis by (auto simp: published_def st_lift_Ok)
  qed
next
  case False
  with assms(2) have "load_jwks E t1 url s = (Ok keys, s')"
    by (cases discovery) (simp_all add: load_keys_def)
  with load_jwks_fetched [OF assms(1)] assms(3) False show ?thesis by (auto simp: published_def)
qed

lemma resolve_inner_Resolved:
  assumes "resolve_inner self t1 t2 request s = (Ok (Resolved i jwk), s')"
  obtains target keys where
    "validate_request (rl_urls (rs_loader self)) request = Ok target" "i = target_identifier target"
    "rs_allow_test_keys self \<or> \<not> known_test_key (req_key_id request)"
    "load_keys (rs_loader self) t1 t2 (req_discovery request) (target_fetch_url target) s = (Ok keys, s')"
    "select_key (dec_crypto (rl_decode (rs_loader self))) keys (req_key_id request) = Some jwk"
  using assms that
  by (auto simp: resolve_inner_def Let_def st_bind_Ok st_lift_Ok split: if_splits option.splits)

lemma resolve_inner_identifier:
  assumes "resolve_inner self t1 t2 request s = (Ok response, s')"
  shows "\<exists>target. validate_request (rl_urls (rs_loader self)) request = Ok target \<and>
    resp_identifier response = target_identifier target"
  using assms by (auto simp: resolve_inner_def Let_def st_bind_Ok st_lift_Ok split: if_splits option.splits)

lemma validate_request_Ok:
  "validate_request U request = Ok target \<longleftrightarrow>
     req_key_id request \<noteq> [] \<and> length (req_key_id request) \<le> MAX_KEY_ID_BYTES \<and>
     length (req_agent_url request) \<le> MAX_AGENT_URL_BYTES \<and>
     parse_discovery_target U (req_agent_url request) (req_discovery request) = Ok target"
  by (cases "req_api_version request") (auto simp: validate_request_def map_err_Ok)

lemma fetched_keys_valid:
  assumes "fetched E key r" and "e \<in> set (resource_keys r)"
  shows "is_valid_public_key (dec_crypto (rl_decode E)) (entry_jwk e)"
proof -
  from assms(1) obtain body where
    "parse_resource (rl_urls E) (dec_crypto (rl_decode E)) (dec_json (rl_decode E)) (rk_kind key) (rk_url key)
       body (rl_max_keys E) = Ok r"
    by (auto simp: fetched_def)
  with assms(2) show ?thesis
    by (auto simp: parse_resource_def res_simps list_all_iff
        split: ResourceKind.splits option.splits if_splits dest!: parse_keys_valid)
qed

lemma published_valid:
  "published E discovery url e \<Longrightarrow> is_valid_public_key (dec_crypto (rl_decode E)) (entry_jwk e)"
  using fetched_keys_valid [of E _ "ParsedResource.Jwks _" e] fetched_keys_valid [of E _ "ParsedResource.Cimd _" e]
  by (fastforce simp: published_def split: if_splits)

text \<open>A directory entry's key id, when it has one, is the key's thumbprint.\<close>

lemma directory_entry:
  assumes "fetched E \<lparr>rk_url = url, rk_kind = ResourceKind.Jwks\<rparr> (ParsedResource.Jwks keys)"
    and "is_directory_url (rl_urls E) url" and "e \<in> set keys"
  shows "entry_kid e \<in> {None, Some (b64_thumbprint (dec_crypto (rl_decode E)) (entry_jwk e))}"
proof -
  from assms(1) obtain jwks where
    "parse_keys (dec_crypto (rl_decode E)) jwks (rl_max_keys E) (is_directory_url (rl_urls E) url) = Ok keys"
    by (auto simp: fetched_def parse_resource_def res_simps)
  with assms(2,3) show ?thesis
    by (fastforce simp: parse_keys_eq list_all_iff good_key_def entry_of_def split: if_splits)
qed

lemma directory_fetch_url:
  assumes "url_laws U" and "parse_discovery_target U v Directory = Ok target"
  shows "is_directory_url U (target_fetch_url target)"
  using assms(2)
  by (auto simp: parse_discovery_target_def normalized_target_def is_directory_url_def Let_def
      url_law_simps [OF assms(1)] split: option.splits if_splits)

text \<open>How many requests a computation may send.\<close>

definition sends_at_most :: "nat \<Rightarrow> ('a, ('u, 'p, 'l) Loader_state) stateful \<Rightarrow> bool" where
  "sends_at_most n m \<longleftrightarrow> (\<forall>s. \<exists>reqs. ld_sent (snd (m s)) = ld_sent s @ reqs \<and> length reqs \<le> n)"

lemma sends_lift: "sends_at_most 0 (st_lift r)"
  by (simp add: sends_at_most_def st_lift_def)

lemma sends_load_at: "sends_at_most 1 (load_at E t key)"
  using load_effect(1) unfolding sends_at_most_def load_at_def by blast

lemma sends_mono: "sends_at_most m f \<Longrightarrow> m \<le> n \<Longrightarrow> sends_at_most n f"
  unfolding sends_at_most_def by (meson order_trans)

lemma sends_bind:
  fixes m :: "('a, ('u, 'p, 'l) Loader_state) stateful"
  assumes "sends_at_most i m" and "\<And>a. sends_at_most j (f a)"
  shows "sends_at_most (i + j) (st_bind m f)"
  unfolding sends_at_most_def
proof
  fix s :: "('u, 'p, 'l) Loader_state"
  obtain xs where xs: "ld_sent (snd (m s)) = ld_sent s @ xs" "length xs \<le> i"
    using assms(1) unfolding sends_at_most_def by blast
  show "\<exists>reqs. ld_sent (snd (st_bind m f s)) = ld_sent s @ reqs \<and> length reqs \<le> i + j"
  proof (cases rule: st_bind_cases [of m s f])
    case (Ok a t)
    obtain ys where "ld_sent (snd (f a t)) = ld_sent t @ ys" "length ys \<le> j"
      using assms(2) unfolding sends_at_most_def by blast
    with Ok xs show ?thesis by (intro exI [of _ "xs @ ys"]) simp
  qed (use xs in auto)
qed

lemma sends_load_jwks: "sends_at_most 1 (load_jwks E t url)"
  using sends_bind [OF sends_load_at sends_lift] by (simp add: load_jwks_def)

lemma sends_load_keys: "sends_at_most 2 (load_keys E t1 t2 discovery url)"
proof (cases discovery)
  case Cimd
  have "sends_at_most 1 (case cimd_inline_jwks c of
      Some keys \<Rightarrow> st_lift (Ok keys)
    | None \<Rightarrow> st_bind (st_lift (ok_or (FetchError_new InvalidResource) (cimd_jwks_uri c))) (load_jwks E t2))" for c
    by (cases "cimd_inline_jwks c")
      (simp_all add: sends_mono [OF sends_lift] sends_bind [OF sends_lift sends_load_jwks, simplified])
  from sends_bind [OF sends_load_at sends_bind [OF sends_lift this]] show ?thesis
    by (simp add: load_keys_def Cimd numeral_2_eq_2)
qed (simp_all add: load_keys_def sends_mono [OF sends_load_jwks])

lemma sends_resolve_inner: "sends_at_most 2 (resolve_inner self t1 t2 request)"
  unfolding resolve_inner_def Let_def
  by (rule sends_bind [OF sends_lift, where j = 2, unfolded add_0])
    (simp add: sends_mono [OF sends_lift] sends_bind [OF sends_load_keys sends_lift, unfolded add_0_right])

text \<open>A resolved key with its entry and where that was published.\<close>

lemma resolved_entry:
  assumes "reachable (loader_init (rs_loader self) limits) (loader_step (rs_loader self)) s"
    and "resolve_inner self t1 t2 request s = (Ok (Resolved i jwk), s')"
  shows "\<exists>target e. validate_request (rl_urls (rs_loader self)) request = Ok target \<and> i = target_identifier target \<and>
    (rs_allow_test_keys self \<or> \<not> known_test_key (req_key_id request)) \<and>
    published (rs_loader self) (req_discovery request) (target_fetch_url target) e \<and> entry_jwk e = jwk \<and>
    is_valid_public_key (dec_crypto (rl_decode (rs_loader self))) jwk \<and>
    (entry_kid e = Some (req_key_id request) \<or>
     b64_thumbprint (dec_crypto (rl_decode (rs_loader self))) jwk = req_key_id request)"
proof -
  from assms(2) obtain target keys where r:
    "validate_request (rl_urls (rs_loader self)) request = Ok target" "i = target_identifier target"
    "rs_allow_test_keys self \<or> \<not> known_test_key (req_key_id request)"
    "load_keys (rs_loader self) t1 t2 (req_discovery request) (target_fetch_url target) s = (Ok keys, s')"
    "select_key (dec_crypto (rl_decode (rs_loader self))) keys (req_key_id request) = Some jwk"
    by (rule resolve_inner_Resolved)
  from select_key_Some [OF r(5)] obtain e where e: "e \<in> set keys" "entry_jwk e = jwk"
    "entry_kid e = Some (req_key_id request) \<or>
     b64_thumbprint (dec_crypto (rl_decode (rs_loader self))) jwk = req_key_id request"
    by blast
  note p = load_keys_published [OF assms(1) r(4) e(1)]
  from p published_valid [OF p] e r(1-3) show ?thesis
    by (intro exI [of _ target] exI [of _ e]) auto
qed

section \<open>The service over the fixture transport\<close>

definition fixture_service :: "(plain_url, nat, unit) ResolverService" where
  "fixture_service = \<lparr>rs_loader = fixture_env, rs_limits = Limits_default, rs_allow_test_keys = False\<rparr>"

definition fixture_load_times :: load_times where
  "fixture_load_times = \<lparr>lt_refresh = fixture_times, lt_now = 0, lt_instant = 0\<rparr>"

definition fixture_query :: ResolveRequest where
  "fixture_query = \<lparr>req_api_version = ResolverApiVersion.V1, req_discovery = Directory,
     req_agent_url = FIXTURE_AGENT_URL, req_key_id = ''k''\<rparr>"

lemma fixture_target:
  "\<exists>i. parse_discovery_target plain_url_api FIXTURE_AGENT_URL Directory =
     Ok \<lparr>target_fetch_url = rk_url (fixture_key DIRECTORY_PATH), target_identifier = i\<rparr>"
proof -
  let ?u = "\<lparr>pu_scheme = ''https'', pu_host = Some FIXTURE_HOST, pu_path = ''/'', pu_query = None, pu_fragment = None\<rparr>"
  have u: "plain_parse FIXTURE_AGENT_URL = Some ?u"
    by (simp add: plain_parse_def strip_prefix_def is_ascii_byte_def byte_val_def FIXTURE_AGENT_URL_def FIXTURE_HOST_def)
  have a: "discovery_acceptable plain_url_api Directory ?u" by (simp add: discovery_acceptable_def)
  have l: "length FIXTURE_AGENT_URL \<le> MAX_AGENT_URL_BYTES" by (simp add: FIXTURE_AGENT_URL_def MAX_AGENT_URL_BYTES_def)
  obtain p where p: "is_ascii p" "pu_path (discovery_base plain_url_api Directory ?u) = CHR ''/'' # p"
    using discovery_base_path [OF url_laws_plain _ a, of FIXTURE_AGENT_URL] u by auto
  obtain i where "normalized_target plain_url_api (discovery_base plain_url_api Directory ?u) =
      Ok \<lparr>target_fetch_url = (discovery_base plain_url_api Directory ?u)\<lparr>pu_fragment := None\<rparr>, target_identifier = i\<rparr>"
    using normalized_target_Ok [OF url_laws_plain p(1)] p(2) by auto
  with parse_discovery_target_acceptable [of plain_url_api FIXTURE_AGENT_URL ?u Directory] u a l show ?thesis
    by (auto simp: fixture_key_def discovery_base_def)
qed

lemma fixture_resolve_inner:
  "\<exists>i t. resolve_inner fixture_service fixture_load_times fixture_load_times fixture_query fixture_start =
     (Ok (Resolved i (Ed25519Jwk_new ''k'')), t)"
proof -
  obtain i where i: "parse_discovery_target plain_url_api FIXTURE_AGENT_URL Directory =
     Ok \<lparr>target_fetch_url = rk_url (fixture_key DIRECTORY_PATH), target_identifier = i\<rparr>"
    using fixture_target by blast
  have v: "validate_request plain_url_api fixture_query =
      Ok \<lparr>target_fetch_url = rk_url (fixture_key DIRECTORY_PATH), target_identifier = i\<rparr>"
    unfolding validate_request_Ok using i
    by (simp add: fixture_query_def MAX_KEY_ID_BYTES_def MAX_AGENT_URL_BYTES_def FIXTURE_AGENT_URL_def)
  obtain rep t where l: "load fixture_env fixture_times 0 0 (fixture_key DIRECTORY_PATH) fixture_start = (Ok rep, t)"
    "rep_resource rep = sample_keys"
    using fixture_load by blast
  have k: "\<lparr>rk_url = rk_url (fixture_key DIRECTORY_PATH), rk_kind = ResourceKind.Jwks\<rparr> = fixture_key DIRECTORY_PATH"
    by (simp add: fixture_key_def)
  have "b64_thumbprint sample_crypto (Ed25519Jwk_new ''k'') = ''k''"
    by (simp add: b64_thumbprint_def sample_crypto_def)
  then have "select_key sample_crypto [\<lparr>entry_jwk = Ed25519Jwk_new ''k'', entry_kid = None\<rparr>] ''k'' = Some (Ed25519Jwk_new ''k'')"
    by (simp add: select_key_def)
  with v l k show ?thesis
    by (simp add: resolve_inner_def fixture_service_def st_bind_def st_lift_def load_keys_def load_jwks_def load_at_def
        fixture_load_times_def sample_keys_def known_test_key_def TEST_KEY_THUMBPRINTS_def sample_decode_def
        fixture_query_def [THEN arg_cong [of _ _ req_key_id]] fixture_query_def [THEN arg_cong [of _ _ req_discovery]])
qed

section \<open>Properties\<close>

text \<open>
  What a resolved key is: the identifier is that of the discovery URL in the request, the key id was
  not a published test key unless those are allowed, and the key is an entry, with a 32-byte public key
  and with the requested key id as its \<open>kid\<close> or its thumbprint, of a key set fetched by a safe request
  from the discovery URL itself, or from the place that the client metadata fetched from that URL names.
\<close>

lemma resolved_is_published:
  assumes "reachable (loader_init (rs_loader self) limits) (loader_step (rs_loader self)) s"
    and "resolve_inner self t1 t2 request s = (Ok (Resolved i jwk), s')"
  shows "\<exists>target e.
    parse_discovery_target (rl_urls (rs_loader self)) (req_agent_url request) (req_discovery request) = Ok target \<and>
    i = target_identifier target \<and>
    (rs_allow_test_keys self \<or> req_key_id request \<noteq> ''poqkLGiymh_W0uP6PZFw-dvez3QJT5SolqXBCW38r0U'') \<and>
    published (rs_loader self) (req_discovery request) (target_fetch_url target) e \<and> entry_jwk e = jwk \<and>
    is_valid_public_key (dec_crypto (rl_decode (rs_loader self))) jwk \<and>
    (entry_kid e = Some (req_key_id request) \<or>
     b64_thumbprint (dec_crypto (rl_decode (rs_loader self))) jwk = req_key_id request)"
  using resolved_entry [OF assms] by (auto simp: validate_request_Ok known_test_key_def TEST_KEY_THUMBPRINTS_def)

text \<open>
  C28. Directory discovery returns the key that was asked for: the thumbprint of the returned key is the
  requested key id. (With the other mechanisms a \<open>kid\<close> that is not a thumbprint may match first.)
\<close>

theorem directory_key_has_thumbprint:
  assumes "url_laws (rl_urls (rs_loader self))"
    and "reachable (loader_init (rs_loader self) limits) (loader_step (rs_loader self)) s"
    and "resolve_inner self t1 t2 request s = (Ok (Resolved i jwk), s')"
    and "req_discovery request = Directory"
  shows "b64_thumbprint (dec_crypto (rl_decode (rs_loader self))) jwk = req_key_id request"
proof -
  from assms(3) obtain target keys where r:
    "validate_request (rl_urls (rs_loader self)) request = Ok target"
    "load_keys (rs_loader self) t1 t2 (req_discovery request) (target_fetch_url target) s = (Ok keys, s')"
    "select_key (dec_crypto (rl_decode (rs_loader self))) keys (req_key_id request) = Some jwk"
    by (rule resolve_inner_Resolved)
  from select_key_Some [OF r(3)] obtain e where e: "e \<in> set keys" "entry_jwk e = jwk"
    "entry_kid e = Some (req_key_id request) \<or>
     b64_thumbprint (dec_crypto (rl_decode (rs_loader self))) jwk = req_key_id request"
    by blast
  have "is_directory_url (rl_urls (rs_loader self)) (target_fetch_url target)"
    using r(1) assms(4) by (intro directory_fetch_url [OF assms(1), of "req_agent_url request"]) (simp add: validate_request_Ok)
  moreover have "load_jwks (rs_loader self) t1 (target_fetch_url target) s = (Ok keys, s')"
    using r(2) assms(4) by (simp add: load_keys_def)
  ultimately show ?thesis
    using directory_entry [OF load_jwks_fetched [OF assms(2)] _ e(1)] e(2,3) by auto
qed

theorem directory_key_has_thumbprint_witness:
  "b64_thumbprint sample_crypto (Ed25519Jwk_new ''k'') = ''k''"
proof -
  obtain i t where r: "resolve_inner fixture_service fixture_load_times fixture_load_times fixture_query fixture_start =
     (Ok (Resolved i (Ed25519Jwk_new ''k'')), t)"
    using fixture_resolve_inner by blast
  have "reachable (loader_init (rs_loader fixture_service) Limits_default) (loader_step (rs_loader fixture_service)) fixture_start"
    using fixture_start_reachable by (simp add: fixture_service_def)
  from directory_key_has_thumbprint [OF _ this r] show ?thesis
    by (simp add: fixture_service_def fixture_query_def url_laws_plain sample_decode_def)
qed

text \<open>
  Which key is chosen from a set: none exactly when no entry has the key id as its \<open>kid\<close> or as its
  thumbprint; otherwise the first entry with that \<open>kid\<close>, and only without one the first with that
  thumbprint. So a \<open>kid\<close> hides the key whose thumbprint was asked for.
\<close>

lemma select_key_prefers_kid:
  "(select_key C keys key_id = None \<longleftrightarrow>
      (\<forall>e \<in> set keys. entry_kid e \<noteq> Some key_id \<and> b64_thumbprint C (entry_jwk e) \<noteq> key_id)) \<and>
   select_key C (\<lparr>entry_jwk = a, entry_kid = Some (b64_thumbprint C b)\<rparr> # \<lparr>entry_jwk = b, entry_kid = None\<rparr> # keys)
     (b64_thumbprint C b) = Some a"
  using select_key_None by (auto simp: select_key_def)

lemma resolution_bounded_handlers:
  "sv_handlers (snd (resolve self t1 t2 expired request s)) = sv_handlers s"
  by (auto simp: resolve_def resolve_timed_def acquire_handler_def Let_def split: option.splits prod.splits if_splits)



end
