(* ===== verification/Server.thy ===== *)
theory Server
  imports Service
begin

text \<open>
  The HTTP boundary of the resolver, \<open>crates/resolver/src/server.rs\<close>. The body limit and the JSON extractor
  of \<open>axum\<close> are a parameter that yields the decoded request or the status it rejects the request with.
\<close>

record server_request =
  sq_verb :: string
  sq_path :: string
  sq_headers :: HeaderMap
  sq_body :: string

type_synonym answer = "nat \<times> string"

text \<open>How a resolution becomes a response. A panic ends the task without one.\<close>

definition resolve_answer ::
  "(ResolveResponse \<Rightarrow> string) \<Rightarrow> (ResolveResponse, FetchError) res \<Rightarrow> (answer, FetchError) res" where
  "resolve_answer to_json result =
     (case result of
        Ok response \<Rightarrow> Ok (200, to_json response)
      | Err error \<Rightarrow>
          if err_kind error = BadRequest then Ok (400, ''invalid resolver request'' @ [CHR 0x0A])
          else Ok (503, ''resolution unavailable'' @ [CHR 0x0A])
      | Panic \<Rightarrow> Panic)"

definition health :: nat where "health = 204"

record wire_api =
  decode_body :: "nat \<Rightarrow> server_request \<Rightarrow> (ResolveRequest, nat) res"
  to_json :: "ResolveResponse \<Rightarrow> string"

definition router ::
  "wire_api \<Rightarrow> ('u, 'p, 'l) ResolverService \<Rightarrow> load_times \<Rightarrow> load_times \<Rightarrow> ('u, 'p, 'l) Loader_state option \<Rightarrow>
   server_request \<Rightarrow> (answer, ('u, 'p, 'l) Service_state) stateful" where
  "router J resolver t1 t2 expired q s =
     (if sq_path q = ''/v1/resolve'' then
        if sq_verb q = ''POST'' then
          (case decode_body J (inbound_body_limit resolver) q of
             Ok request \<Rightarrow>
               let (result, s) = resolve resolver t1 t2 expired request s
               in (resolve_answer (to_json J) result, s)
           | Err status \<Rightarrow> (Ok (status, []), s)
           | Panic \<Rightarrow> (Panic, s))
        else (Ok (405, []), s)
      else if sq_path q = ''/healthz'' then
        (Ok (if sq_verb q \<in> {''GET'', ''HEAD''} then health else 405, []), s)
      else (Ok (404, []), s))"

section \<open>Properties\<close>

lemma resolve_answer_status:
  "resolve_answer f result = Ok (status, body) \<Longrightarrow>
     status = 200 \<and> (\<exists>response. result = Ok response \<and> body = f response) \<or>
     status = 400 \<and> (\<exists>e. result = Err e \<and> err_kind e = BadRequest) \<or>
     status = 503 \<and> (\<exists>e. result = Err e \<and> err_kind e \<noteq> BadRequest)"
  by (auto simp: resolve_answer_def split: res.splits if_splits)



end
