(* ===== verification/Interfaces.thy ===== *)
theory Interfaces
  imports Wba_Prelude
begin

text \<open>
  The types of the libraries the module matches on, and the operations it calls as parameters:
  structured field values (\<open>sfv\<close>), the signature component names of \<open>web_bot_auth\<close>, and the request
  headers an Envoy filter sees. The data types have the variants the sources name and one more that
  stands for the variants they treat alike; parsers and serialisers are record fields, never
  definitions.
\<close>

section \<open>Structured field values\<close>

datatype bare_item = SfString string | SfToken string | SfOther string

type_synonym sf_params = "(string \<times> bare_item) list"

record sf_item =
  bare_item :: bare_item
  item_params :: sf_params

record sf_inner_list =
  inner_items :: "sf_item list"
  inner_params :: sf_params

datatype list_entry = Item sf_item | InnerList sf_inner_list

text \<open>A dictionary keeps its keys in order, each once; inserting a present key replaces its value.\<close>

type_synonym dictionary = "(string \<times> list_entry) list"

definition dict_extend :: "dictionary \<Rightarrow> dictionary \<Rightarrow> dictionary" where
  "dict_extend d e = fold (\<lambda>(k, v). AList.update k v) e d"

fun as_string :: "bare_item \<Rightarrow> string option" where
  "as_string (SfString s) = Some s"
| "as_string _ = None"

fun as_token :: "bare_item \<Rightarrow> string option" where
  "as_token (SfToken s) = Some s"
| "as_token _ = None"

record sfv_api =
  parse_dictionary :: "string \<Rightarrow> dictionary option"
  parse_item :: "string \<Rightarrow> sf_item option"
  serialize_item :: "sf_item \<Rightarrow> string"

section \<open>Covered components\<close>

text \<open>The boolean of a derived component is its \<open>req\<close> flag.\<close>

datatype DerivedComponent =
    Method bool | Authority bool | Scheme bool | TargetUri bool | Path bool | Query bool
  | OtherDerived string

datatype HTTPFieldParameters = Key string | OtherParameter string

record HTTPField =
  field_name :: string
  field_parameters :: "HTTPFieldParameters list"

datatype CoveredComponent = Derived DerivedComponent | HTTP HTTPField

section \<open>Envoy request headers\<close>

record 'h header_api =
  hdr_value :: "'h \<Rightarrow> string \<Rightarrow> string option"
  hdr_values :: "'h \<Rightarrow> string \<Rightarrow> string list"
  hdr_remove :: "string \<Rightarrow> 'h \<Rightarrow> 'h"
  hdr_set :: "string \<Rightarrow> string \<Rightarrow> 'h \<Rightarrow> 'h"

text \<open>
  The documented behaviour of the header map: the single value is the first one, removing a name
  leaves no value of it, setting a name leaves exactly the new value, other names are not touched.
\<close>

definition header_laws :: "'h header_api \<Rightarrow> bool" where
  "header_laws H \<longleftrightarrow>
     (\<forall>h n. hdr_value H h n = (case hdr_values H h n of [] \<Rightarrow> None | v # _ \<Rightarrow> Some v)) \<and>
     (\<forall>h n m. hdr_values H (hdr_remove H n h) m = (if m = n then [] else hdr_values H h m)) \<and>
     (\<forall>h n v m. hdr_values H (hdr_set H n v h) m = (if m = n then [v] else hdr_values H h m))"

lemma header_laws_simps:
  assumes "header_laws H"
  shows "hdr_values H (hdr_remove H n h) m = (if m = n then [] else hdr_values H h m)"
    and "hdr_values H (hdr_set H n v h) m = (if m = n then [v] else hdr_values H h m)"
    and "hdr_value H h n = (case hdr_values H h n of [] \<Rightarrow> None | v # _ \<Rightarrow> Some v)"
    and "hdr_value H h n = None \<longleftrightarrow> hdr_values H h n = []"
  using assms unfolding header_laws_def by (simp_all split: list.splits)

text \<open>An instance of the parameter: headers as a list of names and values.\<close>

definition alist_header_api :: "(string \<times> string) list header_api" where
  "alist_header_api =
     \<lparr>hdr_value = map_of,
      hdr_values = (\<lambda>h n. map snd (filter (\<lambda>(m, _). m = n) h)),
      hdr_remove = (\<lambda>n h. filter (\<lambda>(m, _). m \<noteq> n) h),
      hdr_set = (\<lambda>n v h. (n, v) # filter (\<lambda>(m, _). m \<noteq> n) h)\<rparr>"

lemma header_laws_alist: "header_laws alist_header_api"
proof -
  have 1: "map_of h n = (case map snd (filter (\<lambda>(m, _). m = n) h) of [] \<Rightarrow> None | v # _ \<Rightarrow> Some v)"
    for h :: "(string \<times> string) list" and n
    by (induction h) (auto split: list.splits)
  have 2: "map snd (filter (\<lambda>(m, _). m = k) (filter (\<lambda>(m, _). m \<noteq> n) h)) =
      (if k = n then [] else map snd (filter (\<lambda>(m, _). m = k) h))"
    for h :: "(string \<times> string) list" and n k
    by (induction h) auto
  show ?thesis
    unfolding header_laws_def alist_header_api_def
    by (simp add: 1 2 del: filter_filter)
qed

end
