(* ===== verification/Request.thy ===== *)
theory Request
  imports Interfaces
begin

text \<open>
  Request capture and the signed message view, \<open>crates/module/src/request.rs\<close>, with the header names
  of \<open>crates/module/src/lib.rs\<close>.
\<close>

section \<open>Names and limits\<close>

definition PSEUDO_HEADER_METHOD :: string where "PSEUDO_HEADER_METHOD = '':method''"
definition PSEUDO_HEADER_AUTHORITY :: string where "PSEUDO_HEADER_AUTHORITY = '':authority''"
definition PSEUDO_HEADER_PATH :: string where "PSEUDO_HEADER_PATH = '':path''"
definition PSEUDO_HEADER_SCHEME :: string where "PSEUDO_HEADER_SCHEME = '':scheme''"
definition HEADER_SIGNATURE :: string where "HEADER_SIGNATURE = ''signature''"
definition HEADER_SIGNATURE_INPUT :: string where "HEADER_SIGNATURE_INPUT = ''signature-input''"
definition HEADER_SIGNATURE_AGENT :: string where "HEADER_SIGNATURE_AGENT = ''signature-agent''"
definition HEADER_STATUS :: string where "HEADER_STATUS = ''x-web-bot-auth-status''"
definition HEADER_IDENTITY :: string where "HEADER_IDENTITY = ''x-web-bot-auth-identity''"
definition HEADER_KEY_ID :: string where "HEADER_KEY_ID = ''x-web-bot-auth-keyid''"
definition METADATA_NAMESPACE :: string where
  "METADATA_NAMESPACE = ''envoy.filters.http.web_bot_auth''"

lemmas header_name_defs =
  PSEUDO_HEADER_METHOD_def PSEUDO_HEADER_AUTHORITY_def PSEUDO_HEADER_PATH_def
  PSEUDO_HEADER_SCHEME_def HEADER_SIGNATURE_def HEADER_SIGNATURE_INPUT_def
  HEADER_SIGNATURE_AGENT_def HEADER_STATUS_def HEADER_IDENTITY_def HEADER_KEY_ID_def

definition MAX_SIGNATURE_HEADER_VALUES :: nat where "MAX_SIGNATURE_HEADER_VALUES = 16"
definition MAX_SIGNATURE_HEADER_VALUE_BYTES :: nat where
  "MAX_SIGNATURE_HEADER_VALUE_BYTES = 4 * 1024"
definition MAX_SIGNATURE_FIELD_BYTES :: nat where "MAX_SIGNATURE_FIELD_BYTES = 8 * 1024"
definition MAX_SIGNATURE_HEADERS_BYTES :: nat where "MAX_SIGNATURE_HEADERS_BYTES = 16 * 1024"

lemmas capture_limit_defs =
  MAX_SIGNATURE_HEADER_VALUES_def MAX_SIGNATURE_HEADER_VALUE_BYTES_def
  MAX_SIGNATURE_FIELD_BYTES_def MAX_SIGNATURE_HEADERS_BYTES_def

section \<open>Capture\<close>

datatype RequestCaptureError =
    MissingHeader string
  | InvalidUtf8 string
  | NonAsciiHeader string
  | HeaderTooLarge string

datatype SignatureHeaderState = Unsigned | Incomplete | Candidate

record RequestComponents =
  rc_method :: string
  rc_scheme :: string
  rc_authority :: string
  rc_path :: string
  rc_query :: string
  rc_signature :: "string list"
  rc_signature_input :: "string list"
  rc_signature_agent :: "string list"

definition from_pseudo_headers :: "string \<Rightarrow> string \<Rightarrow> string \<Rightarrow> RequestComponents" where
  "from_pseudo_headers method authority raw_path =
     (let (path, query) =
        (case split_once (CHR ''?'') raw_path of
           Some (path, query_without_question_mark) \<Rightarrow> (path, CHR ''?'' # query_without_question_mark)
         | None \<Rightarrow> (raw_path, []))
      in \<lparr>rc_method = method, rc_scheme = ''https'',
          rc_authority = trim_by is_ascii_whitespace authority,
          rc_path = path, rc_query = query,
          rc_signature = [], rc_signature_input = [], rc_signature_agent = []\<rparr>)"

text \<open>Well-formed UTF-8, as \<open>std::str::from_utf8\<close> decides it.\<close>

definition cont_byte :: "char \<Rightarrow> bool" where
  "cont_byte c \<longleftrightarrow> 128 \<le> byte_val c \<and> byte_val c \<le> 191"

definition byte_in :: "nat \<Rightarrow> nat \<Rightarrow> char \<Rightarrow> bool" where
  "byte_in lo hi c \<longleftrightarrow> lo \<le> byte_val c \<and> byte_val c \<le> hi"

fun valid_utf8 :: "string \<Rightarrow> bool" where
  "valid_utf8 [] = True"
| "valid_utf8 (a # s) =
     (if byte_in 0 127 a then valid_utf8 s
      else case s of [] \<Rightarrow> False | b # s2 \<Rightarrow>
        (if byte_in 194 223 a then cont_byte b \<and> valid_utf8 s2
         else case s2 of [] \<Rightarrow> False | c # s3 \<Rightarrow>
           (if byte_in 224 239 a then
              (if byte_in 224 224 a then byte_in 160 191 b
               else if byte_in 237 237 a then byte_in 128 159 b else cont_byte b) \<and>
              cont_byte c \<and> valid_utf8 s3
            else case s3 of [] \<Rightarrow> False | d # s4 \<Rightarrow>
              byte_in 240 244 a \<and>
              (if byte_in 240 240 a then byte_in 144 191 b
               else if byte_in 244 244 a then byte_in 128 143 b else cont_byte b) \<and>
              cont_byte c \<and> cont_byte d \<and> valid_utf8 s4)))"

definition decode_ascii_header :: "string \<Rightarrow> string \<Rightarrow> (string, RequestCaptureError) res" where
  "decode_ascii_header buffer name =
     (if \<not> valid_utf8 buffer then Err (InvalidUtf8 name)
      else if \<not> is_ascii buffer then Err (NonAsciiHeader name)
      else Ok buffer)"

text \<open>
  \<open>copy_ascii_header_values\<close>: the closure run on each buffer in order, stopping at the first error, with the
  field's count and the running total threaded through; the total is returned with the values.
\<close>

definition bounded_add :: "nat \<Rightarrow> nat \<Rightarrow> nat \<Rightarrow> nat option" where
  "bounded_add bound a b =
     (case checked_add_usize a b of None \<Rightarrow> None
      | Some bytes \<Rightarrow> if bytes \<le> bound then Some bytes else None)"

fun copy_buffers ::
  "string \<Rightarrow> nat \<Rightarrow> nat \<Rightarrow> string list \<Rightarrow> (string list \<times> nat, RequestCaptureError) res" where
  "copy_buffers name field_bytes total_bytes [] = Ok ([], total_bytes)"
| "copy_buffers name field_bytes total_bytes (buffer # buffers) =
     (let value_bytes = length buffer in
      res_bind (ok_or (HeaderTooLarge name)
                  (bounded_add MAX_SIGNATURE_FIELD_BYTES field_bytes value_bytes)) (\<lambda>field_bytes.
      res_bind (ok_or (HeaderTooLarge name)
                  (bounded_add MAX_SIGNATURE_HEADERS_BYTES total_bytes value_bytes)) (\<lambda>total_bytes.
      if value_bytes > MAX_SIGNATURE_HEADER_VALUE_BYTES then Err (HeaderTooLarge name)
      else res_bind (decode_ascii_header buffer name) (\<lambda>value.
           res_bind (copy_buffers name field_bytes total_bytes buffers) (\<lambda>(values, total_bytes).
           Ok (value # values, total_bytes))))))"

definition copy_ascii_header_values ::
  "string list \<Rightarrow> string \<Rightarrow> nat \<Rightarrow> (string list \<times> nat, RequestCaptureError) res" where
  "copy_ascii_header_values buffers name total_bytes =
     (if length buffers > MAX_SIGNATURE_HEADER_VALUES then Err (HeaderTooLarge name)
      else copy_buffers name 0 total_bytes buffers)"

text \<open>One pseudo header: present, then decoded. One signature field: not empty, then copied.\<close>

definition pseudo_header ::
  "'h header_api \<Rightarrow> 'h \<Rightarrow> string \<Rightarrow> (string, RequestCaptureError) res" where
  "pseudo_header H h name =
     res_bind (ok_or (MissingHeader name) (hdr_value H h name)) (\<lambda>b. decode_ascii_header b name)"

definition signature_field ::
  "'h header_api \<Rightarrow> 'h \<Rightarrow> string \<Rightarrow> nat \<Rightarrow> (string list \<times> nat, RequestCaptureError) res" where
  "signature_field H h name total_bytes =
     (if hdr_values H h name = [] then Err (MissingHeader name)
      else copy_ascii_header_values (hdr_values H h name) name total_bytes)"

definition try_from_envoy ::
  "'h header_api \<Rightarrow> 'h \<Rightarrow> (RequestComponents, RequestCaptureError) res" where
  "try_from_envoy H h =
     res_bind (pseudo_header H h PSEUDO_HEADER_METHOD) (\<lambda>method.
     res_bind (pseudo_header H h PSEUDO_HEADER_AUTHORITY) (\<lambda>authority.
     res_bind (pseudo_header H h PSEUDO_HEADER_SCHEME) (\<lambda>scheme.
     res_bind (pseudo_header H h PSEUDO_HEADER_PATH) (\<lambda>raw_path.
     res_bind (signature_field H h HEADER_SIGNATURE 0) (\<lambda>(signatures, total_bytes).
     res_bind (signature_field H h HEADER_SIGNATURE_INPUT total_bytes) (\<lambda>(signature_inputs, total_bytes).
     res_bind (signature_field H h HEADER_SIGNATURE_AGENT total_bytes) (\<lambda>(signature_agent, total_bytes).
     Ok ((from_pseudo_headers method authority raw_path)
           \<lparr>rc_signature := signatures, rc_signature_input := signature_inputs,
            rc_signature_agent := signature_agent,
            rc_scheme := to_ascii_lowercase scheme\<rparr>))))))))"

definition classify_signature_headers :: "bool \<Rightarrow> bool \<Rightarrow> bool \<Rightarrow> SignatureHeaderState" where
  "classify_signature_headers has_signature has_signature_input has_signature_agent =
     (if \<not> has_signature \<and> \<not> has_signature_input \<and> \<not> has_signature_agent then Unsigned
      else if has_signature \<and> has_signature_input \<and> has_signature_agent then Candidate
      else Incomplete)"

section \<open>The signed message view\<close>

fun merge_dictionaries :: "sfv_api \<Rightarrow> dictionary \<Rightarrow> string list \<Rightarrow> dictionary option" where
  "merge_dictionaries S d [] = Some d"
| "merge_dictionaries S d (v # vs) =
     (case parse_dictionary S v of None \<Rightarrow> None
      | Some e \<Rightarrow> merge_dictionaries S (dict_extend d e) vs)"

definition select_dictionary_member :: "sfv_api \<Rightarrow> string list \<Rightarrow> string \<Rightarrow> string option" where
  "select_dictionary_member S field_values key =
     (case merge_dictionaries S [] field_values of None \<Rightarrow> None
      | Some d \<Rightarrow>
          (case map_of d key of
             None \<Rightarrow> None
           | Some (Item item) \<Rightarrow> Some (serialize_item S item)
           | Some (InnerList _) \<Rightarrow> None))"

definition lookup_component ::
  "sfv_api \<Rightarrow> RequestComponents \<Rightarrow> CoveredComponent \<Rightarrow> string list" where
  "lookup_component S self name =
     (case name of
        Derived (Method False) \<Rightarrow> [rc_method self]
      | Derived (Authority False) \<Rightarrow> [rc_authority self]
      | Derived (Scheme False) \<Rightarrow> [rc_scheme self]
      | Derived (TargetUri False) \<Rightarrow>
          [rc_scheme self @ ''://'' @ rc_authority self @ rc_path self @ rc_query self]
      | Derived (Path False) \<Rightarrow> [rc_path self]
      | Derived (Query False) \<Rightarrow> [rc_query self]
      | Derived _ \<Rightarrow> []
      | HTTP f \<Rightarrow>
          (if field_name f = HEADER_SIGNATURE_AGENT then
             (case field_parameters f of
                [] \<Rightarrow> rc_signature_agent self
              | [Key key] \<Rightarrow>
                  (case select_dictionary_member S (rc_signature_agent self) key of
                     None \<Rightarrow> [] | Some v \<Rightarrow> [v])
              | _ \<Rightarrow> [])
           else if field_parameters f = [] then
             (if field_name f = HEADER_SIGNATURE then rc_signature self
              else if field_name f = HEADER_SIGNATURE_INPUT then rc_signature_input self
              else [])
           else []))"

section \<open>Facts\<close>

lemma valid_utf8_ascii: "is_ascii s \<Longrightarrow> valid_utf8 s"
  by (induction s) (auto simp: byte_in_def is_ascii_byte_def)

declare valid_utf8.simps(2) [simp del]

lemma decode_ascii_header_Ok [simp]:
  "decode_ascii_header b n = Ok v \<longleftrightarrow> is_ascii b \<and> v = b"
  by (auto simp: decode_ascii_header_def dest: valid_utf8_ascii)

lemma decode_ascii_header_not_Panic [simp]: "decode_ascii_header b n \<noteq> Panic"
  by (simp add: decode_ascii_header_def)

lemma bounded_add_Some:
  "bound \<le> USIZE_MAX \<Longrightarrow> bounded_add bound a b = Some c \<longleftrightarrow> a + b \<le> bound \<and> c = a + b"
  by (auto simp: bounded_add_def checked_add_usize_def)

definition total_length :: "string list \<Rightarrow> nat" where
  "total_length bs = sum_list (map length bs)"

lemma capture_limits_usize:
  "MAX_SIGNATURE_FIELD_BYTES \<le> USIZE_MAX" "MAX_SIGNATURE_HEADERS_BYTES \<le> USIZE_MAX"
  by (simp_all add: capture_limit_defs USIZE_MAX_def)

lemma total_length_simps [simp]:
  "total_length [] = 0" "total_length (b # bs) = length b + total_length bs"
  by (simp_all add: total_length_def)

lemma copy_buffers_Cons_Ok:
  "copy_buffers name f t (b # bs) = Ok (vs, t') \<longleftrightarrow>
     f + length b \<le> MAX_SIGNATURE_FIELD_BYTES \<and> t + length b \<le> MAX_SIGNATURE_HEADERS_BYTES \<and>
     length b \<le> MAX_SIGNATURE_HEADER_VALUE_BYTES \<and> is_ascii b \<and>
     (\<exists>ws. copy_buffers name (f + length b) (t + length b) bs = Ok (ws, t') \<and> vs = b # ws)"
  by (auto simp: res_simps bounded_add_Some [OF capture_limits_usize(1)]
      bounded_add_Some [OF capture_limits_usize(2)] Let_def not_less)

declare copy_buffers.simps(2) [simp del]

lemma copy_buffers_Ok:
  "copy_buffers name f t bs = Ok (vs, t') \<longleftrightarrow>
     vs = bs \<and> t' = t + total_length bs \<and> list_all is_ascii bs \<and>
     list_all (\<lambda>b. length b \<le> MAX_SIGNATURE_HEADER_VALUE_BYTES) bs \<and>
     (bs \<noteq> [] \<longrightarrow> f + total_length bs \<le> MAX_SIGNATURE_FIELD_BYTES \<and>
                t + total_length bs \<le> MAX_SIGNATURE_HEADERS_BYTES)"
proof (induction bs arbitrary: f t vs t')
  case (Cons b bs)
  show ?case
    unfolding copy_buffers_Cons_Ok Cons.IH
    by (cases "bs = []") (auto simp: add.assoc)
qed auto

lemma from_pseudo_headers_path:
  "rc_path (from_pseudo_headers m a p) @ rc_query (from_pseudo_headers m a p) = p"
  "CHR ''?'' \<notin> set (rc_path (from_pseudo_headers m a p))"
  "rc_query (from_pseudo_headers m a p) = [] \<longleftrightarrow> CHR ''?'' \<notin> set p"
proof -
  have "rc_path r @ rc_query r = p \<and> CHR ''?'' \<notin> set (rc_path r) \<and>
        (rc_query r = [] \<longleftrightarrow> CHR ''?'' \<notin> set p)" if "r = from_pseudo_headers m a p" for r
  proof (cases "split_once (CHR ''?'') p")
    case None
    with that show ?thesis by (simp add: from_pseudo_headers_def split_once_None)
  next
    case (Some pq)
    obtain x y where "pq = (x, y)" by (cases pq)
    with Some that split_once_Some [of "CHR ''?''" p x y] show ?thesis
      by (simp add: from_pseudo_headers_def)
  qed
  then show "rc_path (from_pseudo_headers m a p) @ rc_query (from_pseudo_headers m a p) = p"
    "CHR ''?'' \<notin> set (rc_path (from_pseudo_headers m a p))"
    "rc_query (from_pseudo_headers m a p) = [] \<longleftrightarrow> CHR ''?'' \<notin> set p"
    by auto
qed

lemma from_pseudo_headers_simps [simp]:
  "rc_method (from_pseudo_headers m a p) = m"
  "rc_authority (from_pseudo_headers m a p) = trim_by is_ascii_whitespace a"
  by (simp_all add: from_pseudo_headers_def split: option.splits prod.splits)

lemma pseudo_header_Ok:
  "pseudo_header H h n = Ok v \<longleftrightarrow> hdr_value H h n = Some v \<and> is_ascii v"
  by (auto simp: pseudo_header_def res_simps)

lemma signature_field_Ok:
  "signature_field H h n t = Ok (vs, t') \<longleftrightarrow>
     vs = hdr_values H h n \<and> vs \<noteq> [] \<and> length vs \<le> MAX_SIGNATURE_HEADER_VALUES \<and>
     list_all is_ascii vs \<and> list_all (\<lambda>b. length b \<le> MAX_SIGNATURE_HEADER_VALUE_BYTES) vs \<and>
     total_length vs \<le> MAX_SIGNATURE_FIELD_BYTES \<and>
     t' = t + total_length vs \<and> t' \<le> MAX_SIGNATURE_HEADERS_BYTES"
  by (auto simp: signature_field_def copy_ascii_header_values_def copy_buffers_Ok)

lemma try_from_envoy_OkE:
  assumes "try_from_envoy H h = Ok r"
  obtains meth authority scheme raw_path signatures t1 inputs t2 agents t3 where
    "pseudo_header H h PSEUDO_HEADER_METHOD = Ok meth"
    "pseudo_header H h PSEUDO_HEADER_AUTHORITY = Ok authority"
    "pseudo_header H h PSEUDO_HEADER_SCHEME = Ok scheme"
    "pseudo_header H h PSEUDO_HEADER_PATH = Ok raw_path"
    "signature_field H h HEADER_SIGNATURE 0 = Ok (signatures, t1)"
    "signature_field H h HEADER_SIGNATURE_INPUT t1 = Ok (inputs, t2)"
    "signature_field H h HEADER_SIGNATURE_AGENT t2 = Ok (agents, t3)"
    "r = (from_pseudo_headers meth authority raw_path)
           \<lparr>rc_signature := signatures, rc_signature_input := inputs, rc_signature_agent := agents,
            rc_scheme := to_ascii_lowercase scheme\<rparr>"
proof -
  from assms obtain meth authority scheme raw_path where
    p: "pseudo_header H h PSEUDO_HEADER_METHOD = Ok meth"
      "pseudo_header H h PSEUDO_HEADER_AUTHORITY = Ok authority"
      "pseudo_header H h PSEUDO_HEADER_SCHEME = Ok scheme"
      "pseudo_header H h PSEUDO_HEADER_PATH = Ok raw_path"
    by (auto simp: try_from_envoy_def res_bind_Ok_iff)
  with assms obtain signatures t1 where s1:
    "signature_field H h HEADER_SIGNATURE 0 = Ok (signatures, t1)"
    by (auto simp: try_from_envoy_def res_bind_Ok_iff)
  with assms p obtain inputs t2 where s2:
    "signature_field H h HEADER_SIGNATURE_INPUT t1 = Ok (inputs, t2)"
    by (auto simp: try_from_envoy_def res_bind_Ok_iff)
  with assms p s1 obtain agents t3 where s3:
    "signature_field H h HEADER_SIGNATURE_AGENT t2 = Ok (agents, t3)"
    by (auto simp: try_from_envoy_def res_bind_Ok_iff)
  from assms p s1 s2 s3 have
    "r = (from_pseudo_headers meth authority raw_path)
           \<lparr>rc_signature := signatures, rc_signature_input := inputs, rc_signature_agent := agents,
            rc_scheme := to_ascii_lowercase scheme\<rparr>"
    by (simp add: try_from_envoy_def)
  from that [OF p s1 s2 s3 this] show thesis .
qed

lemma try_from_envoy_not_Panic: "try_from_envoy H h \<noteq> Panic"
proof -
  have "copy_buffers n f t bs \<noteq> Panic" for n f t bs
    by (induction bs arbitrary: f t)
      (auto simp: copy_buffers.simps(2) res_simps Let_def split: if_splits prod.splits)
  then have "signature_field H h n t \<noteq> Panic" for n t
    by (simp add: signature_field_def copy_ascii_header_values_def)
  moreover have "pseudo_header H h n \<noteq> Panic" for n
    by (simp add: pseudo_header_def res_simps)
  ultimately show ?thesis
    by (auto simp: try_from_envoy_def res_bind_Panic_iff split: prod.splits)
qed

section \<open>Properties\<close>

text \<open>
  The bound on what a request makes the module copy: a capture that succeeds has at most 16 values per
  signature field, 4 KiB per value, 8 KiB per field and 16 KiB for the three fields together, all of
  it ASCII, and holds the header values as received.
\<close>

lemma capture_is_bounded:
  assumes "try_from_envoy H h = Ok r"
  shows "rc_signature r = hdr_values H h HEADER_SIGNATURE \<and>
         rc_signature_input r = hdr_values H h HEADER_SIGNATURE_INPUT \<and>
         rc_signature_agent r = hdr_values H h HEADER_SIGNATURE_AGENT \<and>
         total_length (rc_signature r) + total_length (rc_signature_input r) +
           total_length (rc_signature_agent r) \<le> 16384 \<and>
         (\<forall>vs \<in> {rc_signature r, rc_signature_input r, rc_signature_agent r}.
            1 \<le> length vs \<and> length vs \<le> 16 \<and> total_length vs \<le> 8192 \<and>
            list_all (\<lambda>v. is_ascii v \<and> length v \<le> 4096) vs)"
proof -
  from assms obtain meth authority scheme raw_path signatures t1 inputs t2 agents t3 where
    f: "signature_field H h HEADER_SIGNATURE 0 = Ok (signatures, t1)"
      "signature_field H h HEADER_SIGNATURE_INPUT t1 = Ok (inputs, t2)"
      "signature_field H h HEADER_SIGNATURE_AGENT t2 = Ok (agents, t3)"
    and "r = (from_pseudo_headers meth authority raw_path)
           \<lparr>rc_signature := signatures, rc_signature_input := inputs, rc_signature_agent := agents,
            rc_scheme := to_ascii_lowercase scheme\<rparr>"
    by (rule try_from_envoy_OkE)
  then have r: "rc_signature r = signatures" "rc_signature_input r = inputs"
      "rc_signature_agent r = agents"
    by simp_all
  note b = f [unfolded signature_field_Ok]
  from b r have 1: "rc_signature r = hdr_values H h HEADER_SIGNATURE"
    "rc_signature_input r = hdr_values H h HEADER_SIGNATURE_INPUT"
    "rc_signature_agent r = hdr_values H h HEADER_SIGNATURE_AGENT"
    by simp_all
  from b r have 2: "total_length (rc_signature r) + total_length (rc_signature_input r) +
      total_length (rc_signature_agent r) \<le> 16384"
    by (auto simp: capture_limit_defs)
  have "1 \<le> length vs \<and> length vs \<le> 16 \<and> total_length vs \<le> 8192 \<and>
      list_all (\<lambda>v. is_ascii v \<and> length v \<le> 4096) vs"
    if "vs \<in> {rc_signature r, rc_signature_input r, rc_signature_agent r}" for vs
  proof -
    from that r have "vs \<in> {signatures, inputs, agents}" by simp
    then have "vs \<noteq> []" "length vs \<le> 16" "total_length vs \<le> 8192"
      "list_all is_ascii vs" "list_all (\<lambda>v. length v \<le> 4096) vs"
      using b by (auto simp: capture_limit_defs)
    then show ?thesis by (simp add: list_all_iff Suc_le_eq)
  qed
  with 1 2 show ?thesis by blast
qed

definition sample_headers :: "(string \<times> string) list" where
  "sample_headers =
     [('':method'', ''GET''), ('':authority'', '' a.test ''), ('':scheme'', ''HTTPS''),
      ('':path'', ''/p?q=1''), (''signature'', ''s=:AA==:''), (''signature-input'', ''s=()''),
      (''signature-agent'', ''s=u'')]"

lemma try_from_envoy_sample:
  "try_from_envoy alist_header_api sample_headers =
     Ok \<lparr>rc_method = ''GET'', rc_scheme = ''https'', rc_authority = ''a.test'', rc_path = ''/p'',
         rc_query = ''?q=1'', rc_signature = [''s=:AA==:''], rc_signature_input = [''s=()''],
         rc_signature_agent = [''s=u'']\<rparr>"
proof -
  note e = alist_header_api_def sample_headers_def header_name_defs is_ascii_byte_def byte_val_def
  have p: "pseudo_header alist_header_api sample_headers PSEUDO_HEADER_METHOD = Ok ''GET''"
    "pseudo_header alist_header_api sample_headers PSEUDO_HEADER_AUTHORITY = Ok '' a.test ''"
    "pseudo_header alist_header_api sample_headers PSEUDO_HEADER_SCHEME = Ok ''HTTPS''"
    "pseudo_header alist_header_api sample_headers PSEUDO_HEADER_PATH = Ok ''/p?q=1''"
    by (simp_all add: pseudo_header_Ok e)
  have f: "signature_field alist_header_api sample_headers HEADER_SIGNATURE 0 = Ok ([''s=:AA==:''], 8)"
    "signature_field alist_header_api sample_headers HEADER_SIGNATURE_INPUT 8 = Ok ([''s=()''], 12)"
    "signature_field alist_header_api sample_headers HEADER_SIGNATURE_AGENT 12 = Ok ([''s=u''], 15)"
    by (simp_all add: signature_field_Ok capture_limit_defs e)
  have l: "to_ascii_lowercase ''HTTPS'' = ''https''"
    by code_simp
  show ?thesis
    by (simp add: try_from_envoy_def p f l from_pseudo_headers_def trim_by_def
        is_ascii_whitespace_def byte_val_def)
qed

text \<open>
  What a captured request says of itself to the signature check: the method as received, the authority
  without surrounding white space, path and query as the two parts of the received \<open>:path\<close> split before
  its first question mark, and as target URI the scheme in lower case, the authority and the whole
  received \<open>:path\<close>. Each has exactly one value.
\<close>

lemma signed_message_view:
  assumes "try_from_envoy H h = Ok r"
  obtains meth authority scheme raw_path path query where
    "hdr_value H h PSEUDO_HEADER_METHOD = Some meth"
    "hdr_value H h PSEUDO_HEADER_AUTHORITY = Some authority"
    "hdr_value H h PSEUDO_HEADER_SCHEME = Some scheme"
    "hdr_value H h PSEUDO_HEADER_PATH = Some raw_path"
    "raw_path = path @ query" "CHR ''?'' \<notin> set path" "query = [] \<or> hd query = CHR ''?''"
    "lookup_component S r (Derived (Method False)) = [meth]"
    "lookup_component S r (Derived (Authority False)) = [trim_by is_ascii_whitespace authority]"
    "lookup_component S r (Derived (Scheme False)) = [to_ascii_lowercase scheme]"
    "lookup_component S r (Derived (Path False)) = [path]"
    "lookup_component S r (Derived (Query False)) = [query]"
    "lookup_component S r (Derived (TargetUri False)) =
       [to_ascii_lowercase scheme @ ''://'' @ trim_by is_ascii_whitespace authority @ raw_path]"
proof -
  from assms obtain meth authority scheme raw_path signatures t1 inputs t2 agents t3 where
    p: "pseudo_header H h PSEUDO_HEADER_METHOD = Ok meth"
      "pseudo_header H h PSEUDO_HEADER_AUTHORITY = Ok authority"
      "pseudo_header H h PSEUDO_HEADER_SCHEME = Ok scheme"
      "pseudo_header H h PSEUDO_HEADER_PATH = Ok raw_path"
    and r: "r = (from_pseudo_headers meth authority raw_path)
           \<lparr>rc_signature := signatures, rc_signature_input := inputs, rc_signature_agent := agents,
            rc_scheme := to_ascii_lowercase scheme\<rparr>"
    by (rule try_from_envoy_OkE)
  show thesis
  proof (rule that [of meth authority scheme raw_path
        "rc_path (from_pseudo_headers meth authority raw_path)"
        "rc_query (from_pseudo_headers meth authority raw_path)"])
    show "rc_query (from_pseudo_headers meth authority raw_path) = [] \<or>
        hd (rc_query (from_pseudo_headers meth authority raw_path)) = CHR ''?''"
      by (simp add: from_pseudo_headers_def split: option.splits prod.splits)
  qed (use p in \<open>simp_all add: pseudo_header_Ok r lookup_component_def from_pseudo_headers_path\<close>)
qed

end
