(* ===== verification/Startup.thy ===== *)
theory Startup
  imports Server Request
begin

text \<open>
  The resolver's command line, \<open>crates/resolver/src/bin/main.rs\<close> and \<open>bin/listener/mod.rs\<close>: from the parsed
  arguments and the proxy variables to the service and its listener, and the Unix socket's life. Parsing
  of arguments and of socket addresses, the transport and the signals are parameters.
\<close>

section \<open>Arguments and environment\<close>

datatype EgressArg = Direct | Proxy

record ServeArgs =
  arg_listen :: string
  arg_egress_mode :: EgressArg
  arg_allowed_port :: "nat list"
  arg_allow_test_keys :: bool
  arg_inbound_body_bytes :: nat
  arg_active_handlers :: nat
  arg_outbound_fetches :: nat
  arg_global_fetch_rate :: nat
  arg_global_fetch_burst :: nat
  arg_origin_fetch_rate :: nat
  arg_origin_fetch_burst :: nat
  arg_ip_fetch_rate :: nat
  arg_ip_fetch_burst :: nat
  arg_new_origins_per_minute :: nat
  arg_state_entries :: nat
  arg_max_keys :: nat
  arg_resolution_timeout_ms :: nat

definition ServeArgs_default :: ServeArgs where
  "ServeArgs_default =
     \<lparr>arg_listen = ''tcp://127.0.0.1:8081'', arg_egress_mode = Direct, arg_allowed_port = [443],
      arg_allow_test_keys = False, arg_inbound_body_bytes = 8 * 1024, arg_active_handlers = 64,
      arg_outbound_fetches = 32, arg_global_fetch_rate = 16, arg_global_fetch_burst = 32,
      arg_origin_fetch_rate = 2, arg_origin_fetch_burst = 4, arg_ip_fetch_rate = 8, arg_ip_fetch_burst = 16,
      arg_new_origins_per_minute = 256, arg_state_entries = 1024, arg_max_keys = 32,
      arg_resolution_timeout_ms = 1800\<rparr>"

definition limits :: "ServeArgs \<Rightarrow> Limits" where
  "limits args =
     \<lparr>inbound_body_bytes = arg_inbound_body_bytes args, active_handlers = arg_active_handlers args,
      outbound_fetches = arg_outbound_fetches args, global_fetch_rate = arg_global_fetch_rate args,
      global_fetch_burst = arg_global_fetch_burst args, origin_fetch_rate = arg_origin_fetch_rate args,
      origin_fetch_burst = arg_origin_fetch_burst args, ip_fetch_rate = arg_ip_fetch_rate args,
      ip_fetch_burst = arg_ip_fetch_burst args, new_origins_per_minute = arg_new_origins_per_minute args,
      state_entries = arg_state_entries args, lim_max_keys = arg_max_keys args,
      resolution_timeout = millis (arg_resolution_timeout_ms args)\<rparr>"

text \<open>Values of environment variables are byte strings that need not be UTF-8.\<close>

record ProxyEnvironment =
  https_proxy :: "string option"
  https_proxy_lower :: "string option"
  http_proxy :: "string option"
  http_proxy_lower :: "string option"
  all_proxy :: "string option"
  all_proxy_lower :: "string option"

definition ProxyEnvironment_from_process :: "(string \<rightharpoonup> string) \<Rightarrow> ProxyEnvironment" where
  "ProxyEnvironment_from_process env =
     \<lparr>https_proxy = env ''HTTPS_PROXY'', https_proxy_lower = env ''https_proxy'', http_proxy = env ''HTTP_PROXY'',
      http_proxy_lower = env ''http_proxy'', all_proxy = env ''ALL_PROXY'', all_proxy_lower = env ''all_proxy''\<rparr>"

definition has_any :: "ProxyEnvironment \<Rightarrow> bool" where
  "has_any e \<longleftrightarrow> https_proxy e \<noteq> None \<or> https_proxy_lower e \<noteq> None \<or> http_proxy e \<noteq> None \<or>
     http_proxy_lower e \<noteq> None \<or> all_proxy e \<noteq> None \<or> all_proxy_lower e \<noteq> None"

definition has_non_https_proxy :: "ProxyEnvironment \<Rightarrow> bool" where
  "has_non_https_proxy e \<longleftrightarrow>
     http_proxy e \<noteq> None \<or> http_proxy_lower e \<noteq> None \<or> all_proxy e \<noteq> None \<or> all_proxy_lower e \<noteq> None"

definition production_fetcher ::
  "(string \<Rightarrow> string option) \<Rightarrow> EgressArg \<Rightarrow> ProxyEnvironment \<Rightarrow> duration \<Rightarrow>
   (EgressMode \<times> ReqwestFetcher, string) res" where
  "production_fetcher proxy_all mode environment timeout =
     (case mode of
        Direct \<Rightarrow>
          if has_any environment then Err ''direct_mode_proxy_conflict''
          else Ok (EgressMode.Direct, ReqwestFetcher_direct timeout)
      | Proxy \<Rightarrow>
          if has_non_https_proxy environment then Err ''proxy_mode_variable_conflict''
          else res_bind (ok_or ''proxy_mode_requires_https_proxy''
                 (case https_proxy environment of
                    Some value \<Rightarrow> if valid_utf8 value \<and> value \<noteq> [] then Some value else None
                  | None \<Rightarrow> None)) (\<lambda>proxy.
            if (case https_proxy_lower environment of Some lower \<Rightarrow> lower \<noteq> proxy | None \<Rightarrow> False)
            then Err ''proxy_mode_variable_conflict''
            else res_bind (ReqwestFetcher_proxy proxy_all proxy timeout) (\<lambda>fetcher.
              Ok (EgressMode.Proxy, fetcher))))"

section \<open>Listening\<close>

record SocketAddr =
  sa_ip :: IpAddr
  sa_port :: nat

datatype ListenAddress = Tcp SocketAddr | Unix string

definition ListenAddress_parse ::
  "(string \<Rightarrow> SocketAddr option) \<Rightarrow> string \<Rightarrow> (ListenAddress, string) res" where
  "ListenAddress_parse parse_addr value =
     (case strip_prefix ''tcp://'' value of
        Some address \<Rightarrow> res_bind (ok_or ''invalid_tcp_listen'' (parse_addr address)) (\<lambda>a. Ok (Tcp a))
      | None \<Rightarrow>
          (case strip_prefix ''unix://'' value of
             Some path \<Rightarrow>
               if \<not> starts_with ''/'' path \<or> length path > 100 then Err ''invalid_unix_listen'' else Ok (Unix path)
           | None \<Rightarrow> Err ''invalid_listen_scheme''))"

fun ListenAddress_kind :: "ListenAddress \<Rightarrow> string" where
  "ListenAddress_kind (Tcp _) = ''tcp''"
| "ListenAddress_kind (Unix _) = ''unix''"

text \<open>\<open>IpAddr::is_loopback\<close>: \<open>127.0.0.0/8\<close> and \<open>::1\<close>.\<close>

fun is_loopback :: "IpAddr \<Rightarrow> bool" where
  "is_loopback (V4 a) \<longleftrightarrow> unat a div 2 ^ 24 = 127"
| "is_loopback (V6 a) \<longleftrightarrow> a = 1"

fun exposed_tcp_address :: "ListenAddress \<Rightarrow> SocketAddr option" where
  "exposed_tcp_address (Tcp a) = (if is_loopback (sa_ip a) then None else Some a)"
| "exposed_tcp_address (Unix _) = None"

text \<open>\<open>serve\<close> up to the listener: every check of it, in its order.\<close>

definition serve ::
  "(string \<Rightarrow> string option) \<Rightarrow> (string \<Rightarrow> SocketAddr option) \<Rightarrow> (string \<rightharpoonup> string) \<Rightarrow>
   (ReqwestFetcher \<Rightarrow> DestinationPolicy \<Rightarrow> ('u, 'p, 'l) ResourceLoader) \<Rightarrow> ServeArgs \<Rightarrow>
   (ReqwestFetcher \<times> ('u, 'p, 'l) ResolverService \<times> ('u, 'p, 'l) Service_state \<times> ListenAddress, string) res" where
  "serve proxy_all parse_addr env build args =
     (let l = limits args in
      res_bind (Limits_validate l) (\<lambda>_.
      res_bind (DestinationPolicy_new (443 # arg_allowed_port args)) (\<lambda>destination_policy.
      res_bind (production_fetcher proxy_all (arg_egress_mode args) (ProxyEnvironment_from_process env)
                  (resolution_timeout l)) (\<lambda>(mode, fetcher).
      res_bind (ResolverService_new (build fetcher destination_policy) l (arg_allow_test_keys args))
        (\<lambda>(resolver, state).
      res_bind (ListenAddress_parse parse_addr (arg_listen args)) (\<lambda>listen.
      Ok (fetcher, resolver, state, listen)))))))"

section \<open>The socket file\<close>

text \<open>A file system as the socket code sees it; its calls fail as the environment decides.\<close>

datatype fs_entry = SocketFile nat | OtherFile

type_synonym fs = "string \<rightharpoonup> fs_entry"

record io_faults =
  stat_fails :: "string \<Rightarrow> bool"
  remove_fails :: "string \<Rightarrow> bool"
  bind_fails :: "string \<Rightarrow> bool"
  chmod_fails :: "string \<Rightarrow> bool"

definition remove_socket_file ::
  "io_faults \<Rightarrow> string \<times> string \<times> string \<Rightarrow> string \<Rightarrow> fs \<Rightarrow> (unit, string) res \<times> fs" where
  "remove_socket_file io = (\<lambda>(cleanup, not_socket, inspection) path fs.
     if stat_fails io path then (Err inspection, fs)
     else case fs path of
            Some (SocketFile _) \<Rightarrow> if remove_fails io path then (Err cleanup, fs) else (Ok (), fs(path := None))
          | Some OtherFile \<Rightarrow> (Err not_socket, fs)
          | None \<Rightarrow> (Ok (), fs))"

definition prepare_socket_path :: "io_faults \<Rightarrow> string \<Rightarrow> fs \<Rightarrow> (unit, string) res \<times> fs" where
  "prepare_socket_path io =
     remove_socket_file io (''stale_socket_cleanup_failed'', ''socket_path_not_socket'', ''socket_path_inspection_failed'')"

definition remove_own_socket :: "io_faults \<Rightarrow> string \<Rightarrow> fs \<Rightarrow> (unit, string) res \<times> fs" where
  "remove_own_socket io =
     remove_socket_file io (''socket_cleanup_failed'', ''socket_cleanup_target_changed'', ''socket_cleanup_inspection_failed'')"

text \<open>
  \<open>serve_unix\<close>: \<open>bind\<close> creates the socket file and fails on a path that exists; \<open>served\<close> is the outcome of
  serving until shutdown and what others made of the file system meanwhile. The outcome of the last
  removal is only logged.
\<close>

definition serve_unix ::
  "io_faults \<Rightarrow> nat \<Rightarrow> (fs \<Rightarrow> (unit, string) res \<times> fs) \<Rightarrow> string \<Rightarrow> fs \<Rightarrow> (unit, string) res \<times> fs" where
  "serve_unix io umask_mode served path fs =
     (case prepare_socket_path io path fs of
        (Ok _, fs) \<Rightarrow>
          if bind_fails io path \<or> fs path \<noteq> None then (Err ''listen_bind_failed'', fs)
          else let fs = fs(path \<mapsto> SocketFile umask_mode) in
            if chmod_fails io path then (Err ''socket_permissions_failed'', fs)
            else let fs = fs(path \<mapsto> SocketFile 0x1B0);
                     (result, fs) = served fs
                 in (map_err (\<lambda>_. ''serve_failed'') result, snd (remove_own_socket io path fs))
      | (r, fs) \<Rightarrow> (r, fs))"

text \<open>
  \<open>probe\<close>: the health check against the socket. \<open>stream\<close> says whether connecting and writing work and what
  the first read of 128 bytes returns, and whether the whole took longer than allowed.
\<close>

record probe_stream =
  ps_connects :: bool
  ps_writes :: bool
  ps_read :: "string option"
  ps_late :: bool

definition probe :: "probe_stream \<Rightarrow> (unit, string) res" where
  "probe stream =
     (if ps_late stream then Err ''probe_timeout''
      else if \<not> ps_connects stream then Err ''probe_connect_failed''
      else if \<not> ps_writes stream then Err ''probe_write_failed''
      else case ps_read stream of
             None \<Rightarrow> Err ''probe_read_failed''
           | Some response \<Rightarrow>
               if starts_with ''HTTP/1.1 204'' (take 128 response) then Ok () else Err ''probe_unhealthy'')"

section \<open>Properties\<close>

lemma production_fetcher_Ok:
  assumes "production_fetcher proxy_all mode e timeout = Ok (m, fetcher)"
  shows "rf_timeout fetcher = timeout"
    and "mode = Direct \<Longrightarrow> rf_mode fetcher = EgressMode.Direct \<and> rf_proxy fetcher = None \<and> \<not> has_any e"
    and "mode = Proxy \<Longrightarrow> rf_mode fetcher = EgressMode.Proxy \<and> \<not> has_non_https_proxy e \<and>
      (\<exists>p. https_proxy e = Some p \<and> p \<noteq> [] \<and> https_proxy_lower e \<in> {None, Some p} \<and>
           proxy_all p \<noteq> None \<and> rf_proxy fetcher = proxy_all p)"
  using assms
  by (auto simp: production_fetcher_def ReqwestFetcher_direct_def ReqwestFetcher_proxy_def res_simps
      ok_or_def split: EgressArg.splits option.splits if_splits)

text \<open>
  C35. What a started resolver guarantees: its limits passed validation; port 443 and the listed ports, and no
  others, are allowed, none of them zero; in direct mode no proxy variable of any spelling is set and
  the client pins addresses with no proxy; in proxy mode only \<open>HTTPS_PROXY\<close> is set, not empty, its
  lower-case spelling does not contradict it, and the client uses exactly that proxy; and a request to
  an origin takes no longer than the resolution deadline.
\<close>

theorem serve_checked:
  assumes "serve proxy_all parse_addr env build args = Ok (fetcher, resolver, state, listen)"
  shows "Limits_validate (limits args) = Ok () \<and> rs_limits resolver = limits args \<and>
    sv_handlers state = arg_active_handlers args \<and>
    (\<exists>policy. DestinationPolicy_new (443 # arg_allowed_port args) = Ok policy \<and>
       allowed_ports policy = insert 443 (set (arg_allowed_port args)) \<and> 0 \<notin> allowed_ports policy \<and>
       rs_loader resolver = (build fetcher policy)\<lparr>rl_max_keys := arg_max_keys args\<rparr>) \<and>
    rf_timeout fetcher \<le> millis 1800 \<and>
    (case arg_egress_mode args of
       Direct \<Rightarrow> rf_mode fetcher = EgressMode.Direct \<and> rf_proxy fetcher = None \<and>
         list_all (\<lambda>v. env v = None)
           [''HTTPS_PROXY'', ''https_proxy'', ''HTTP_PROXY'', ''http_proxy'', ''ALL_PROXY'', ''all_proxy'']
     | Proxy \<Rightarrow> rf_mode fetcher = EgressMode.Proxy \<and>
         list_all (\<lambda>v. env v = None) [''HTTP_PROXY'', ''http_proxy'', ''ALL_PROXY'', ''all_proxy''] \<and>
         (\<exists>p. env ''HTTPS_PROXY'' = Some p \<and> p \<noteq> [] \<and> env ''https_proxy'' \<in> {None, Some p} \<and>
              proxy_all p \<noteq> None \<and> rf_proxy fetcher = proxy_all p))"
proof -
  from assms obtain policy m where v: "Limits_validate (limits args) = Ok ()"
    and d: "DestinationPolicy_new (443 # arg_allowed_port args) = Ok policy"
    and f: "production_fetcher proxy_all (arg_egress_mode args) (ProxyEnvironment_from_process env)
        (resolution_timeout (limits args)) = Ok (m, fetcher)"
    and r: "ResolverService_new (build fetcher policy) (limits args) (arg_allow_test_keys args) = Ok (resolver, state)"
    by (auto simp: serve_def Let_def res_simps split_paired_Ex)
  note pf = production_fetcher_Ok [OF f]
  have "rs_limits resolver = limits args" "sv_handlers state = arg_active_handlers args"
    "rs_loader resolver = (build fetcher policy)\<lparr>rl_max_keys := arg_max_keys args\<rparr>"
    using r by (auto simp: ResolverService_new_def res_simps Let_def limits_def split: res.splits)
  moreover have "allowed_ports policy = insert 443 (set (arg_allowed_port args))" "0 \<notin> allowed_ports policy"
    using d by (auto simp: DestinationPolicy_new_def split: if_splits)
  moreover have "rf_timeout fetcher \<le> millis 1800" using pf(1) v by (simp add: Limits_validate_Ok)
  ultimately show ?thesis
    using v d pf(2,3)
    by (cases "arg_egress_mode args")
      (auto simp: has_any_def has_non_https_proxy_def ProxyEnvironment_from_process_def)
qed

lemma remove_socket_file_facts:
  assumes "remove_socket_file io ms path fs = (r, fs')"
  shows "fs' = fs \<or> (\<exists>m. fs path = Some (SocketFile m)) \<and> fs' = fs(path := None)"
    and "fs path = Some OtherFile \<Longrightarrow> fs' = fs \<and> r \<noteq> Ok ()"
    and "r = Ok () \<Longrightarrow> fs' path = None"
  using assms
  by (auto simp: remove_socket_file_def split: prod.splits if_splits option.splits fs_entry.splits)


definition no_faults :: io_faults where
  "no_faults = \<lparr>stat_fails = \<lambda>_. False, remove_fails = \<lambda>_. False, bind_fails = \<lambda>_. False, chmod_fails = \<lambda>_. False\<rparr>"


lemma limits_default_args: "limits ServeArgs_default = Limits_default"
  by (simp add: limits_def ServeArgs_default_def Limits_default_def RESOLUTION_DEADLINE_def)

definition sample_build :: "ReqwestFetcher \<Rightarrow> DestinationPolicy \<Rightarrow> (plain_url, nat, unit) ResourceLoader" where
  "sample_build fetcher policy = fixture_env\<lparr>rl_destination := policy\<rparr>"

definition sample_address :: SocketAddr where
  "sample_address = \<lparr>sa_ip = V4 (ipv4 127 0 0 1), sa_port = 8081\<rparr>"

lemma serve_sample:
  "\<exists>resolver state listen. serve (\<lambda>_. None) (\<lambda>_. Some sample_address) Map.empty sample_build ServeArgs_default =
     Ok (ReqwestFetcher_direct (millis 1800), resolver, state, listen)"
proof -
  have p: "DestinationPolicy_new (443 # arg_allowed_port ServeArgs_default) = Ok \<lparr>allowed_ports = {443}\<rparr>"
    by (simp add: DestinationPolicy_new_def ServeArgs_default_def)
  have f: "production_fetcher (\<lambda>_. None) (arg_egress_mode ServeArgs_default) (ProxyEnvironment_from_process Map.empty)
      (resolution_timeout Limits_default) = Ok (EgressMode.Direct, ReqwestFetcher_direct (millis 1800))"
    by (simp add: production_fetcher_def ServeArgs_default_def has_any_def ProxyEnvironment_from_process_def
        Limits_default_def RESOLUTION_DEADLINE_def)
  have "\<exists>x. ResolverService_new (sample_build f p) Limits_default False = Ok x" for f p
    using limits_default_valid
    by (simp add: ResolverService_new_def ResourceLoader_new_def WorkControls_new_def limiter_def sample_build_def
        Let_def Limits_default_def)
  then obtain x where x: "ResolverService_new (sample_build (ReqwestFetcher_direct (millis 1800)) \<lparr>allowed_ports = {443}\<rparr>)
      Limits_default (arg_allow_test_keys ServeArgs_default) = Ok x"
    by (force simp: ServeArgs_default_def)
  have l: "ListenAddress_parse (\<lambda>_. Some sample_address) (arg_listen ServeArgs_default) = Ok (Tcp sample_address)"
    by (simp add: ListenAddress_parse_def ServeArgs_default_def strip_prefix_def ok_or_def)
  from p f x l limits_default_valid show ?thesis
    by (cases x) (simp add: serve_def limits_default_args)
qed

theorem serve_checked_witness:
  "Limits_validate (limits ServeArgs_default) = Ok () \<and> rf_timeout (ReqwestFetcher_direct (millis 1800)) \<le> millis 1800"
proof -
  obtain resolver state listen where
    "serve (\<lambda>_. None) (\<lambda>_. Some sample_address) Map.empty sample_build ServeArgs_default =
       Ok (ReqwestFetcher_direct (millis 1800), resolver, state, listen)"
    using serve_sample by blast
  from serve_checked [OF this] show ?thesis by blast
qed

end
