(* ===== verification/Commands.thy ===== *)
theory Commands
  imports Startup
begin

text \<open>
  The commands of the resolver's binary, \<open>bin/main.rs\<close> with the serving part of \<open>bin/listener/mod.rs\<close>: the
  production and the fixture server, the fixture control client and the probe, their log lines and the
  exit status. The fixture application keeps its transport's mode and the resolver it replaces on a reset.
\<close>

section \<open>Serving\<close>

text \<open>The signals that end serving. A handler that cannot be installed never fires, but \<open>ctrl_c\<close> then returns at once.\<close>

datatype signal = CtrlC | Terminate

definition shutdown_signal :: "bool \<Rightarrow> bool \<Rightarrow> signal list \<Rightarrow> bool" where
  "shutdown_signal ctrl_c_installs terminate_installs signals \<longleftrightarrow>
     \<not> ctrl_c_installs \<or> CtrlC \<in> set signals \<or> (terminate_installs \<and> Terminate \<in> set signals)"

definition serve_app ::
  "io_faults \<Rightarrow> (SocketAddr \<Rightarrow> bool) \<Rightarrow> nat \<Rightarrow> (fs \<Rightarrow> (unit, string) res \<times> fs) \<Rightarrow> ListenAddress \<Rightarrow> fs \<Rightarrow>
   (unit, string) res \<times> fs" where
  "serve_app io tcp_binds umask_mode served listen fs =
     (case listen of
        Tcp address \<Rightarrow>
          if tcp_binds address then (let (result, fs) = served fs in (map_err (\<lambda>_. ''serve_failed'') result, fs))
          else (Err ''listen_bind_failed'', fs)
      | Unix path \<Rightarrow> serve_unix io umask_mode served path fs)"

section \<open>Log lines\<close>

fun report_metrics_exporter :: "MetricsExporterState \<Rightarrow> string list" where
  "report_metrics_exporter MetricsExporterState.Disabled = []"
| "report_metrics_exporter MetricsExporterState.Enabled =
     [''resolver event=metrics_exporter_enabled transport=otlp_grpc'']"
| "report_metrics_exporter MetricsExporterState.InvalidEndpoint =
     [''resolver event=metrics_exporter_disabled reason=invalid_endpoint'']"

definition warn_if_network_exposed :: "(SocketAddr \<Rightarrow> string) \<Rightarrow> ListenAddress \<Rightarrow> string list" where
  "warn_if_network_exposed show_addr listen =
     (case exposed_tcp_address listen of
        Some address \<Rightarrow>
          [''resolver event=network_listener_exposed address='' @ show_addr address @ '' authentication=none'']
      | None \<Rightarrow> [])"

section \<open>The fixture application\<close>

datatype FixtureModeArg = HealthyV1 | RotatedV2 | Malformed | Unavailable | Delayed

fun FixtureMode_from :: "FixtureModeArg \<Rightarrow> FixtureMode" where
  "FixtureMode_from HealthyV1 = FixtureMode.HealthyV1"
| "FixtureMode_from RotatedV2 = FixtureMode.RotatedV2"
| "FixtureMode_from Malformed = FixtureMode.Malformed"
| "FixtureMode_from Unavailable = FixtureMode.Unavailable"
| "FixtureMode_from Delayed = FixtureMode.Delayed"

record FixtureControlArgs =
  fc_socket :: string
  fc_mode :: FixtureModeArg
  fc_reset :: bool
  fc_timeout_ms :: nat

record FixtureControlRequest =
  ctl_mode :: FixtureMode
  ctl_reset :: bool

text \<open>The state behind the routes, with the service's own state beside the service.\<close>

record ('u, 'p, 'l) FixtureAppState =
  fa_resolver :: "('u, 'p, 'l) ResolverService"
  fa_service :: "('u, 'p, 'l) Service_state"
  fa_fixture :: FixtureTransport
  fa_limits :: Limits

text \<open>
  A loader over the transport: its clones share the mode, so a resolver always fetches in the mode of the
  moment. \<open>base\<close> has the library parameters.
\<close>

definition fixture_loader ::
  "('u, 'p, 'l) ResourceLoader \<Rightarrow> DestinationPolicy \<Rightarrow> FixtureTransport \<Rightarrow> ('u, 'p, 'l) ResourceLoader" where
  "fixture_loader base policy transport =
     base\<lparr>rl_dns := (\<lambda>_. fixture_resolve),
          rl_http := (\<lambda>_ q. fst (fixture_fetch (rl_urls base) (dec_crypto (rl_decode base)) transport q)),
          rl_destination := policy\<rparr>"

definition new_fixture_resolver ::
  "('u, 'p, 'l) ResourceLoader \<Rightarrow> FixtureTransport \<Rightarrow> Limits \<Rightarrow>
   (('u, 'p, 'l) ResolverService \<times> ('u, 'p, 'l) Service_state, string) res" where
  "new_fixture_resolver base transport l =
     (case DestinationPolicy_default of
        Ok policy \<Rightarrow> ResolverService_new (fixture_loader base policy transport) l True
      | _ \<Rightarrow> Panic)"

text \<open>The resolver of the application, fetching in the transport's mode.\<close>

definition current_resolver :: "('u, 'p, 'l) FixtureAppState \<Rightarrow> ('u, 'p, 'l) ResolverService" where
  "current_resolver app =
     (let r = fa_resolver app; E = rs_loader r
      in r\<lparr>rs_loader := fixture_loader E (rl_destination E) (fa_fixture app)\<rparr>)"

definition configure_fixture ::
  "FixtureControlRequest \<Rightarrow> ('u, 'p, 'l) FixtureAppState \<Rightarrow> (nat, string) res \<times> ('u, 'p, 'l) FixtureAppState" where
  "configure_fixture request app =
     (let app = app\<lparr>fa_fixture := set_mode (ctl_mode request) (fa_fixture app)\<rparr> in
      if ctl_reset request then
        (case new_fixture_resolver (rs_loader (fa_resolver app)) (fa_fixture app) (fa_limits app) of
           Ok (resolver, service) \<Rightarrow> (Ok 204, app\<lparr>fa_resolver := resolver, fa_service := service\<rparr>)
         | Err _ \<Rightarrow> (Ok 500, app)
         | Panic \<Rightarrow> (Panic, app))
      else (Ok 204, app))"

definition resolve_fixture ::
  "(ResolveResponse \<Rightarrow> string) \<Rightarrow> load_times \<Rightarrow> load_times \<Rightarrow> ('u, 'p, 'l) Loader_state option \<Rightarrow> ResolveRequest \<Rightarrow>
   ('u, 'p, 'l) FixtureAppState \<Rightarrow> (answer, FetchError) res \<times> ('u, 'p, 'l) FixtureAppState" where
  "resolve_fixture json t1 t2 expired request app =
     (let (result, service) = resolve (current_resolver app) t1 t2 expired request (fa_service app)
      in (resolve_answer json result, app\<lparr>fa_service := service\<rparr>))"

text \<open>The routes. The JSON extractors are parameters, bounded by the limit of the first resolver.\<close>

definition app_with_fixture ::
  "wire_api \<Rightarrow> (nat \<Rightarrow> server_request \<Rightarrow> (FixtureControlRequest, nat) res) \<Rightarrow> nat \<Rightarrow> load_times \<Rightarrow> load_times \<Rightarrow>
   ('u, 'p, 'l) Loader_state option \<Rightarrow> server_request \<Rightarrow> ('u, 'p, 'l) FixtureAppState \<Rightarrow>
   (answer, FetchError) res \<times> ('u, 'p, 'l) FixtureAppState" where
  "app_with_fixture J decode_control body_limit t1 t2 expired q app =
     (if sq_path q = ''/v1/resolve'' then
        if sq_verb q = ''POST'' then
          (case decode_body J body_limit q of
             Ok request \<Rightarrow> resolve_fixture (to_json J) t1 t2 expired request app
           | Err status \<Rightarrow> (Ok (status, []), app)
           | Panic \<Rightarrow> (Panic, app))
        else (Ok (405, []), app)
      else if sq_path q = ''/v1/fixture'' then
        if sq_verb q = ''POST'' then
          (case decode_control body_limit q of
             Ok request \<Rightarrow>
               let (status, app) = configure_fixture request app
               in (res_bind (map_err (\<lambda>_. FetchError_new Transport) status) (\<lambda>code. Ok (code, [])), app)
           | Err status \<Rightarrow> (Ok (status, []), app)
           | Panic \<Rightarrow> (Panic, app))
        else (Ok (405, []), app)
      else if sq_path q = ''/healthz'' then
        (Ok (if sq_verb q \<in> {''GET'', ''HEAD''} then health else 405, []), app)
      else (Ok (404, []), app))"

definition serve_fixtures ::
  "(string \<Rightarrow> SocketAddr option) \<Rightarrow> ('u, 'p, 'l) ResourceLoader \<Rightarrow> ServeArgs \<Rightarrow>
   (('u, 'p, 'l) FixtureAppState \<times> ListenAddress, string) res" where
  "serve_fixtures parse_addr base args =
     (let l = limits args in
      res_bind (Limits_validate l) (\<lambda>_.
      res_bind (new_fixture_resolver base FixtureTransport_new l) (\<lambda>(resolver, service).
      res_bind (ListenAddress_parse parse_addr (arg_listen args)) (\<lambda>listen.
      Ok (\<lparr>fa_resolver = resolver, fa_service = service, fa_fixture = FixtureTransport_new, fa_limits = l\<rparr>,
          listen)))))"

section \<open>The fixture control client\<close>

text \<open>The bytes it writes: a head with the length of the body, and the body that \<open>encode\<close> makes.\<close>

definition crlf :: string where "crlf = [CHR 0x0D, CHR 0x0A]"

definition fixture_control_head :: "string \<Rightarrow> string" where
  "fixture_control_head body_length =
     ''POST /v1/fixture HTTP/1.1'' @ crlf @ ''Host: resolver'' @ crlf @ ''Content-Type: application/json'' @ crlf @
     ''Content-Length: '' @ body_length @ crlf @ ''Connection: close'' @ crlf @ crlf"

definition fixture_control ::
  "(FixtureControlRequest \<Rightarrow> string option) \<Rightarrow> (nat \<Rightarrow> string) \<Rightarrow> (string \<Rightarrow> probe_stream) \<Rightarrow> FixtureControlArgs \<Rightarrow>
   (unit, string) res" where
  "fixture_control encode show_nat stream args =
     res_bind (ok_or ''fixture_control_encoding_failed''
       (encode \<lparr>ctl_mode = FixtureMode_from (fc_mode args), ctl_reset = fc_reset args\<rparr>)) (\<lambda>body.
     let s = stream (fixture_control_head (show_nat (length body)) @ body) in
     if ps_late s then Err ''fixture_control_timeout''
     else if \<not> ps_connects s then Err ''fixture_control_connect_failed''
     else if \<not> ps_writes s then Err ''fixture_control_write_failed''
     else case ps_read s of
            None \<Rightarrow> Err ''fixture_control_read_failed''
          | Some response \<Rightarrow>
              if starts_with ''HTTP/1.1 204'' (take 128 response) then Ok () else Err ''fixture_control_rejected'')"

section \<open>The program\<close>

datatype Command =
    Serve ServeArgs
  | ServeFixtures ServeArgs
  | FixtureControl FixtureControlArgs
  | Probe string nat

text \<open>\<open>main\<close> runs the command and turns its error into a log line and exit status 1; a panic ends with 101.\<close>

definition main_exit :: "(unit, string) res \<Rightarrow> nat \<times> string list" where
  "main_exit result =
     (case result of
        Ok _ \<Rightarrow> (0, [])
      | Err reason \<Rightarrow> (1, [''resolver event='' @ reason])
      | Panic \<Rightarrow> (101, []))"

text \<open>The outside of the program: what its libraries and its system answer.\<close>

record ('u, 'p, 'l) outside =
  out_env :: "string \<rightharpoonup> string"
  out_proxy_all :: "string \<Rightarrow> string option"
  out_parse_addr :: "string \<Rightarrow> SocketAddr option"
  out_io :: io_faults
  out_tcp_binds :: "SocketAddr \<Rightarrow> bool"
  out_umask_mode :: nat
  out_served :: "fs \<Rightarrow> (unit, string) res \<times> fs"
  out_build :: "ReqwestFetcher \<Rightarrow> DestinationPolicy \<Rightarrow> ('u, 'p, 'l) ResourceLoader"
  out_fixture_base :: "('u, 'p, 'l) ResourceLoader"
  out_encode :: "FixtureControlRequest \<Rightarrow> string option"
  out_show_nat :: "nat \<Rightarrow> string"
  out_stream :: "string \<Rightarrow> string \<Rightarrow> nat \<Rightarrow> probe_stream"

definition probe_request :: string where
  "probe_request = ''GET /healthz HTTP/1.1'' @ crlf @ ''Host: resolver'' @ crlf @ ''Connection: close'' @ crlf @ crlf"

definition run_command :: "('u, 'p, 'l) outside \<Rightarrow> Command \<Rightarrow> fs \<Rightarrow> (unit, string) res \<times> fs" where
  "run_command X command fs =
     (case command of
        Serve args \<Rightarrow>
          (case serve (out_proxy_all X) (out_parse_addr X) (out_env X) (out_build X) args of
             Ok (fetcher, resolver, service, listen) \<Rightarrow>
               serve_app (out_io X) (out_tcp_binds X) (out_umask_mode X) (out_served X) listen fs
           | Err reason \<Rightarrow> (Err reason, fs)
           | Panic \<Rightarrow> (Panic, fs))
      | ServeFixtures args \<Rightarrow>
          (case serve_fixtures (out_parse_addr X) (out_fixture_base X) args of
             Ok (app, listen) \<Rightarrow>
               serve_app (out_io X) (out_tcp_binds X) (out_umask_mode X) (out_served X) listen fs
           | Err reason \<Rightarrow> (Err reason, fs)
           | Panic \<Rightarrow> (Panic, fs))
      | FixtureControl args \<Rightarrow>
          (fixture_control (out_encode X) (out_show_nat X)
             (\<lambda>bytes. out_stream X (fc_socket args) bytes (fc_timeout_ms args)) args, fs)
      | Probe socket timeout_ms \<Rightarrow> (probe (out_stream X socket probe_request timeout_ms), fs))"

definition main :: "('u, 'p, 'l) outside \<Rightarrow> Command \<Rightarrow> fs \<Rightarrow> (nat \<times> string list) \<times> fs" where
  "main X command fs = (let (result, fs) = run_command X command fs in (main_exit result, fs))"

section \<open>Properties\<close>

lemma DestinationPolicy_default_Ok: "DestinationPolicy_default = Ok \<lparr>allowed_ports = {443}\<rparr>"
  by (simp add: DestinationPolicy_default_def DestinationPolicy_new_def)

text \<open>With validated limits the fixture's resolver is always built, and starts empty.\<close>

lemma new_fixture_resolver_Ok:
  assumes "Limits_validate l = Ok ()"
  obtains service where
    "new_fixture_resolver base transport l =
       Ok (\<lparr>rs_loader = (fixture_loader base \<lparr>allowed_ports = {443}\<rparr> transport)\<lparr>rl_max_keys := lim_max_keys l\<rparr>,
            rs_limits = l, rs_allow_test_keys = True\<rparr>, service)"
    and "sv_handlers service = active_handlers l" and "sv_resolutions service = []"
    and "representations (sv_loader service) = Map.empty" and "refreshes (sv_loader service) = Map.empty"
    and "ld_sent (sv_loader service) = []"
proof -
  obtain g where "limiter (rl_limiter base) (global_fetch_rate l) (global_fetch_burst l) = Ok g"
    using assms by (auto simp: limiter_def Limits_validate_Ok between_def)
  then show thesis
    using assms
    by (intro that) (auto simp: new_fixture_resolver_def DestinationPolicy_default_Ok ResolverService_new_def
        ResourceLoader_new_def WorkControls_new_def fixture_loader_def Let_def)
qed

text \<open>What the fixture application keeps over any sequence of requests.\<close>

inductive fixture_init ::
  "(string \<Rightarrow> SocketAddr option) \<Rightarrow> ('u, 'p, 'l) ResourceLoader \<Rightarrow> ServeArgs \<Rightarrow> ('u, 'p, 'l) FixtureAppState \<Rightarrow> bool"
  for parse_addr base args where
  "serve_fixtures parse_addr base args = Ok (app, listen) \<Longrightarrow> fixture_init parse_addr base args app"

inductive fixture_step ::
  "wire_api \<Rightarrow> (nat \<Rightarrow> server_request \<Rightarrow> (FixtureControlRequest, nat) res) \<Rightarrow> nat \<Rightarrow>
   ('u, 'p, 'l) FixtureAppState \<Rightarrow> ('u, 'p, 'l) FixtureAppState \<Rightarrow> bool" for J decode_control body_limit where
  "app_with_fixture J decode_control body_limit t1 t2 expired q app = (r, app') \<Longrightarrow>
   fixture_step J decode_control body_limit app app'"

definition fixture_inv :: "('u, 'p, 'l) ResourceLoader \<Rightarrow> Limits \<Rightarrow> ('u, 'p, 'l) FixtureAppState \<Rightarrow> bool" where
  "fixture_inv base l app \<longleftrightarrow>
     Limits_validate l = Ok () \<and> fa_limits app = l \<and> rs_limits (fa_resolver app) = l \<and>
     rs_allow_test_keys (fa_resolver app) \<and> sv_handlers (fa_service app) = active_handlers l \<and>
     (\<exists>transport. rs_loader (fa_resolver app) =
        (fixture_loader base \<lparr>allowed_ports = {443}\<rparr> transport)\<lparr>rl_max_keys := lim_max_keys l\<rparr>)"

lemma fixture_loader_again:
  "fixture_loader ((fixture_loader base p t)\<lparr>rl_max_keys := n\<rparr>) p' t' = (fixture_loader base p' t')\<lparr>rl_max_keys := n\<rparr>"
  by (simp add: fixture_loader_def)

lemma configure_reset:
  assumes "fixture_inv base l app"
  obtains app' where "configure_fixture \<lparr>ctl_mode = mode, ctl_reset = True\<rparr> app = (Ok 204, app')"
    and "fixture_inv base l app'" and "fa_fixture app' = \<lparr>ft_mode = mode\<rparr>"
    and "representations (sv_loader (fa_service app')) = Map.empty"
    and "refreshes (sv_loader (fa_service app')) = Map.empty"
proof -
  let ?t = "set_mode mode (fa_fixture app)"
  from assms obtain transport where i: "Limits_validate l = Ok ()" "fa_limits app = l"
    "rs_loader (fa_resolver app) = (fixture_loader base \<lparr>allowed_ports = {443}\<rparr> transport)\<lparr>rl_max_keys := lim_max_keys l\<rparr>"
    by (auto simp: fixture_inv_def)
  obtain service where s: "new_fixture_resolver (rs_loader (fa_resolver app)) ?t l =
       Ok (\<lparr>rs_loader = (fixture_loader base \<lparr>allowed_ports = {443}\<rparr> ?t)\<lparr>rl_max_keys := lim_max_keys l\<rparr>,
            rs_limits = l, rs_allow_test_keys = True\<rparr>, service)"
    "sv_handlers service = active_handlers l" "representations (sv_loader service) = Map.empty"
    "refreshes (sv_loader service) = Map.empty"
    using new_fixture_resolver_Ok [OF i(1), of "rs_loader (fa_resolver app)" ?t]
    by (auto simp: i(3) fixture_loader_again)
  have "?t = \<lparr>ft_mode = mode\<rparr>" by (simp add: set_mode_def)
  with i s show thesis
    by (intro that) (auto simp: configure_fixture_def fixture_inv_def Let_def)
qed

lemma fixture_inv_step: "fixture_inv base l app \<Longrightarrow> fixture_step J decode_control n app app' \<Longrightarrow> fixture_inv base l app'"
proof -
  assume i: "fixture_inv base l app" and "fixture_step J decode_control n app app'"
  then obtain t1 t2 expired q r where a: "app_with_fixture J decode_control n t1 t2 expired q app = (r, app')"
    by (auto elim: fixture_step.cases)
  have resolve: "fixture_inv base l (snd (resolve_fixture json t1 t2 expired request app))" for json request
    using i by (auto simp: resolve_fixture_def fixture_inv_def case_prod_unfold Let_def
        resolution_bounded_handlers)
  have configure: "fixture_inv base l (snd (configure_fixture request app))" for request
  proof (cases "ctl_reset request")
    case True
    then have "request = \<lparr>ctl_mode = ctl_mode request, ctl_reset = True\<rparr>" by simp
    with configure_reset [OF i, of "ctl_mode request"] show ?thesis by (metis snd_conv)
  next
    case False
    with i show ?thesis by (auto simp: configure_fixture_def fixture_inv_def Let_def)
  qed
  have "fixture_inv base l (snd (app_with_fixture J decode_control n t1 t2 expired q app))"
    using i resolve configure by (simp add: app_with_fixture_def case_prod_unfold Let_def split: res.splits)
  with a show ?thesis by simp
qed

interpretation fixtures: invariant_of "fixture_init parse_addr base args" "fixture_step J decode_control n"
    "fixture_inv base (limits args)"
  for parse_addr and base :: "('a, 'b, 'c) ResourceLoader" and args J decode_control n
proof
  fix app
  assume "fixture_init parse_addr base args app"
  then obtain listen where "serve_fixtures parse_addr base args = Ok (app, listen)" by cases
  then obtain resolver service where v: "Limits_validate (limits args) = Ok ()"
    and n: "new_fixture_resolver base FixtureTransport_new (limits args) = Ok (resolver, service)"
    and a: "app = \<lparr>fa_resolver = resolver, fa_service = service, fa_fixture = FixtureTransport_new, fa_limits = limits args\<rparr>"
    by (auto simp: serve_fixtures_def Let_def res_simps split_paired_Ex)
  from new_fixture_resolver_Ok [OF v, of base FixtureTransport_new] n
  have "sv_handlers service = active_handlers (limits args)"
    "resolver = \<lparr>rs_loader = (fixture_loader base \<lparr>allowed_ports = {443}\<rparr> FixtureTransport_new)
                                \<lparr>rl_max_keys := lim_max_keys (limits args)\<rparr>,
                rs_limits = limits args, rs_allow_test_keys = True\<rparr>"
    by (metis Pair_inject res.inject(1))+
  with v a show "fixture_inv base (limits args) app" by (auto simp: fixture_inv_def)
qed (rule fixture_inv_step)

text \<open>
  C37. The fixture application after any sequence of requests: it keeps the limits and handlers it was started
  with and allows only port 443; a control request with a reset is always answered 204 and leaves the
  transport in the requested mode and a resolver that has nothing cached, so that the next load
  fetches in the new mode; one without a reset changes nothing but the mode.
\<close>

theorem fixture_app_keeps:
  assumes "reachable (fixture_init parse_addr base args) (fixture_step J decode_control n) app"
  shows "sv_handlers (fa_service app) = arg_active_handlers args \<and> rs_limits (fa_resolver app) = limits args \<and>
    allowed_ports (rl_destination (rs_loader (current_resolver app))) = {443} \<and>
    (\<exists>app'. configure_fixture \<lparr>ctl_mode = mode, ctl_reset = True\<rparr> app = (Ok 204, app') \<and>
       fa_fixture app' = \<lparr>ft_mode = mode\<rparr> \<and> representations (sv_loader (fa_service app')) = Map.empty \<and>
       refreshes (sv_loader (fa_service app')) = Map.empty \<and>
       rl_http (rs_loader (current_resolver app')) =
         (\<lambda>_ q. fst (fixture_fetch (rl_urls base) (dec_crypto (rl_decode base)) \<lparr>ft_mode = mode\<rparr> q))) \<and>
    configure_fixture \<lparr>ctl_mode = mode, ctl_reset = False\<rparr> app = (Ok 204, app\<lparr>fa_fixture := \<lparr>ft_mode = mode\<rparr>\<rparr>)"
proof -
  have i: "fixture_inv base (limits args) app" using fixtures.inv_reachable [OF assms] .
  then obtain app' where "configure_fixture \<lparr>ctl_mode = mode, ctl_reset = True\<rparr> app = (Ok 204, app')"
    "fixture_inv base (limits args) app'" "fa_fixture app' = \<lparr>ft_mode = mode\<rparr>"
    "representations (sv_loader (fa_service app')) = Map.empty"
    "refreshes (sv_loader (fa_service app')) = Map.empty"
    by (rule configure_reset)
  moreover from this(2,3) have "rl_http (rs_loader (current_resolver app')) =
         (\<lambda>_ q. fst (fixture_fetch (rl_urls base) (dec_crypto (rl_decode base)) \<lparr>ft_mode = mode\<rparr> q))"
    by (auto simp: fixture_inv_def current_resolver_def fixture_loader_def Let_def)
  moreover have "configure_fixture \<lparr>ctl_mode = mode, ctl_reset = False\<rparr> app = (Ok 204, app\<lparr>fa_fixture := \<lparr>ft_mode = mode\<rparr>\<rparr>)"
    by (simp add: configure_fixture_def set_mode_def)
  ultimately show ?thesis
    using i by (auto simp: fixture_inv_def limits_def current_resolver_def fixture_loader_def Let_def)
qed

theorem fixture_app_keeps_witness:
  "\<exists>(app :: (plain_url, nat, unit) FixtureAppState) app'.
     configure_fixture \<lparr>ctl_mode = FixtureMode.RotatedV2, ctl_reset = True\<rparr> app = (Ok 204, app') \<and>
     ft_mode (fa_fixture app) = FixtureMode.HealthyV1 \<and> ft_mode (fa_fixture app') = FixtureMode.RotatedV2 \<and>
     sv_handlers (fa_service app) = 64"
proof -
  have v: "Limits_validate (limits ServeArgs_default) = Ok ()" by (simp add: limits_default_args limits_default_valid)
  obtain x where x: "new_fixture_resolver fixture_env FixtureTransport_new (limits ServeArgs_default) = Ok x"
    by (rule new_fixture_resolver_Ok [OF v, of fixture_env FixtureTransport_new]) blast
  have l: "ListenAddress_parse (\<lambda>_. Some sample_address) (arg_listen ServeArgs_default) = Ok (Tcp sample_address)"
    by (simp add: ListenAddress_parse_def ServeArgs_default_def strip_prefix_def ok_or_def)
  obtain app where a: "serve_fixtures (\<lambda>_. Some sample_address) fixture_env ServeArgs_default = Ok (app, Tcp sample_address)"
    "fa_fixture app = FixtureTransport_new"
    using v x l by (cases x) (simp add: serve_fixtures_def)
  let ?J = "\<lparr>decode_body = \<lambda>_ _. Err 400, to_json = \<lambda>_. []\<rparr>"
  have "reachable (fixture_init (\<lambda>_. Some sample_address) fixture_env ServeArgs_default)
      (fixture_step ?J (\<lambda>_ _. Err 400) 8192) app"
    using a(1) by (intro reachable_init fixture_init.intros)
  note k = fixture_app_keeps [OF this, of "FixtureMode.RotatedV2"]
  obtain app' where "configure_fixture \<lparr>ctl_mode = FixtureMode.RotatedV2, ctl_reset = True\<rparr> app = (Ok 204, app')"
    "fa_fixture app' = \<lparr>ft_mode = FixtureMode.RotatedV2\<rparr>"
    using k by blast
  moreover have "sv_handlers (fa_service app) = 64"
    using k [THEN conjunct1] by (simp add: ServeArgs_default_def)
  ultimately show ?thesis
    using a(2) by (intro exI [of _ app] exI [of _ app']) (simp add: FixtureTransport_new_def)
qed

section \<open>The exit status and the file system\<close>

lemma main_exit_status:
  "fst (main_exit r) = 0 \<longleftrightarrow> r = Ok ()" "fst (main_exit r) = 1 \<longleftrightarrow> (\<exists>reason. r = Err reason)"
  by (auto simp: main_exit_def split: res.splits)

text \<open>No command replaces or removes a file that is not a socket.\<close>

lemma serve_app_keeps_files:
  assumes "\<And>fs. fs p = Some OtherFile \<Longrightarrow> snd (served fs) p = Some OtherFile" and "fs p = Some OtherFile"
  shows "snd (serve_app io binds umask_mode served listen fs) p = Some OtherFile"
proof (cases listen)
  case (Tcp address)
  with assms show ?thesis by (simp add: serve_app_def case_prod_unfold Let_def)
next
  case (Unix path)
  have r: "snd (remove_socket_file io ms q fs1) p = Some OtherFile" if "fs1 p = Some OtherFile" for ms q fs1
    using remove_socket_file_facts(1) [OF surjective_pairing, of io ms q fs1] that by auto
  obtain r1 fs1 where p: "prepare_socket_path io path fs = (r1, fs1)" by fastforce
  have k: "fs1 p = Some OtherFile"
    using r [of fs] assms(2) p by (metis prepare_socket_path_def snd_conv)
  have "snd (remove_own_socket io path fs') p = Some OtherFile" if "fs' p = Some OtherFile" for fs'
    using r [of fs'] that by (simp add: remove_own_socket_def)
  with k p assms(1) Unix show ?thesis
    by (cases r1) (auto simp: serve_app_def serve_unix_def case_prod_unfold Let_def)
qed

lemma main_keeps_files:
  assumes "\<And>fs. fs p = Some OtherFile \<Longrightarrow> snd (out_served X fs) p = Some OtherFile" and "fs p = Some OtherFile"
  shows "snd (main X command fs) p = Some OtherFile"
proof -
  have k: "snd (serve_app io binds umask_mode (out_served X) listen fs) p = Some OtherFile" for io binds umask_mode listen
    using assms by (rule serve_app_keeps_files)
  have "snd (run_command X command fs) p = Some OtherFile"
    using k assms(2) by (simp add: run_command_def split: Command.splits res.splits prod.splits)
  then show ?thesis by (simp add: main_def case_prod_unfold Let_def)
qed

end
