(* ===== verification/Interleaving.thy ===== *)
theory Interleaving
  imports Service
begin

text \<open>
  Concurrent loads. The operations of \<open>cache.rs\<close>, \<open>controls.rs\<close> and \<open>loader.rs\<close> are cut at the await points
  of the code into atomic steps of tasks that interleave in any order, at any clock reading, and can be
  dropped at any await point, as the deadline does. \<open>moka\<close>'s \<open>get_with\<close> runs one computation per key: the
  first task leads, later ones wait for its outcome, and when the leader is dropped the waiting tasks try
  again.
\<close>

section \<open>One refresh in stages\<close>

text \<open>
  Where a refresh stands: before the circuit check, before the fetch permit, before DNS, before the address
  limiter, before the request is built, before it is sent, before the response is used, and after
  \<open>refresh_inner\<close> returned. From \<open>AtDns\<close> to \<open>AtPublish\<close> it holds its permit.
\<close>

datatype ('u, 'p) stage =
    AtCircuit
  | AtBegin string nat
  | AtDns string nat
  | AtIp IpAddr
  | AtHeaders IpAddr
  | AtHttp "'u FetchRequest" cache_req
  | AtPublish "'u FetchRequest" cache_req FetchResponse
  | AtAfter "(('u, 'p) Representation, FetchError) res"

fun holds_permit :: "('u, 'p) stage \<Rightarrow> bool" where
  "holds_permit (AtDns _ _) = True"
| "holds_permit (AtIp _) = True"
| "holds_permit (AtHeaders _) = True"
| "holds_permit (AtHttp _ _) = True"
| "holds_permit (AtPublish _ _ _) = True"
| "holds_permit _ = False"

primrec next_stage ::
  "('a, FetchError) res \<Rightarrow> ('a \<Rightarrow> ('u, 'p) stage) \<Rightarrow> ('u, 'p) stage" where
  "next_stage (Ok a) f = f a"
| "next_stage (Err e) f = AtAfter (Err e)"
| "next_stage Panic f = AtAfter Panic"

text \<open>What the destination policy and the URL say before a permit is asked for.\<close>

definition refresh_target ::
  "('u, 'p, 'l) ResourceLoader \<Rightarrow> 'u ResourceKey \<Rightarrow> (string \<times> nat, FetchError) res" where
  "refresh_target E key =
     (let U = rl_urls E; url = rk_url key in
      res_bind (map_err (\<lambda>_. FetchError_new UnsafeAddress) (validate_url U (rl_destination E) url)) (\<lambda>_.
      res_bind (ok_or (FetchError_new InvalidResource) (url_host_str U url)) (\<lambda>host.
      res_bind (ok_or (FetchError_new InvalidResource) (url_port_or_known_default U url)) (\<lambda>port.
      Ok (host, port)))))"

definition select_address ::
  "('u, 'p, 'l) ResourceLoader \<Rightarrow> nat \<Rightarrow> string \<Rightarrow> nat \<Rightarrow> (IpAddr, FetchError) res" where
  "select_address E now host port =
     res_bind (rl_dns E now host port) (\<lambda>addresses.
     res_bind (map_err (\<lambda>_. FetchError_new UnsafeAddress) (validate_all_addresses (rl_ipnet E) addresses))
       (\<lambda>addresses. case addresses of [] \<Rightarrow> Panic | a # _ \<Rightarrow> Ok a))"

text \<open>A stage that is left for the end gives the permit back.\<close>

definition leave ::
  "('u, 'p) stage \<Rightarrow> ('u, 'p) stage \<Rightarrow> ('u, 'p, 'l) Loader_state \<Rightarrow> ('u, 'p) stage \<times> ('u, 'p, 'l) Loader_state" where
  "leave st st' s =
     (st', if holds_permit st \<and> \<not> holds_permit st' then s\<lparr>ld_controls := release_permit (ld_controls s)\<rparr> else s)"

fun stage_step ::
  "('u, 'p, 'l) ResourceLoader \<Rightarrow> nat \<Rightarrow> 'u ResourceKey \<Rightarrow> ('u, 'p) Representation option \<Rightarrow>
   ('u, 'p) stage \<Rightarrow> ('u, 'p, 'l) Loader_state \<Rightarrow> ('u, 'p) stage \<times> ('u, 'p, 'l) Loader_state" where
  "stage_step E now key previous AtCircuit s =
     (let (r, s) = on_controls (check_circuit now key) s
      in (next_stage r (\<lambda>_. next_stage (refresh_target E key) (\<lambda>(host, port). AtBegin host port)), s))"
| "stage_step E now key previous (AtBegin host port) s =
     (let (r, s) = on_controls (begin_fetch (rl_limiter E) now (url_origin_ascii (rl_urls E) (rk_url key))) s
      in (next_stage r (\<lambda>_. AtDns host port), s))"
| "stage_step E now key previous (AtDns host port) s =
     leave (AtDns host port) (next_stage (select_address E now host port) AtIp) s"
| "stage_step E now key previous (AtIp ip) s =
     (let (r, s) = on_controls (check_ip (rl_limiter E) now ip) s
      in leave (AtIp ip) (next_stage r (\<lambda>_. AtHeaders ip)) s)"
| "stage_step E now key previous (AtHeaders ip) s =
     leave (AtHeaders ip)
       (next_stage (cache_request (rl_urls E) (rl_policy E) key) (\<lambda>request.
          AtHttp \<lparr>fr_url = rk_url key, fr_kind = rk_kind key,
                  fr_headers = conditional_headers (rl_policy E) now previous request, fr_selected_ip = ip\<rparr>
            request)) s"
| "stage_step E now key previous (AtHttp q request) s =
     (let response = rl_http E now q;
          label = fetch_result (res_bind (map_err err_kind response) (\<lambda>_. Ok ()))
      in leave (AtHttp q request) (next_stage response (AtPublish q request))
           (s\<lparr>ld_sent := ld_sent s @ [q], ld_fetch_results := ld_fetch_results s @ [label]\<rparr>))"
| "stage_step E now key previous (AtPublish q request response) s =
     (let r = representation_from_response (rl_urls E) (rl_policy E) (rl_decode E) now key request previous
                response (rl_max_keys E)
      in leave (AtPublish q request response) (AtAfter r)
           (case r of Ok rep \<Rightarrow> publish (rl_policy E) key rep s | _ \<Rightarrow> s))"
| "stage_step E now key previous (AtAfter r) s = (AtAfter r, s)"

text \<open>The stages run one after the other, each at its clock reading.\<close>

definition run_stages ::
  "('u, 'p, 'l) ResourceLoader \<Rightarrow> nat list \<Rightarrow> 'u ResourceKey \<Rightarrow> ('u, 'p) Representation option \<Rightarrow>
   ('u, 'p) stage \<times> ('u, 'p, 'l) Loader_state \<Rightarrow> ('u, 'p) stage \<times> ('u, 'p, 'l) Loader_state" where
  "run_stages E clocks key previous = fold (\<lambda>now (st, s). stage_step E now key previous st s) clocks"

definition stage_times :: "refresh_times \<Rightarrow> nat list" where
  "stage_times T = [t_circuit T, t_begin T, t_dns T, t_ip T, t_headers T, t_http T, t_represent T]"

section \<open>The stages are the refresh\<close>

lemma run_stages_done [simp]:
  "run_stages E [] key previous x = x"
  "run_stages E clocks key previous (AtAfter r, s) = (AtAfter r, s)"
  by (simp add: run_stages_def) (induction clocks, simp_all add: run_stages_def)

lemma run_stages_cons:
  "run_stages E (now # clocks) key previous (st, s) = run_stages E clocks key previous (stage_step E now key previous st s)"
  by (simp add: run_stages_def)

text \<open>A computation in a permit's scope as the last stage.\<close>

definition permit_run ::
  "(('u, 'p) Representation, ('u, 'p, 'l) Loader_state) stateful \<Rightarrow> ('u, 'p, 'l) Loader_state \<Rightarrow>
   ('u, 'p) stage \<times> ('u, 'p, 'l) Loader_state" where
  "permit_run m s = (let (r, s) = with_permit m s in (AtAfter r, s))"

lemma permit_run_lift:
  "permit_run (st_bind (st_lift r) f) s =
     (case r of Ok a \<Rightarrow> permit_run (f a) s
      | Err e \<Rightarrow> (AtAfter (Err e), s\<lparr>ld_controls := release_permit (ld_controls s)\<rparr>)
      | Panic \<Rightarrow> (AtAfter Panic, s\<lparr>ld_controls := release_permit (ld_controls s)\<rparr>))"
  by (cases r) (simp_all add: permit_run_def with_permit_def st_bind_def st_lift_def)

lemma permit_run_bind:
  "permit_run (st_bind m f) s =
     (case m s of (Ok a, t) \<Rightarrow> permit_run (f a) t
      | (Err e, t) \<Rightarrow> (AtAfter (Err e), t\<lparr>ld_controls := release_permit (ld_controls t)\<rparr>)
      | (Panic, t) \<Rightarrow> (AtAfter Panic, t\<lparr>ld_controls := release_permit (ld_controls t)\<rparr>))"
  by (auto simp: permit_run_def with_permit_def st_bind_def split: prod.splits res.splits)

lemma run_publish:
  "run_stages E [t_represent T] key previous (AtPublish q request response, s) =
   permit_run (st_bind (st_lift (representation_from_response (rl_urls E) (rl_policy E) (rl_decode E) (t_represent T)
                        key request previous response (rl_max_keys E))) (\<lambda>representation s.
     (Ok representation, publish (rl_policy E) key representation s))) s"
  unfolding permit_run_lift run_stages_cons
  by (auto simp: leave_def permit_run_def with_permit_def Let_def split: res.splits)

lemma run_http:
  "run_stages E [t_http T, t_represent T] key previous (AtHttp q request, s) =
   permit_run (st_bind (send_fetch E T q) (\<lambda>response.
     st_bind (st_lift (representation_from_response (rl_urls E) (rl_policy E) (rl_decode E) (t_represent T)
                        key request previous response (rl_max_keys E))) (\<lambda>representation s.
     (Ok representation, publish (rl_policy E) key representation s)))) s"
  unfolding permit_run_bind [of "send_fetch E T q"] run_stages_cons [of _ "t_http T"]
  by (cases "rl_http E (t_http T) q") (simp_all add: send_fetch_def leave_def Let_def run_publish)

lemma run_headers:
  "run_stages E [t_headers T, t_http T, t_represent T] key previous (AtHeaders ip, s) =
   permit_run (st_bind (st_lift (cache_request (rl_urls E) (rl_policy E) key)) (\<lambda>request.
     st_bind (send_fetch E T
       \<lparr>fr_url = rk_url key, fr_kind = rk_kind key,
        fr_headers = conditional_headers (rl_policy E) (t_headers T) previous request,
        fr_selected_ip = ip\<rparr>) (\<lambda>response.
     st_bind (st_lift (representation_from_response (rl_urls E) (rl_policy E) (rl_decode E) (t_represent T)
                        key request previous response (rl_max_keys E))) (\<lambda>representation s.
     (Ok representation, publish (rl_policy E) key representation s))))) s"
  unfolding permit_run_lift [of "cache_request (rl_urls E) (rl_policy E) key"] run_stages_cons [of _ "t_headers T"]
  by (cases "cache_request (rl_urls E) (rl_policy E) key") (simp_all add: leave_def run_http)

lemma run_dns:
  "run_stages E [t_dns T, t_ip T, t_headers T, t_http T, t_represent T] key previous (AtDns host port, s) =
   permit_run (refresh_fetch E T key previous host port) s"
proof -
  have ip: "run_stages E [t_ip T, t_headers T, t_http T, t_represent T] key previous (AtIp ip, s) =
     permit_run (st_bind (on_controls (check_ip (rl_limiter E) (t_ip T) ip)) (\<lambda>_.
       st_bind (st_lift (cache_request (rl_urls E) (rl_policy E) key)) (\<lambda>request.
       st_bind (send_fetch E T
         \<lparr>fr_url = rk_url key, fr_kind = rk_kind key,
          fr_headers = conditional_headers (rl_policy E) (t_headers T) previous request,
          fr_selected_ip = ip\<rparr>) (\<lambda>response.
       st_bind (st_lift (representation_from_response (rl_urls E) (rl_policy E) (rl_decode E) (t_represent T)
                          key request previous response (rl_max_keys E))) (\<lambda>representation s.
       (Ok representation, publish (rl_policy E) key representation s)))))) s" for ip
    unfolding permit_run_bind [of "on_controls _"] run_stages_cons [of _ "t_ip T"] run_headers [symmetric]
    by (auto simp: leave_def split: prod.splits res.splits)
  show ?thesis
    unfolding refresh_fetch_def permit_run_lift [of "rl_dns E (t_dns T) host port"] run_stages_cons [of _ "t_dns T"]
    by (auto simp: select_address_def leave_def permit_run_lift simp flip: ip split: res.splits list.splits)
qed

lemma refresh_target_Ok:
  "refresh_target E key = Ok (host, port) \<longleftrightarrow>
     validate_url (rl_urls E) (rl_destination E) (rk_url key) = Ok () \<and>
     url_host_str (rl_urls E) (rk_url key) = Some host \<and>
     url_port_or_known_default (rl_urls E) (rk_url key) = Some port"
  by (auto simp: refresh_target_def Let_def res_simps map_err_Ok ok_or_def split: option.splits)

lemma st_bind_target:
  "st_bind (st_lift (map_err (\<lambda>_. FetchError_new UnsafeAddress) (validate_url (rl_urls E) (rl_destination E) (rk_url key)))) (\<lambda>_.
   st_bind (st_lift (ok_or (FetchError_new InvalidResource) (url_host_str (rl_urls E) (rk_url key)))) (\<lambda>host.
   st_bind (st_lift (ok_or (FetchError_new InvalidResource) (url_port_or_known_default (rl_urls E) (rk_url key)))) (\<lambda>port.
   f host port))) = st_bind (st_lift (refresh_target E key)) (\<lambda>(host, port). f host port)"
  by (rule ext) (auto simp: st_bind_def st_lift_def refresh_target_def Let_def ok_or_def split: option.splits res.splits)

lemma run_begin:
  "run_stages E [t_begin T, t_dns T, t_ip T, t_headers T, t_http T, t_represent T] key previous (AtBegin host port, s) =
   (let (r, s') = st_bind (on_controls (begin_fetch (rl_limiter E) (t_begin T) (url_origin_ascii (rl_urls E) (rk_url key))))
                    (\<lambda>_. with_permit (refresh_fetch E T key previous host port)) s
    in (AtAfter r, s'))"
  unfolding run_stages_cons [of _ "t_begin T"]
  by (auto simp: st_bind_def run_dns permit_run_def split: prod.splits res.splits)

text \<open>
  The stages are the refresh: run one after the other without interruption, each at its clock reading,
  they return what \<open>refresh_inner\<close> returns and leave the state it leaves.
\<close>

lemma run_stages_refresh_inner:
  "run_stages E (stage_times T) key previous (AtCircuit, s) =
     (let (r, s') = refresh_inner E T key previous s in (AtAfter r, s'))"
proof -
  obtain r t where c: "on_controls (check_circuit (t_circuit T) key) s = (r, t)" by fastforce
  show ?thesis
    unfolding stage_times_def run_stages_cons [of _ "t_circuit T"] refresh_inner_def Let_def st_bind_target
    using c by (cases r; cases "refresh_target E key") (auto simp: st_bind_def st_lift_def run_begin Let_def)
qed

section \<open>Tasks\<close>

text \<open>
  One task is one call of \<open>CacheStore::load\<close>, with the reading of the system clock it took at its start: it
  looks the representation up, consults the recorded outcome, invalidates one that has expired, joins
  \<open>get_with\<close>, waits or leads there, has an outcome, or has answered.
\<close>

datatype ('u, 'p) phase =
    Looking "'u ResourceKey"
  | Missed "'u ResourceKey" nat "('u, 'p) Representation option"
  | Expired "'u ResourceKey" nat "('u, 'p) Representation option"
  | Joining "'u ResourceKey" nat "('u, 'p) Representation option"
  | Waiting "'u ResourceKey" nat "('u, 'p) Representation option"
  | Leading "'u ResourceKey" nat "('u, 'p) Representation option" "('u, 'p) stage"
  | Got "'u ResourceKey" nat "('u, 'p) Representation option" "('u, 'p) RefreshOutcome"
  | Answered "'u ResourceKey" "(('u, 'p) Representation, FetchError) res"

text \<open>The shared state, the computation that \<open>get_with\<close> runs for each key, and the tasks.\<close>

record ('u, 'p, 'l) world =
  wd_shared :: "('u, 'p, 'l) Loader_state"
  wd_leaders :: "'u ResourceKey \<rightharpoonup> nat"
  wd_tasks :: "nat \<rightharpoonup> ('u, 'p) phase"

definition set_task :: "nat \<Rightarrow> ('u, 'p) phase \<Rightarrow> ('u, 'p, 'l) world \<Rightarrow> ('u, 'p, 'l) world" where
  "set_task i ph w = w\<lparr>wd_tasks := (wd_tasks w)(i \<mapsto> ph)\<rparr>"

text \<open>The waiting tasks of a key are woken with an outcome, or to try again.\<close>

definition wake ::
  "'u ResourceKey \<Rightarrow> ('u, 'p) RefreshOutcome option \<Rightarrow> (nat \<rightharpoonup> ('u, 'p) phase) \<Rightarrow> (nat \<rightharpoonup> ('u, 'p) phase)" where
  "wake key outcome tasks = (\<lambda>i.
     case tasks i of
       Some (Waiting k now previous) \<Rightarrow>
         if k = key then
           Some (case outcome of Some out \<Rightarrow> Got k now previous out | None \<Rightarrow> Joining k now previous)
         else Some (Waiting k now previous)
     | ph \<Rightarrow> ph)"

text \<open>The first section of a load, up to the decision that something has to be refreshed.\<close>

definition look ::
  "('u, 'p, 'l) ResourceLoader \<Rightarrow> nat \<Rightarrow> 'u ResourceKey \<Rightarrow> ('u, 'p, 'l) Loader_state \<Rightarrow>
   ('u, 'p) phase \<times> ('u, 'p, 'l) Loader_state" where
  "look E now key s =
     (case cache_request (rl_urls E) (rl_policy E) key of
        Ok request \<Rightarrow>
          (case representations s key of
             Some rep \<Rightarrow>
               if fresh_request (rl_policy E) rep request now \<noteq> None
               then (Answered key (Ok rep), cache_event ''fresh_hit'' s)
               else (Missed key now (Some rep), s)
           | None \<Rightarrow> (Missed key now None, s))
      | Err e \<Rightarrow> (Answered key (Err e), s)
      | Panic \<Rightarrow> (Answered key Panic, s))"

definition consult ::
  "nat \<Rightarrow> 'u ResourceKey \<Rightarrow> nat \<Rightarrow> ('u, 'p) Representation option \<Rightarrow> ('u, 'p, 'l) Loader_state \<Rightarrow> ('u, 'p) phase" where
  "consult inst key now previous s =
     (case refreshes s key of
        Some outcome \<Rightarrow>
          if ro_valid_until outcome > inst then Got key now previous outcome else Expired key now previous
      | None \<Rightarrow> Joining key now previous)"

text \<open>The end of the computation: the outcome with its validity, as \<open>refresh\<close> makes it.\<close>

definition conclude ::
  "('u, 'p, 'l) ResourceLoader \<Rightarrow> nat \<Rightarrow> nat \<Rightarrow> 'u ResourceKey \<Rightarrow> (('u, 'p) Representation, FetchError) res \<Rightarrow>
   ('u, 'p, 'l) Loader_state \<Rightarrow> ('u, 'p) RefreshOutcome \<times> ('u, 'p, 'l) Loader_state" where
  "conclude E now end_at key r s =
     (let (valid_for, w) = refresh_validity E now key r (ld_controls s);
          out = \<lparr>ro_result = r, ro_valid_until = end_at + valid_for\<rparr>
      in (out, s\<lparr>ld_controls := w, refreshes := (refreshes s)(key \<mapsto> out)\<rparr>))"

text \<open>
  What a task leaves that is dropped, or unwinds from a panic: the leader's computation ends without an outcome, its permit goes back and the
  tasks that wait for it try again.
\<close>

definition drop_task :: "nat \<Rightarrow> ('u, 'p, 'l) world \<Rightarrow> ('u, 'p, 'l) world" where
  "drop_task i w =
     (case wd_tasks w i of
        Some (Leading key now previous st) \<Rightarrow>
          w\<lparr>wd_shared := (if holds_permit st
                          then (wd_shared w)\<lparr>ld_controls := release_permit (ld_controls (wd_shared w))\<rparr>
                          else wd_shared w),
            wd_leaders := (wd_leaders w)(key := None),
            wd_tasks := (wake key None (wd_tasks w))(i := None)\<rparr>
      | _ \<Rightarrow> w\<lparr>wd_tasks := (wd_tasks w)(i := None)\<rparr>)"

section \<open>Steps\<close>

inductive world_init :: "('u, 'p, 'l) ResourceLoader \<Rightarrow> Limits \<Rightarrow> ('u, 'p, 'l) world \<Rightarrow> bool" for E limits where
  "ResourceLoader_new E limits = Ok s \<Longrightarrow>
   world_init E limits \<lparr>wd_shared = s, wd_leaders = Map.empty, wd_tasks = Map.empty\<rparr>"

inductive task_step :: "('u, 'p, 'l) ResourceLoader \<Rightarrow> nat \<Rightarrow> ('u, 'p, 'l) world \<Rightarrow> ('u, 'p, 'l) world \<Rightarrow> bool"
  for E i where
  task_look: "wd_tasks w i = Some (Looking key) \<Longrightarrow> look E now key (wd_shared w) = (ph, s) \<Longrightarrow>
     task_step E i w (set_task i ph (w\<lparr>wd_shared := s\<rparr>))"
| task_consult: "wd_tasks w i = Some (Missed key now previous) \<Longrightarrow>
     task_step E i w (set_task i (consult inst key now previous (wd_shared w)) w)"
| task_invalidate: "wd_tasks w i = Some (Expired key now previous) \<Longrightarrow>
     task_step E i w (set_task i (Joining key now previous)
       (w\<lparr>wd_shared := (wd_shared w)\<lparr>refreshes := (refreshes (wd_shared w))(key := None)\<rparr>\<rparr>))"
| task_join_done: "wd_tasks w i = Some (Joining key now previous) \<Longrightarrow>
     refreshes (wd_shared w) key = Some out \<Longrightarrow>
     task_step E i w (set_task i (Got key now previous out) w)"
| task_join_wait: "wd_tasks w i = Some (Joining key now previous) \<Longrightarrow>
     refreshes (wd_shared w) key = None \<Longrightarrow> wd_leaders w key = Some j \<Longrightarrow>
     task_step E i w (set_task i (Waiting key now previous) w)"
| task_join_lead: "wd_tasks w i = Some (Joining key now previous) \<Longrightarrow>
     refreshes (wd_shared w) key = None \<Longrightarrow> wd_leaders w key = None \<Longrightarrow>
     task_step E i w (set_task i (Leading key now previous AtCircuit)
       (w\<lparr>wd_leaders := (wd_leaders w)(key \<mapsto> i), wd_shared := cache_event ''refresh'' (wd_shared w)\<rparr>))"
| task_work: "wd_tasks w i = Some (Leading key now previous st) \<Longrightarrow> (\<nexists>r. st = AtAfter r) \<Longrightarrow>
     stage_step E t key previous st (wd_shared w) = (st', s) \<Longrightarrow>
     task_step E i w (set_task i (Leading key now previous st') (w\<lparr>wd_shared := s\<rparr>))"
| task_conclude: "wd_tasks w i = Some (Leading key now previous (AtAfter r)) \<Longrightarrow> r \<noteq> Panic \<Longrightarrow>
     conclude E ended end_at key r (wd_shared w) = (out, s) \<Longrightarrow>
     task_step E i w (w\<lparr>wd_shared := s, wd_leaders := (wd_leaders w)(key := None),
       wd_tasks := (wake key (Some out) (wd_tasks w))(i \<mapsto> Got key now previous out)\<rparr>)"
| task_panic: "wd_tasks w i = Some (Leading key now previous (AtAfter Panic)) \<Longrightarrow>
     task_step E i w (drop_task i w)"
| task_answer: "wd_tasks w i = Some (Got key now previous out) \<Longrightarrow>
     result_or_stale (ro_result out) previous now (wd_shared w) = (r, s) \<Longrightarrow>
     task_step E i w (set_task i (Answered key r) (w\<lparr>wd_shared := s\<rparr>))"

text \<open>The bounded caches keep only some of their entries.\<close>

definition evict ::
  "'u ResourceKey set \<Rightarrow> 'u ResourceKey set \<Rightarrow> string set \<Rightarrow> IpAddr set \<Rightarrow> 'u ResourceKey set \<Rightarrow>
   ('u, 'p, 'l) Loader_state \<Rightarrow> ('u, 'p, 'l) Loader_state" where
  "evict A B F G H s =
     s\<lparr>representations := representations s |` A, refreshes := refreshes s |` B,
       ld_controls := (ld_controls s)\<lparr>origins := origins (ld_controls s) |` F, ips := ips (ld_controls s) |` G,
         circuits := circuits (ld_controls s) |` H\<rparr>\<rparr>"

text \<open>The whole: tasks start, step and are dropped, and the bounded caches lose entries.\<close>

inductive world_step :: "('u, 'p, 'l) ResourceLoader \<Rightarrow> ('u, 'p, 'l) world \<Rightarrow> ('u, 'p, 'l) world \<Rightarrow> bool" for E where
  world_spawn: "wd_tasks w i = None \<Longrightarrow> world_step E w (set_task i (Looking key) w)"
| world_task: "task_step E i w w' \<Longrightarrow> world_step E w w'"
| world_drop: "world_step E w (drop_task i w)"
| world_evict: "world_step E w (w\<lparr>wd_shared := evict A B F G H (wd_shared w)\<rparr>)"

section \<open>What a stage does\<close>

text \<open>An address a request for the key may be pinned to.\<close>

definition safe_address :: "('u, 'p, 'l) ResourceLoader \<Rightarrow> 'u ResourceKey \<Rightarrow> IpAddr \<Rightarrow> bool" where
  "safe_address E key ip \<longleftrightarrow>
     (\<exists>now host port answer. refresh_target E key = Ok (host, port) \<and> rl_dns E now host port = Ok answer \<and>
        ip \<in> set answer \<and> list_all (globally_reachable (rl_ipnet E)) answer)"

fun stage_ok :: "('u, 'p, 'l) ResourceLoader \<Rightarrow> 'u ResourceKey \<Rightarrow> ('u, 'p) stage \<Rightarrow> bool" where
  "stage_ok E key AtCircuit = True"
| "stage_ok E key (AtBegin host port) = (refresh_target E key = Ok (host, port))"
| "stage_ok E key (AtDns host port) = (refresh_target E key = Ok (host, port))"
| "stage_ok E key (AtIp ip) = safe_address E key ip"
| "stage_ok E key (AtHeaders ip) = safe_address E key ip"
| "stage_ok E key (AtHttp q request) = (safe_request E q \<and> fr_url q = rk_url key)"
| "stage_ok E key (AtPublish q request response) =
     (safe_request E q \<and> fr_url q = rk_url key \<and> (\<exists>now. rl_http E now q = Ok response))"
| "stage_ok E key (AtAfter r) = (\<forall>rep. r = Ok rep \<longrightarrow> valid_rep E key rep)"

lemma stage_ok_next:
  "(\<And>a. r = Ok a \<Longrightarrow> stage_ok E key (f a)) \<Longrightarrow> stage_ok E key (next_stage r f)"
  by (cases r) simp_all

lemma safe_address_request:
  "safe_address E key ip \<Longrightarrow> fr_url q = rk_url key \<Longrightarrow> fr_selected_ip q = ip \<Longrightarrow> safe_request E q"
  unfolding safe_address_def safe_request_def by (auto simp: refresh_target_Ok)

lemma select_address_safe:
  assumes "refresh_target E key = Ok (host, port)" and "select_address E now host port = Ok ip"
  shows "safe_address E key ip"
proof -
  from assms(2) obtain answer vs where dns: "rl_dns E now host port = Ok answer"
    and vs: "validate_all_addresses (rl_ipnet E) answer = Ok vs" and ip: "ip \<in> set vs"
    by (auto simp: select_address_def res_simps map_err_Ok neq_Nil_conv split: list.splits)
  with assms(1) destination.check_Ok [OF vs] show ?thesis
    unfolding safe_address_def by (auto simp: list_all_iff)
qed

lemma holds_permit_next [simp]:
  "holds_permit (next_stage r f) \<longleftrightarrow> (\<exists>a. r = Ok a \<and> holds_permit (f a))"
  by (cases r) simp_all

text \<open>A permit is held exactly between the stage that takes it and the one that gives it back.\<close>

lemma leave_permit:
  "leave st st' s = (st2, t) \<Longrightarrow> holds_permit st \<Longrightarrow>
   outbound (ld_controls t) + of_bool (holds_permit st2) = outbound (ld_controls s) + 1 \<and>
   wc_limits (ld_controls t) = wc_limits (ld_controls s)"
  by (auto simp: leave_def release_permit_def)

lemma stage_step_permit:
  assumes "stage_step E now key previous st s = (st', t)"
  shows "outbound (ld_controls t) + of_bool (holds_permit st') = outbound (ld_controls s) + of_bool (holds_permit st) \<and>
    wc_limits (ld_controls t) = wc_limits (ld_controls s)"
proof (cases st)
  case AtCircuit
  with assms same_admission_snd(3) [of "ld_controls s" now key] show ?thesis
    by (auto simp: on_controls_def same_admission_def case_prod_unfold Let_def)
next
  case (AtBegin host port)
  obtain r w where b: "begin_fetch (rl_limiter E) now (url_origin_ascii (rl_urls E) (rk_url key)) (ld_controls s) = (r, w)"
    by fastforce
  from begin_fetch_effect(1,2) [OF b] AtBegin assms b show ?thesis
    by (auto simp: on_controls_def split: if_splits)
next
  case (AtDns host port)
  with assms show ?thesis by (auto dest: leave_permit)
next
  case (AtIp ip)
  with assms same_admission_snd(1) [of "ld_controls s" "rl_limiter E" now ip] show ?thesis
    by (auto simp: on_controls_def same_admission_def case_prod_unfold Let_def dest!: leave_permit)
next
  case (AtHeaders ip)
  with assms show ?thesis by (auto dest: leave_permit)
next
  case (AtHttp q request)
  with assms show ?thesis by (auto simp: Let_def dest!: leave_permit)
next
  case (AtPublish q request response)
  with assms show ?thesis by (auto simp: Let_def publish_def dest!: leave_permit split: res.splits)
next
  case (AtAfter r)
  with assms show ?thesis by simp
qed

text \<open>Every stage keeps what is stored valid and what is sent safe, and hands on what the next one relies on.\<close>

definition store_ok :: "('u, 'p, 'l) ResourceLoader \<Rightarrow> ('u, 'p, 'l) Loader_state \<Rightarrow> bool" where
  "store_ok E s \<longleftrightarrow> cache_inv (valid_rep E) s \<and> list_all (safe_request E) (ld_sent s)"

lemma store_ok_simps [simp]:
  "store_ok E (s\<lparr>ld_controls := w\<rparr>) = store_ok E s"
  "store_ok E (cache_event e s) = store_ok E s"
  "store_ok E (s\<lparr>ld_sent := ld_sent s @ [q], ld_fetch_results := l\<rparr>) \<longleftrightarrow> store_ok E s \<and> safe_request E q"
  by (auto simp: store_ok_def cache_inv_def cache_event_def)

lemma store_ok_publish: "store_ok E s \<Longrightarrow> valid_rep E key rep \<Longrightarrow> store_ok E (publish P key rep s)"
  by (simp add: store_ok_def cache_inv_publish) (simp add: publish_def)

lemma store_ok_leave [simp]: "store_ok E (snd (leave st st' s)) = store_ok E s"
  by (simp add: leave_def)

lemma stage_ok_leave [simp]: "fst (leave st st' s) = st'"
  by (simp add: leave_def)

lemma stage_step_ok:
  assumes "stage_ok E key st" and "store_ok E s" and "\<And>old. previous = Some old \<Longrightarrow> valid_rep E key old"
  shows "stage_ok E key (fst (stage_step E now key previous st s)) \<and> store_ok E (snd (stage_step E now key previous st s))"
proof (cases st)
  case AtCircuit
  with assms(2) show ?thesis
    by (auto simp: on_controls_def case_prod_unfold Let_def intro!: stage_ok_next)
next
  case (AtBegin host port)
  with assms show ?thesis by (auto simp: on_controls_def case_prod_unfold Let_def intro!: stage_ok_next)
next
  case (AtDns host port)
  with assms show ?thesis by (auto intro!: stage_ok_next select_address_safe)
next
  case (AtIp ip)
  with assms show ?thesis by (auto simp: on_controls_def case_prod_unfold Let_def intro!: stage_ok_next)
next
  case (AtHeaders ip)
  with assms show ?thesis by (auto intro!: stage_ok_next safe_address_request [of E key ip])
next
  case (AtHttp q request)
  with assms show ?thesis
    by (auto simp: Let_def intro!: stage_ok_next)
next
  case (AtPublish q request response)
  let ?r = "representation_from_response (rl_urls E) (rl_policy E) (rl_decode E) now key request previous response (rl_max_keys E)"
  have v: "valid_rep E key rep" if "?r = Ok rep" for rep
    using AtPublish assms(1,3) that by (auto intro: representation_valid)
  then show ?thesis
    using assms(2) v by (auto simp: AtPublish Let_def store_ok_publish split: res.splits)
next
  case (AtAfter r)
  with assms show ?thesis by simp
qed

section \<open>The invariant\<close>

fun leads :: "('u, 'p) phase \<Rightarrow> 'u ResourceKey option" where
  "leads (Leading key now previous st) = Some key"
| "leads _ = None"

fun waits :: "('u, 'p) phase \<Rightarrow> 'u ResourceKey option" where
  "waits (Waiting key now previous) = Some key"
| "waits _ = None"

fun phase_permit :: "('u, 'p) phase \<Rightarrow> bool" where
  "phase_permit (Leading key now previous st) = holds_permit st"
| "phase_permit _ = False"

definition prior_ok :: "('u, 'p, 'l) ResourceLoader \<Rightarrow> 'u ResourceKey \<Rightarrow> ('u, 'p) Representation option \<Rightarrow> bool" where
  "prior_ok E key previous \<longleftrightarrow> (\<forall>old. previous = Some old \<longrightarrow> valid_rep E key old)"

fun phase_ok :: "('u, 'p, 'l) ResourceLoader \<Rightarrow> ('u, 'p) phase \<Rightarrow> bool" where
  "phase_ok E (Looking key) = True"
| "phase_ok E (Missed key now previous) = prior_ok E key previous"
| "phase_ok E (Expired key now previous) = prior_ok E key previous"
| "phase_ok E (Joining key now previous) = prior_ok E key previous"
| "phase_ok E (Waiting key now previous) = prior_ok E key previous"
| "phase_ok E (Leading key now previous st) = (prior_ok E key previous \<and> stage_ok E key st)"
| "phase_ok E (Got key now previous out) =
     (prior_ok E key previous \<and> (\<forall>rep. ro_result out = Ok rep \<longrightarrow> valid_rep E key rep))"
| "phase_ok E (Answered key r) = (\<forall>rep. r = Ok rep \<longrightarrow> valid_rep E key rep)"

text \<open>The tasks in a phase of a kind, and those that hold a fetch permit.\<close>

definition holding :: "('x \<Rightarrow> bool) \<Rightarrow> (nat \<rightharpoonup> 'x) \<Rightarrow> nat set" where
  "holding P tasks = {i. \<exists>ph. tasks i = Some ph \<and> P ph}"

definition permits :: "(nat \<rightharpoonup> ('u, 'p) phase) \<Rightarrow> nat set" where
  "permits tasks = holding phase_permit tasks"

text \<open>
  The three parts of the invariant: what is stored, sent and handed from stage to stage is right; permits
  are neither lost nor made; each key's computation belongs to the one task that leads it, and whoever
  waits waits for such a computation.
\<close>

definition tasks_ok :: "('u, 'p, 'l) ResourceLoader \<Rightarrow> (nat \<rightharpoonup> ('u, 'p) phase) \<Rightarrow> bool" where
  "tasks_ok E tasks \<longleftrightarrow> (\<forall>i ph. tasks i = Some ph \<longrightarrow> phase_ok E ph)"

definition permits_ok :: "Limits \<Rightarrow> ('l, 'k) WorkControls \<Rightarrow> (nat \<rightharpoonup> ('u, 'p) phase) \<Rightarrow> bool" where
  "permits_ok limits c tasks \<longleftrightarrow>
     wc_limits c = limits \<and> finite (dom tasks) \<and> outbound c + card (permits tasks) = outbound_fetches limits"

definition leaders_ok :: "('u ResourceKey \<rightharpoonup> nat) \<Rightarrow> (nat \<rightharpoonup> ('u, 'p) phase) \<Rightarrow> bool" where
  "leaders_ok leaders tasks \<longleftrightarrow>
     (\<forall>key i. leaders key = Some i \<longleftrightarrow> (\<exists>ph. tasks i = Some ph \<and> leads ph = Some key)) \<and>
     (\<forall>i ph key. tasks i = Some ph \<and> waits ph = Some key \<longrightarrow> leaders key \<noteq> None)"

definition world_inv :: "('u, 'p, 'l) ResourceLoader \<Rightarrow> Limits \<Rightarrow> ('u, 'p, 'l) world \<Rightarrow> bool" where
  "world_inv E limits w \<longleftrightarrow>
     store_ok E (wd_shared w) \<and> tasks_ok E (wd_tasks w) \<and>
     permits_ok limits (ld_controls (wd_shared w)) (wd_tasks w) \<and> leaders_ok (wd_leaders w) (wd_tasks w)"

subsection \<open>Updates of one task and wake-ups\<close>

lemma tasks_ok_update: "tasks_ok E tasks \<Longrightarrow> phase_ok E ph \<Longrightarrow> tasks_ok E (tasks(i \<mapsto> ph))"
  by (simp add: tasks_ok_def)

lemma tasks_ok_drop: "tasks_ok E tasks \<Longrightarrow> tasks_ok E (tasks(i := None))"
  by (simp add: tasks_ok_def)

lemma wake_Some:
  "wake key outcome tasks i = Some ph \<Longrightarrow>
   tasks i = Some ph \<and> waits ph \<noteq> Some key \<or>
   (\<exists>now previous. tasks i = Some (Waiting key now previous) \<and>
      ph = (case outcome of Some out \<Rightarrow> Got key now previous out | None \<Rightarrow> Joining key now previous))"
  by (auto simp: wake_def split: option.splits phase.splits if_splits)

lemma wake_leads: "(\<exists>ph. wake key outcome tasks i = Some ph \<and> leads ph = Some k) \<longleftrightarrow> (\<exists>ph. tasks i = Some ph \<and> leads ph = Some k)"
  by (auto simp: wake_def split: option.splits phase.splits)

lemma wake_holding:
  assumes "\<And>key now previous out. \<not> P (Waiting key now previous) \<and> \<not> P (Joining key now previous) \<and>
      \<not> P (Got key now previous out)"
  shows "holding P (wake key outcome tasks) = holding P tasks"
proof -
  have "(\<exists>ph. wake key outcome tasks i = Some ph \<and> P ph) \<longleftrightarrow> (\<exists>ph. tasks i = Some ph \<and> P ph)" for i
  proof (cases "tasks i")
    case (Some ph)
    with assms show ?thesis by (cases ph) (auto simp: wake_def split: option.splits)
  qed (simp add: wake_def)
  then show ?thesis by (simp add: holding_def)
qed

lemma wake_permits [simp]: "permits (wake key outcome tasks) = permits tasks"
  unfolding permits_def by (rule wake_holding) simp

lemma wake_dom [simp]: "dom (wake key outcome tasks) = dom tasks"
proof (rule set_eqI)
  fix i
  show "i \<in> dom (wake key outcome tasks) \<longleftrightarrow> i \<in> dom tasks"
  proof (cases "tasks i")
    case (Some ph)
    then show ?thesis by (cases ph) (simp_all add: wake_def dom_def)
  qed (simp add: wake_def dom_def)
qed

lemma tasks_ok_wake:
  assumes "tasks_ok E tasks" and "\<And>out rep. outcome = Some out \<Longrightarrow> ro_result out = Ok rep \<Longrightarrow> valid_rep E key rep"
  shows "tasks_ok E (wake key outcome tasks)"
  unfolding tasks_ok_def
proof (intro allI impI)
  fix i ph
  assume "wake key outcome tasks i = Some ph"
  from wake_Some [OF this] assms show "phase_ok E ph"
    by (cases outcome) (fastforce simp: tasks_ok_def)+
qed

lemma card_holding_update:
  assumes "finite (dom tasks)"
  shows "card (holding P (tasks(i := x))) + of_bool (\<exists>ph. tasks i = Some ph \<and> P ph) =
    card (holding P tasks) + of_bool (\<exists>ph. x = Some ph \<and> P ph)"
proof -
  have "holding P tasks \<subseteq> dom tasks" by (auto simp: holding_def)
  with assms have f: "finite (holding P tasks)" by (rule rev_finite_subset)
  have i: "(\<exists>ph. tasks i = Some ph \<and> P ph) \<longleftrightarrow> i \<in> holding P tasks" by (simp add: holding_def)
  have "holding P (tasks(i := x)) =
      (if \<exists>ph. x = Some ph \<and> P ph then insert i (holding P tasks) else holding P tasks - {i})"
    by (auto simp: holding_def)
  moreover have "0 < card (holding P tasks)" if "i \<in> holding P tasks" using f that by (auto simp: card_gt_0_iff)
  ultimately show ?thesis using f unfolding i by (auto simp: card_insert_if insert_absorb)
qed

lemma permits_ok_update:
  assumes "permits_ok limits c tasks" and "wc_limits c' = wc_limits c"
    and "outbound c' + of_bool (\<exists>ph. x = Some ph \<and> phase_permit ph) =
      outbound c + of_bool (\<exists>ph. tasks i = Some ph \<and> phase_permit ph)"
  shows "permits_ok limits c' (tasks(i := x))"
  using assms card_holding_update [of tasks phase_permit i x] by (simp add: permits_ok_def permits_def)

lemma permits_ok_wake [simp]: "permits_ok limits c (wake key outcome tasks) = permits_ok limits c tasks"
  by (simp add: permits_ok_def)

lemma leaders_ok_same:
  assumes "leaders_ok leaders tasks" and "tasks i = Some ph" and "leads ph' = leads ph" and "waits ph' = None"
  shows "leaders_ok leaders (tasks(i \<mapsto> ph'))"
  using assms by (auto simp: leaders_ok_def)

lemma leaders_ok_fresh:
  assumes "leaders_ok leaders tasks" and "tasks i = None" and "leads ph = None" and "waits ph = None"
  shows "leaders_ok leaders (tasks(i \<mapsto> ph))"
  using assms by (auto simp: leaders_ok_def)

lemma leaders_ok_drop:
  assumes "leaders_ok leaders tasks" and "\<And>ph. tasks i = Some ph \<Longrightarrow> leads ph = None"
  shows "leaders_ok leaders (tasks(i := None))"
  using assms by (auto simp: leaders_ok_def)

text \<open>The end of a computation, with or without an outcome: its leader is gone and nobody waits for it.\<close>

lemma leaders_ok_end:
  assumes "leaders_ok leaders tasks" and "tasks i = Some ph" and "leads ph = Some key"
    and "\<And>ph'. x = Some ph' \<Longrightarrow> leads ph' = None \<and> waits ph' = None"
  shows "leaders_ok (leaders(key := None)) ((wake key outcome tasks)(i := x))"
proof -
  have l: "leaders k = Some j \<longleftrightarrow> (\<exists>ph. tasks j = Some ph \<and> leads ph = Some k)" for k j
    using assms(1) by (simp add: leaders_ok_def)
  have w: "leaders k \<noteq> None" if "tasks j = Some ph'" "waits ph' = Some k" for j ph' k
    using assms(1) that by (auto simp: leaders_ok_def)
  have i: "leaders key = Some i" using l assms(2,3) by blast
  show ?thesis
    unfolding leaders_ok_def
  proof (intro conjI allI impI)
    fix k j
    show "(leaders(key := None)) k = Some j \<longleftrightarrow>
        (\<exists>ph. ((wake key outcome tasks)(i := x)) j = Some ph \<and> leads ph = Some k)"
    proof (cases "j = i")
      case True
      with assms(2-4) l [of k j] show ?thesis by auto
    next
      case False
      with l [of k j] i show ?thesis by (auto simp: wake_leads)
    qed
  next
    fix j ph' k
    assume a: "((wake key outcome tasks)(i := x)) j = Some ph' \<and> waits ph' = Some k"
    then have "j \<noteq> i" using assms(4) by auto
    with a have "wake key outcome tasks j = Some ph'" by simp
    from wake_Some [OF this] a have "tasks j = Some ph' \<and> k \<noteq> key" by (auto split: option.splits)
    with a w show "(leaders(key := None)) k \<noteq> None" by auto
  qed
qed

subsection \<open>Every step keeps it\<close>

lemma store_ok_prior: "store_ok E s \<Longrightarrow> prior_ok E key (representations s key)"
  by (auto simp: store_ok_def cache_inv_def prior_ok_def)

lemma look_effect:
  assumes "look E now key s = (ph, t)" and "store_ok E s"
  shows "store_ok E t \<and> ld_controls t = ld_controls s \<and> phase_ok E ph \<and> leads ph = None \<and> waits ph = None \<and>
    \<not> phase_permit ph"
  using assms store_ok_prior [OF assms(2), of key]
  by (auto simp: look_def prior_ok_def cache_event_def [THEN arg_cong [of _ _ ld_controls]]
      split: res.splits option.splits if_splits)

lemma consult_effect:
  assumes "store_ok E s" and "prior_ok E key previous"
  shows "phase_ok E (consult inst key now previous s)"
    and "leads (consult inst key now previous s) = None"
    and "waits (consult inst key now previous s) = None"
    and "\<not> phase_permit (consult inst key now previous s)"
  using assms by (auto simp: consult_def store_ok_def cache_inv_def split: option.splits)

lemma conclude_effect:
  assumes "conclude E now end_at key r s = (out, t)" and "store_ok E s" and "stage_ok E key (AtAfter r)"
  shows "store_ok E t" and "ro_result out = r"
    and "outbound (ld_controls t) = outbound (ld_controls s)" and "wc_limits (ld_controls t) = wc_limits (ld_controls s)"
  using assms refresh_validity_same [of "ld_controls s" E now key r]
  by (auto simp: conclude_def same_admission_def store_ok_def cache_inv_def case_prod_unfold Let_def split: if_splits)

lemma result_or_stale_controls:
  "result_or_stale r previous now s = (r', t) \<Longrightarrow> ld_controls t = ld_controls s \<and> ld_sent t = ld_sent s"
  by (auto simp: result_or_stale_def cache_event_def split: res.splits option.splits if_splits)

lemma result_or_stale_ok:
  assumes "result_or_stale r previous now s = (r', t)" and "store_ok E s"
    and "prior_ok E key previous" and "\<And>rep. r = Ok rep \<Longrightarrow> valid_rep E key rep"
  shows "store_ok E t" and "r' = Ok rep \<Longrightarrow> valid_rep E key rep"
proof -
  show "store_ok E t"
    using assms(1,2) cache_inv_result_or_stale [of "valid_rep E" r previous now s] result_or_stale_controls [OF assms(1)]
    by (simp add: store_ok_def)
  show "valid_rep E key rep" if "r' = Ok rep"
    using assms(1,3,4) that by (auto simp: result_or_stale_def prior_ok_def split: res.splits option.splits if_splits)
qed

lemma world_inv_set:
  assumes "world_inv E limits w" and "wd_tasks w i = Some ph" and "store_ok E s" and "phase_ok E ph'"
    and "wc_limits (ld_controls s) = wc_limits (ld_controls (wd_shared w))"
    and "outbound (ld_controls s) + of_bool (phase_permit ph') =
      outbound (ld_controls (wd_shared w)) + of_bool (phase_permit ph)"
    and "leads ph' = leads ph" and "waits ph' = None"
  shows "world_inv E limits (set_task i ph' (w\<lparr>wd_shared := s\<rparr>))"
  using assms unfolding world_inv_def set_task_def
  by (auto intro!: tasks_ok_update permits_ok_update leaders_ok_same)

lemma world_inv_drop:
  assumes "world_inv E limits w"
  shows "world_inv E limits (drop_task i w)"
proof (cases "\<exists>key now previous st. wd_tasks w i = Some (Leading key now previous st)")
  case True
  then obtain key now previous st where i: "wd_tasks w i = Some (Leading key now previous st)" by blast
  let ?s = "if holds_permit st then (wd_shared w)\<lparr>ld_controls := release_permit (ld_controls (wd_shared w))\<rparr> else wd_shared w"
  let ?t = "(wake key None (wd_tasks w))(i := None)"
  have wi: "wake key None (wd_tasks w) i = Some (Leading key now previous st)" using i by (simp add: wake_def)
  have "store_ok E ?s" using assms by (simp add: world_inv_def)
  moreover have "tasks_ok E ?t"
    using assms by (auto simp: world_inv_def intro!: tasks_ok_drop tasks_ok_wake)
  moreover have "permits_ok limits (ld_controls ?s) ?t"
    using assms by (intro permits_ok_update [where c = "ld_controls (wd_shared w)"])
      (auto simp: world_inv_def wi release_permit_def)
  moreover have "leaders_ok ((wd_leaders w)(key := None)) ?t"
    using assms i by (intro leaders_ok_end) (auto simp: world_inv_def)
  ultimately show ?thesis by (simp add: world_inv_def drop_task_def i)
next
  case False
  then have d: "drop_task i w = w\<lparr>wd_tasks := (wd_tasks w)(i := None)\<rparr>"
    by (auto simp: drop_task_def split: option.splits phase.splits)
  have n: "leads ph = None \<and> \<not> phase_permit ph" if "wd_tasks w i = Some ph" for ph
    using False that by (cases ph) auto
  show ?thesis
    using assms n unfolding d world_inv_def
    by (auto intro!: tasks_ok_drop permits_ok_update leaders_ok_drop)
qed

lemma leaders_ok_wait:
  assumes "leaders_ok leaders tasks" and "tasks i = Some (Joining key now previous)" and "leaders key = Some j"
  shows "leaders_ok leaders (tasks(i \<mapsto> Waiting key now previous))"
  using assms by (auto simp: leaders_ok_def)

lemma leaders_ok_lead:
  assumes "leaders_ok leaders tasks" and "tasks i = Some (Joining key now previous)" and "leaders key = None"
  shows "leaders_ok (leaders(key \<mapsto> i)) (tasks(i \<mapsto> Leading key now previous st))"
proof -
  have "leads ph \<noteq> Some key" if "tasks j = Some ph" for j ph
    using assms(1,3) that by (metis leaders_ok_def option.distinct(1))
  with assms show ?thesis by (auto simp: leaders_ok_def)
qed

lemma phase_ok_task: "world_inv E limits w \<Longrightarrow> wd_tasks w i = Some ph \<Longrightarrow> phase_ok E ph"
  by (simp add: world_inv_def tasks_ok_def)

lemma world_inv_conclude:
  assumes "world_inv E limits w" and "wd_tasks w i = Some (Leading key now previous (AtAfter r))"
    and "conclude E ended end_at key r (wd_shared w) = (out, s)"
  shows "world_inv E limits (w\<lparr>wd_shared := s, wd_leaders := (wd_leaders w)(key := None),
    wd_tasks := (wake key (Some out) (wd_tasks w))(i \<mapsto> Got key now previous out)\<rparr>)"
proof -
  let ?t = "(wake key (Some out) (wd_tasks w))(i \<mapsto> Got key now previous out)"
  from phase_ok_task [OF assms(1,2)] have p: "prior_ok E key previous" "stage_ok E key (AtAfter r)" by simp_all
  from assms(1) have "store_ok E (wd_shared w)" by (simp add: world_inv_def)
  from conclude_effect [OF assms(3) this p(2)] have c: "store_ok E s" "ro_result out = r"
    "outbound (ld_controls s) = outbound (ld_controls (wd_shared w))"
    "wc_limits (ld_controls s) = wc_limits (ld_controls (wd_shared w))" by simp_all
  have wi: "wake key (Some out) (wd_tasks w) i = Some (Leading key now previous (AtAfter r))"
    using assms(2) by (simp add: wake_def)
  have "tasks_ok E ?t"
    using assms(1) p c(2) by (intro tasks_ok_update tasks_ok_wake) (auto simp: world_inv_def)
  moreover have "permits_ok limits (ld_controls s) ?t"
    using assms(1) c(3,4) by (intro permits_ok_update [where c = "ld_controls (wd_shared w)"])
      (auto simp: world_inv_def wi)
  moreover have "leaders_ok ((wd_leaders w)(key := None)) ?t"
    using assms(1,2) by (intro leaders_ok_end) (auto simp: world_inv_def)
  ultimately show ?thesis using c(1) by (simp add: world_inv_def)
qed

lemma world_inv_task:
  assumes "world_inv E limits w" and "task_step E i w w'"
  shows "world_inv E limits w'"
  using assms(2)
proof cases
  case (task_look key now ph s)
  have "store_ok E (wd_shared w)" using assms(1) by (simp add: world_inv_def)
  with look_effect [OF task_look(3)] task_look(1) world_inv_set [OF assms(1) task_look(2), of s ph]
  show ?thesis by simp
next
  case (task_consult key now previous inst)
  have "store_ok E (wd_shared w)" "prior_ok E key previous"
    using assms(1) phase_ok_task [OF assms(1) task_consult(2)] by (simp_all add: world_inv_def)
  with consult_effect [OF this, of inst now] assms(1) task_consult
    world_inv_set [OF assms(1) task_consult(2), of "wd_shared w" "consult inst key now previous (wd_shared w)"]
  show ?thesis by simp
next
  case (task_invalidate key now previous)
  let ?s = "(wd_shared w)\<lparr>refreshes := (refreshes (wd_shared w))(key := None)\<rparr>"
  have "store_ok E ?s" using assms(1) by (auto simp: world_inv_def store_ok_def cache_inv_def split: if_splits)
  with phase_ok_task [OF assms(1) task_invalidate(2)]
    world_inv_set [OF assms(1) task_invalidate(2), of ?s "Joining key now previous"] task_invalidate(1)
  show ?thesis by simp
next
  case (task_join_done key now previous out)
  have "store_ok E (wd_shared w)" using assms(1) by (simp add: world_inv_def)
  with phase_ok_task [OF assms(1) task_join_done(2)] task_join_done(1,3)
    world_inv_set [OF assms(1) task_join_done(2), of "wd_shared w" "Got key now previous out"]
  show ?thesis by (auto simp: store_ok_def cache_inv_def)
next
  case (task_join_wait key now previous j)
  with assms(1) phase_ok_task [OF assms(1) task_join_wait(2)] show ?thesis
    by (auto simp: world_inv_def set_task_def intro!: tasks_ok_update permits_ok_update leaders_ok_wait)
next
  case (task_join_lead key now previous)
  with assms(1) phase_ok_task [OF assms(1) task_join_lead(2)] show ?thesis
    by (auto simp: world_inv_def set_task_def cache_event_def [THEN arg_cong [of _ _ ld_controls]]
        intro!: tasks_ok_update permits_ok_update leaders_ok_lead)
next
  case (task_work key now previous st t st' s)
  have "store_ok E (wd_shared w)" using assms(1) by (simp add: world_inv_def)
  with phase_ok_task [OF assms(1) task_work(2)] task_work(4)
    stage_step_ok [of E key st "wd_shared w" previous t]
  have "stage_ok E key st'" "store_ok E s" "prior_ok E key previous"
    by (auto simp: prior_ok_def)
  with stage_step_permit [OF task_work(4)] task_work(1)
    world_inv_set [OF assms(1) task_work(2), of s "Leading key now previous st'"]
  show ?thesis by simp
next
  case (task_conclude key now previous r ended end_at out s)
  then show ?thesis using world_inv_conclude [OF assms(1)] by simp
next
  case (task_panic key now previous)
  then show ?thesis using world_inv_drop [OF assms(1)] by simp
next
  case (task_answer key now previous out r s)
  have g: "store_ok E (wd_shared w)" "prior_ok E key previous" "\<And>rep. ro_result out = Ok rep \<Longrightarrow> valid_rep E key rep"
    using assms(1) phase_ok_task [OF assms(1) task_answer(2)] by (simp_all add: world_inv_def)
  from result_or_stale_ok [OF task_answer(3) g] result_or_stale_controls [OF task_answer(3)] task_answer(1)
    world_inv_set [OF assms(1) task_answer(2), of s "Answered key r"]
  show ?thesis by simp
qed


lemma world_inv_step:
  assumes "world_inv E limits w" and "world_step E w w'"
  shows "world_inv E limits w'"
  using assms(2)
proof cases
  case (world_spawn i key)
  with assms(1) show ?thesis
    by (auto simp: world_inv_def set_task_def intro!: tasks_ok_update permits_ok_update leaders_ok_fresh)
next
  case (world_task i)
  with assms(1) show ?thesis by (rule world_inv_task)
next
  case (world_drop i)
  with assms(1) show ?thesis by (simp add: world_inv_drop)
next
  case (world_evict A B F G H)
  with assms(1) show ?thesis
    by (auto simp: world_inv_def store_ok_def cache_inv_def permits_ok_def evict_def restrict_map_def split: if_splits)
qed

lemma world_inv_init:
  assumes "world_init E limits w"
  shows "world_inv E limits w"
  using assms
proof cases
  case (1 s)
  then have "representations s = Map.empty" "refreshes s = Map.empty" "ld_sent s = []"
    "outbound (ld_controls s) = outbound_fetches limits" "wc_limits (ld_controls s) = limits"
    by (auto simp: ResourceLoader_new_def WorkControls_new_def res_simps)
  with 1 show ?thesis
    by (simp add: world_inv_def store_ok_def cache_inv_def tasks_ok_def permits_ok_def permits_def holding_def leaders_ok_def)
qed

interpretation worlds: invariant_of "world_init E limits" "world_step E" "world_inv E limits"
  for E :: "('a, 'b, 'c) ResourceLoader" and limits
  by unfold_locales (auto intro: world_inv_init world_inv_step)

section \<open>Progress\<close>

text \<open>The steps a stage and a task have left at most.\<close>

fun stage_rank :: "('u, 'p) stage \<Rightarrow> nat" where
  "stage_rank AtCircuit = 8"
| "stage_rank (AtBegin _ _) = 7"
| "stage_rank (AtDns _ _) = 6"
| "stage_rank (AtIp _) = 5"
| "stage_rank (AtHeaders _) = 4"
| "stage_rank (AtHttp _ _) = 3"
| "stage_rank (AtPublish _ _ _) = 2"
| "stage_rank (AtAfter _) = 1"

fun phase_rank :: "('u, 'p) phase \<Rightarrow> nat" where
  "phase_rank (Looking _) = 13"
| "phase_rank (Missed _ _ _) = 12"
| "phase_rank (Expired _ _ _) = 11"
| "phase_rank (Joining _ _ _) = 10"
| "phase_rank (Leading _ _ _ st) = Suc (stage_rank st)"
| "phase_rank (Waiting _ _ _) = 2"
| "phase_rank (Got _ _ _ _) = 1"
| "phase_rank (Answered _ _) = 0"

definition weight :: "('x \<Rightarrow> nat) \<Rightarrow> (nat \<rightharpoonup> 'x) \<Rightarrow> nat" where
  "weight f m = (\<Sum>i\<in>dom m. f (the (m i)))"

definition work_left :: "(nat \<rightharpoonup> ('u, 'p) phase) \<Rightarrow> nat" where
  "work_left tasks = weight phase_rank tasks"

lemma stage_rank_pos: "0 < stage_rank st"
  by (cases st) simp_all

lemma stage_rank_le: "stage_rank st \<le> 8"
  by (cases st) simp_all

lemma phase_rank_le: "phase_rank ph \<le> 13"
  by (cases ph) (auto intro: le_trans [OF stage_rank_le])

lemma stage_rank_next: "(\<And>a. stage_rank (f a) < n) \<Longrightarrow> 1 < n \<Longrightarrow> stage_rank (next_stage r f) < n"
  by (cases r) simp_all

lemma stage_rank_step:
  assumes "\<nexists>r. st = AtAfter r"
  shows "stage_rank (fst (stage_step E now key previous st s)) < stage_rank st"
  using assms by (cases st) (auto simp: case_prod_unfold Let_def intro!: stage_rank_next)

lemma work_left_bound: "finite (dom tasks) \<Longrightarrow> work_left tasks \<le> 13 * card (dom tasks)"
  unfolding work_left_def weight_def using sum_bounded_above [of "dom tasks" "\<lambda>i. phase_rank (the (tasks i))" 13]
  by (simp add: phase_rank_le mult.commute)

text \<open>How the sum over a map changes with one entry.\<close>

lemma weight_remove: "finite (dom m) \<Longrightarrow> m i = Some x \<Longrightarrow> weight f (m(i := None)) + f x = weight f m"
proof -
  assume m: "finite (dom m)" "m i = Some x"
  have "(\<Sum>j\<in>dom m - {i}. f (the ((m(i := None)) j))) = (\<Sum>j\<in>dom m - {i}. f (the (m j)))"
    by (rule sum.cong) auto
  with m show ?thesis by (simp add: weight_def sum.remove [of "dom m" i] domI)
qed

lemma weight_new: "finite (dom m) \<Longrightarrow> m i = None \<Longrightarrow> weight f (m(i \<mapsto> y)) = weight f m + f y"
  using weight_remove [of "m(i \<mapsto> y)" i y f] by (simp add: fun_upd_idem)

lemma weight_update: "finite (dom m) \<Longrightarrow> m i = Some x \<Longrightarrow> weight f (m(i \<mapsto> y)) + f x = weight f m + f y"
  using weight_remove [of m i x f] weight_new [of "m(i := None)" i f y] by simp

lemma work_left_update:
  "finite (dom tasks) \<Longrightarrow> tasks i = Some ph \<Longrightarrow>
   work_left (tasks(i \<mapsto> ph')) + phase_rank ph = work_left tasks + phase_rank ph'"
  unfolding work_left_def by (rule weight_update)

lemma work_left_wake: "work_left (wake key (Some out) tasks) \<le> work_left tasks"
  unfolding work_left_def weight_def wake_dom
proof (rule sum_mono)
  fix i
  assume "i \<in> dom tasks"
  then obtain ph where "tasks i = Some ph" by blast
  then show "phase_rank (the (wake key (Some out) tasks i)) \<le> phase_rank (the (tasks i))"
    by (cases ph) (simp_all add: wake_def)
qed

text \<open>With total parameters and validated limits no computation panics.\<close>

definition calm :: "(nat \<rightharpoonup> ('u, 'p) phase) \<Rightarrow> bool" where
  "calm tasks \<longleftrightarrow> (\<forall>i key now previous. tasks i \<noteq> Some (Leading key now previous (AtAfter Panic)))"

lemma next_stage_Panic:
  "next_stage r f = AtAfter Panic \<longleftrightarrow> r = Panic \<or> (\<exists>a. r = Ok a \<and> f a = AtAfter Panic)"
  by (cases r) simp_all

lemma select_address_not_Panic:
  assumes "total_env E"
  shows "select_address E now host port \<noteq> Panic"
  using assms destination.check_Ok [of "rl_ipnet E"] destination.check_total [of "rl_ipnet E"]
  by (auto simp: select_address_def total_env_def res_simps map_err_Panic map_err_Ok split: list.splits)

lemma stage_step_not_Panic:
  assumes "total_env E" and "Limits_validate (wc_limits (ld_controls s)) = Ok ()" and "st \<noteq> AtAfter Panic"
  shows "fst (stage_step E now key previous st s) \<noteq> AtAfter Panic"
proof (cases st)
  case AtCircuit
  have "refresh_target E key \<noteq> Panic"
    by (auto simp: refresh_target_def res_simps map_err_Panic validate_url_def ok_or_def Let_def split: option.splits)
  with check_circuit_not_Panic [of now key "ld_controls s"] AtCircuit show ?thesis
    by (auto simp: on_controls_def case_prod_unfold Let_def next_stage_Panic)
next
  case (AtBegin host port)
  with begin_fetch_not_Panic [OF assms(2)] show ?thesis
    by (auto simp: on_controls_def case_prod_unfold Let_def next_stage_Panic)
next
  case (AtDns host port)
  with select_address_not_Panic [OF assms(1)] show ?thesis by (auto simp: next_stage_Panic)
next
  case (AtIp ip)
  with check_ip_not_Panic [OF assms(2)] show ?thesis
    by (auto simp: on_controls_def case_prod_unfold Let_def next_stage_Panic)
next
  case (AtHeaders ip)
  then show ?thesis by (auto simp: next_stage_Panic)
next
  case (AtHttp q request)
  with assms(1) show ?thesis by (auto simp: Let_def total_env_def next_stage_Panic)
next
  case (AtPublish q request response)
  then show ?thesis by (auto simp: Let_def)
next
  case (AtAfter r)
  with assms(3) show ?thesis by simp
qed

lemma calm_update: "calm tasks \<Longrightarrow> (\<And>key now previous. ph \<noteq> Leading key now previous (AtAfter Panic)) \<Longrightarrow> calm (tasks(i \<mapsto> ph))"
  by (simp add: calm_def)

lemma calm_drop: "calm tasks \<Longrightarrow> calm (tasks(i := None))"
  by (simp add: calm_def)

lemma calm_wake: "calm tasks \<Longrightarrow> calm (wake key outcome tasks)"
  unfolding calm_def by (auto dest!: wake_Some split: option.splits)

lemma look_calm: "fst (look E now key s) \<noteq> Leading k t previous st"
  by (auto simp: look_def split: res.splits option.splits)

lemma consult_calm: "consult inst key now previous s \<noteq> Leading k t old st"
  by (auto simp: consult_def split: option.splits)

lemma calm_drop_task: "calm (wd_tasks w) \<Longrightarrow> calm (wd_tasks (drop_task i w))"
  by (auto simp: drop_task_def intro!: calm_drop calm_wake split: option.splits phase.splits)

lemma calm_task:
  assumes "total_env E" and "Limits_validate limits = Ok ()" and "world_inv E limits w" and "calm (wd_tasks w)"
    and "task_step E i w w'"
  shows "calm (wd_tasks w')"
  using assms(5)
proof cases
  case (task_look key now ph s)
  with assms(4) look_calm [of E now key "wd_shared w"] show ?thesis
    by (auto simp: set_task_def intro!: calm_update)
next
  case (task_work key now previous st t st' s)
  have "Limits_validate (wc_limits (ld_controls (wd_shared w))) = Ok ()"
    using assms(2,3) by (simp add: world_inv_def permits_ok_def)
  from stage_step_not_Panic [OF assms(1) this, of st t key previous] task_work assms(4) show ?thesis
    by (auto simp: set_task_def intro!: calm_update)
qed (use assms(4) in \<open>auto simp: set_task_def consult_calm intro!: calm_update calm_wake calm_drop_task\<close>)

lemma calm_step:
  assumes "total_env E" and "Limits_validate limits = Ok ()" and "world_inv E limits w" and "calm (wd_tasks w)"
    and "world_step E w w'"
  shows "calm (wd_tasks w')"
  using assms(5)
proof cases
  case (world_task i)
  with assms(1-4) show ?thesis by (rule calm_task)
qed (use assms(4) in \<open>auto simp: set_task_def intro!: calm_update calm_drop_task\<close>)

lemma calm_reachable:
  assumes "total_env E" and "Limits_validate limits = Ok ()" and "reachable (world_init E limits) (world_step E) w"
  shows "calm (wd_tasks w)"
  using assms(3)
proof induction
  case (reachable_init w)
  then show ?case by (auto simp: calm_def elim: world_init.cases)
next
  case (reachable_step w w')
  with calm_step [OF assms(1,2) worlds.inv_reachable] show ?case by blast
qed

text \<open>Every step of a task uses up some of the work that is left.\<close>

lemma task_step_work:
  assumes "finite (dom (wd_tasks w))" and "calm (wd_tasks w)" and "task_step E i w w'"
  shows "work_left (wd_tasks w') < work_left (wd_tasks w) \<and> dom (wd_tasks w') = dom (wd_tasks w)"
proof -
  have u: "work_left ((wd_tasks w)(i \<mapsto> ph')) < work_left (wd_tasks w) \<and> insert i (dom (wd_tasks w)) = dom (wd_tasks w)"
    if "wd_tasks w i = Some ph" "phase_rank ph' < phase_rank ph" for ph ph'
    using that work_left_update [OF assms(1) that(1), of ph'] by auto
  from assms(3) show ?thesis
  proof cases
    case (task_look key now ph s)
    then have "phase_rank ph < 13" by (auto simp: look_def split: res.splits option.splits if_splits)
    with u task_look show ?thesis by (simp add: set_task_def)
  next
    case (task_consult key now previous inst)
    have "phase_rank (consult inst key now previous (wd_shared w)) < 12"
      by (auto simp: consult_def split: option.splits)
    with u task_consult show ?thesis by (simp add: set_task_def)
  next
    case (task_work key now previous st t st' s)
    then have "stage_rank st' < stage_rank st" using stage_rank_step [of st E t key previous "wd_shared w"] by simp
    with u [OF task_work(2), of "Leading key now previous st'"] task_work(1) show ?thesis by (simp add: set_task_def)
  next
    case (task_conclude key now previous r ended end_at out s)
    let ?t = "wake key (Some out) (wd_tasks w)"
    have i: "?t i = Some (Leading key now previous (AtAfter r))" using task_conclude(2) by (simp add: wake_def)
    then have "i \<in> dom (wd_tasks w)" using task_conclude(2) by blast
    with work_left_update [of ?t i, OF _ i, of "Got key now previous out"] assms(1)
      work_left_wake [of key out "wd_tasks w"] task_conclude(1)
    show ?thesis by auto
  next
    case (task_panic key now previous)
    with assms(2) show ?thesis by (simp add: calm_def)
  next
    case (task_answer key now previous out r s)
    with u [OF task_answer(2), of "Answered key r"] show ?thesis by (simp add: set_task_def)
  next
    case (task_invalidate key now previous)
    with u [OF task_invalidate(2), of "Joining key now previous"] show ?thesis by (simp add: set_task_def)
  next
    case (task_join_done key now previous out)
    with u [OF task_join_done(2), of "Got key now previous out"] show ?thesis by (simp add: set_task_def)
  next
    case (task_join_wait key now previous j)
    with u [OF task_join_wait(2), of "Waiting key now previous"] show ?thesis by (simp add: set_task_def)
  next
    case (task_join_lead key now previous)
    with u [OF task_join_lead(2), of "Leading key now previous AtCircuit"] show ?thesis by (simp add: set_task_def)
  qed
qed

text \<open>Some task's step, and the progress every waiting task is promised.\<close>

definition some_step :: "('u, 'p, 'l) ResourceLoader \<Rightarrow> ('u, 'p, 'l) world \<Rightarrow> ('u, 'p, 'l) world \<Rightarrow> bool" where
  "some_step E w w' \<longleftrightarrow> (\<exists>i. task_step E i w w')"

lemma leading_steps:
  assumes "wd_tasks w i = Some (Leading key now previous st)"
  shows "\<exists>w'. task_step E i w w'"
proof (cases "\<exists>r. st = AtAfter r")
  case True
  then obtain r where r: "st = AtAfter r" by blast
  show ?thesis
  proof (cases "r = Panic")
    case True
    with r assms show ?thesis using task_panic [of w i key now previous E] by blast
  next
    case False
    obtain out s where "conclude E 0 0 key r (wd_shared w) = (out, s)" by fastforce
    with False r assms show ?thesis using task_conclude [of w i key now previous r E] by blast
  qed
next
  case False
  obtain st' s where "stage_step E 0 key previous st (wd_shared w) = (st', s)" by fastforce
  with False assms show ?thesis using task_work [of w i key now previous st E] by blast
qed

lemma unanswered_steps:
  assumes "leaders_ok (wd_leaders w) (wd_tasks w)" and "wd_tasks w i = Some ph" and "\<nexists>key r. ph = Answered key r"
  shows "\<exists>w'. some_step E w w'"
proof -
  have "\<exists>j w'. task_step E j w w'"
  proof (cases ph)
    case (Looking key)
    obtain ph' s where "look E 0 key (wd_shared w) = (ph', s)" by fastforce
    with Looking assms(2) show ?thesis using task_look [of w i key E] by blast
  next
    case (Missed key now previous)
    with assms(2) show ?thesis using task_consult [of w i key now previous E] by blast
  next
    case (Expired key now previous)
    with assms(2) show ?thesis using task_invalidate [of w i key now previous E] by blast
  next
    case (Joining key now previous)
    with assms(2) show ?thesis
      using task_join_done [of w i key now previous _ E] task_join_wait [of w i key now previous _ E]
        task_join_lead [of w i key now previous E]
      by (cases "refreshes (wd_shared w) key"; cases "wd_leaders w key") blast+
  next
    case (Waiting key now previous)
    with assms(1,2) have "wd_leaders w key \<noteq> None" unfolding leaders_ok_def by (metis waits.simps(1))
    then obtain j where "wd_leaders w key = Some j" by blast
    with assms(1) obtain ph' where "wd_tasks w j = Some ph'" "leads ph' = Some key" unfolding leaders_ok_def by blast
    then obtain t old st where "wd_tasks w j = Some (Leading key t old st)" by (cases ph') auto
    then show ?thesis using leading_steps by blast
  next
    case (Leading key now previous st)
    with assms(2) show ?thesis using leading_steps by blast
  next
    case (Got key now previous out)
    obtain r s where "result_or_stale (ro_result out) previous now (wd_shared w) = (r, s)" by fastforce
    from task_answer [OF _ this] Got assms(2) show ?thesis by blast
  next
    case (Answered key r)
    with assms(3) show ?thesis by blast
  qed
  then show ?thesis by (auto simp: some_step_def)
qed

lemma some_step_runs:
  assumes "total_env E" and "Limits_validate limits = Ok ()"
  shows "(some_step E ^^ n) w w' \<Longrightarrow> world_inv E limits w \<Longrightarrow> calm (wd_tasks w) \<Longrightarrow>
    world_inv E limits w' \<and> calm (wd_tasks w') \<and> work_left (wd_tasks w') + n \<le> work_left (wd_tasks w) \<and>
    dom (wd_tasks w') = dom (wd_tasks w)"
proof (induction n arbitrary: w')
  case (Suc n)
  then obtain v where v: "(some_step E ^^ n) w v" "some_step E v w'" by auto
  then obtain i where i: "task_step E i v w'" by (auto simp: some_step_def)
  from Suc.IH [OF v(1) Suc.prems(2,3)] have h: "world_inv E limits v" "calm (wd_tasks v)"
    "work_left (wd_tasks v) + n \<le> work_left (wd_tasks w)" "dom (wd_tasks v) = dom (wd_tasks w)" by simp_all
  have "finite (dom (wd_tasks v))" using h(1) by (simp add: world_inv_def permits_ok_def)
  from task_step_work [OF this h(2) i] world_inv_task [OF h(1) i] calm_task [OF assms h(1,2) i] h(3,4)
  show ?case by simp
qed simp

section \<open>A load on its own\<close>

text \<open>The world in which one task runs.\<close>

definition alone :: "nat \<Rightarrow> ('u, 'p) phase \<Rightarrow> ('u, 'p, 'l) Loader_state \<Rightarrow> ('u, 'p, 'l) world" where
  "alone i ph s =
     \<lparr>wd_shared = s, wd_leaders = (case leads ph of Some key \<Rightarrow> [key \<mapsto> i] | None \<Rightarrow> Map.empty),
      wd_tasks = [i \<mapsto> ph]\<rparr>"

lemma alone_set: "leads ph = leads ph' \<Longrightarrow> set_task i ph' ((alone i ph s)\<lparr>wd_shared := t\<rparr>) = alone i ph' t"
  by (simp add: alone_def set_task_def)

lemma alone_stages:
  "run_stages E clocks key previous (st, s) = (st', t) \<Longrightarrow>
   (task_step E i)\<^sup>*\<^sup>* (alone i (Leading key now previous st) s) (alone i (Leading key now previous st') t)"
proof (induction clocks arbitrary: st s)
  case (Cons clock clocks)
  obtain st1 s1 where one: "stage_step E clock key previous st s = (st1, s1)" by fastforce
  with Cons.prems have "run_stages E clocks key previous (st1, s1) = (st', t)" by (simp add: run_stages_cons)
  from Cons.IH [OF this] have rest:
    "(task_step E i)\<^sup>*\<^sup>* (alone i (Leading key now previous st1) s1) (alone i (Leading key now previous st') t)" .
  show ?case
  proof (cases "\<exists>r. st = AtAfter r")
    case True
    with one have "st1 = st" "s1 = s" by auto
    with rest show ?thesis by simp
  next
    case False
    have "task_step E i (alone i (Leading key now previous st) s)
        (set_task i (Leading key now previous st1) ((alone i (Leading key now previous st) s)\<lparr>wd_shared := s1\<rparr>))"
      using task_work [OF _ False, of "alone i (Leading key now previous st) s" i key now previous E clock st1 s1] one
      by (simp add: alone_def)
    with rest show ?thesis by (simp add: alone_set converse_rtranclp_into_rtranclp)
  qed
qed simp

lemma alone_leads:
  assumes "refresh_inner E T key previous (cache_event ''refresh'' s) = (r, u)" and "r \<noteq> Panic"
    and "refreshes s key = None" and "refresh E T key previous s = (out, v)"
    and "result_or_stale r previous now (v\<lparr>refreshes := (refreshes v)(key \<mapsto> out)\<rparr>) = (a, t)"
  shows "(task_step E i)\<^sup>*\<^sup>* (alone i (Joining key now previous) s) (alone i (Answered key a) t)"
proof -
  let ?L = "\<lambda>st. alone i (Leading key now previous st)"
  have lead: "task_step E i (alone i (Joining key now previous) s) (?L AtCircuit (cache_event ''refresh'' s))"
    using task_join_lead [of "alone i (Joining key now previous) s" i key now previous E] assms(3)
    by (simp add: alone_def set_task_def)
  have run: "(task_step E i)\<^sup>*\<^sup>* (?L AtCircuit (cache_event ''refresh'' s)) (?L (AtAfter r) u)"
    by (rule alone_stages [where clocks = "stage_times T"]) (simp add: run_stages_refresh_inner assms(1))
  have c: "conclude E (t_after T) (t_end T) key r u = (out, v\<lparr>refreshes := (refreshes v)(key \<mapsto> out)\<rparr>)"
    using assms(1,4) by (auto simp: conclude_def refresh_def case_prod_unfold Let_def)
  have out: "ro_result out = r" using assms(1,4) by (auto simp: refresh_unfold)
  have w: "wake key (Some out) [i \<mapsto> Leading key now previous (AtAfter r)] = [i \<mapsto> Leading key now previous (AtAfter r)]"
    by (auto simp: wake_def)
  have "task_step E i (?L (AtAfter r) u)
      (alone i (Got key now previous out) (v\<lparr>refreshes := (refreshes v)(key \<mapsto> out)\<rparr>))"
    using task_conclude [of "?L (AtAfter r) u" i key now previous r E "t_after T" "t_end T", OF _ assms(2)]
      c by (simp add: alone_def w)
  moreover have "task_step E i (alone i (Got key now previous out) (v\<lparr>refreshes := (refreshes v)(key \<mapsto> out)\<rparr>))
      (alone i (Answered key a) t)"
    using task_answer [of "alone i (Got key now previous out) (v\<lparr>refreshes := (refreshes v)(key \<mapsto> out)\<rparr>)" i] assms(5) out
    by (simp add: alone_def set_task_def)
  ultimately show ?thesis using lead run by (meson converse_rtranclp_into_rtranclp rtranclp.rtrancl_into_rtrancl)
qed

text \<open>From the miss on: the recorded outcome, or a refresh of its own.\<close>

lemma alone_refreshes:
  assumes "total_env E" and "Limits_validate (wc_limits (ld_controls s)) = Ok ()"
    and "load_refresh (refresh E T) now inst key previous s = (r, t)"
  shows "(task_step E i)\<^sup>*\<^sup>* (alone i (consult inst key now previous s) s) (alone i (Answered key r) t)"
proof -
  let ?s = "refresh_start key s"
  obtain a u where ri: "refresh_inner E T key previous (cache_event ''refresh'' ?s) = (a, u)" by fastforce
  have "wc_limits (ld_controls (cache_event ''refresh'' ?s)) = wc_limits (ld_controls s)"
    by (simp add: refresh_start_def cache_event_def)
  with refresh_inner_panic_free [OF assms(1,2), of T key previous] ri have "a \<noteq> Panic"
    unfolding panic_free_def by (metis fst_conv)
  obtain out v where rf: "refresh E T key previous ?s = (out, v)" by fastforce
  have o: "ro_result out = a" using ri rf by (auto simp: refresh_unfold)
  have lead: "(task_step E i)\<^sup>*\<^sup>* (alone i (Joining key now previous) ?s) (alone i (Answered key r) t)"
    if "result_or_stale a previous now (v\<lparr>refreshes := (refreshes v)(key \<mapsto> out)\<rparr>) = (r, t)"
    using alone_leads [OF ri \<open>a \<noteq> Panic\<close> _ rf that] by (simp add: refresh_start_def)
  consider (recorded) old where "refreshes s key = Some old" "ro_valid_until old > inst"
    | (expired) old where "refreshes s key = Some old" "\<not> ro_valid_until old > inst"
    | (none) "refreshes s key = None" by (cases "refreshes s key") blast+
  then show ?thesis
  proof cases
    case (recorded old)
    with assms(3) task_answer [of "alone i (Got key now previous old) s" i key now previous old r t E]
    show ?thesis by (auto simp: load_refresh_eq consult_def alone_def set_task_def)
  next
    case (expired old)
    have "task_step E i (alone i (Expired key now previous) s) (alone i (Joining key now previous) ?s)"
      using task_invalidate [of "alone i (Expired key now previous) s" i key now previous E] expired
      by (simp add: alone_def set_task_def refresh_start_def)
    with lead assms(3) expired rf o show ?thesis
      by (simp add: load_refresh_eq consult_def converse_rtranclp_into_rtranclp)
  next
    case none
    with lead assms(3) rf o show ?thesis by (simp add: load_refresh_eq consult_def refresh_start_def)
  qed
qed

lemma alone_load:
  assumes "total_env E" and "Limits_validate (wc_limits (ld_controls s)) = Ok ()" and "load E T now inst key s = (r, t)"
  shows "(task_step E i)\<^sup>*\<^sup>* (alone i (Looking key) s) (alone i (Answered key r) t)"
proof -
  obtain ph s1 where l: "look E now key s = (ph, s1)" by fastforce
  have "leads ph = None" using l by (auto simp: look_def split: res.splits option.splits if_splits)
  then have look: "task_step E i (alone i (Looking key) s) (alone i ph s1)"
    using task_look [of "alone i (Looking key) s" i key E now ph s1] l by (simp add: alone_def set_task_def)
  have "alone i ph s1 = alone i (Answered key r) t \<or>
    (ph = Missed key now (representations s key) \<and> s1 = s \<and>
     load_refresh (refresh E T) now inst key (representations s key) s = (r, t))"
    using l assms(3) by (auto simp: look_def load_def CacheStore_load_def split: res.splits option.splits if_splits)
  then show ?thesis
  proof
    assume "alone i ph s1 = alone i (Answered key r) t"
    with look show ?thesis by auto
  next
    let ?p = "representations s key"
    assume m: "ph = Missed key now ?p \<and> s1 = s \<and> load_refresh (refresh E T) now inst key ?p s = (r, t)"
    have "task_step E i (alone i ph s1) (alone i (consult inst key now ?p s) s)"
      using task_consult [of "alone i ph s1" i key now ?p E inst] m
      by (auto simp: alone_def set_task_def consult_def split: option.splits)
    with look alone_refreshes [OF assms(1,2)] m show ?thesis
      by (meson converse_rtranclp_into_rtranclp)
  qed
qed

section \<open>A world over the fixture transport\<close>

lemma fixture_world:
  "reachable (world_init fixture_env Limits_default) (world_step fixture_env) (alone 0 (Looking (fixture_key p)) fixture_start)"
proof -
  let ?w = "\<lparr>wd_shared = fixture_start, wd_leaders = Map.empty, wd_tasks = Map.empty\<rparr>"
  have "world_init fixture_env Limits_default ?w"
    using fixture_start_reachable
    by (intro world_init.intros)
      (simp add: ResourceLoader_new_def WorkControls_new_def fixture_env_def fixture_start_def limiter_def
        open_limiter_def Limits_default_def)
  then have "reachable (world_init fixture_env Limits_default) (world_step fixture_env) ?w" by (rule reachable_init)
  moreover have "world_step fixture_env ?w (alone 0 (Looking (fixture_key p)) fixture_start)"
    using world_spawn [of ?w 0 fixture_env "fixture_key p"] by (simp add: alone_def set_task_def)
  ultimately show ?thesis by (rule reachable_step)
qed

lemma reachable_tasks:
  assumes "reachable init (world_step E) w" and "(task_step E i)\<^sup>*\<^sup>* w w'"
  shows "reachable init (world_step E) w'"
  using assms(2,1)
  by (induction rule: rtranclp_induct) (auto intro: reachable_step world_task)

text \<open>One task leads the refresh of a key, another one waits for it.\<close>

definition fixture_pair :: "(plain_url, nat, unit) world" where
  "fixture_pair =
     (let key = fixture_key ''/jwks'' in
      \<lparr>wd_shared = cache_event ''refresh'' fixture_start, wd_leaders = [key \<mapsto> 0],
       wd_tasks = [0 \<mapsto> Leading key 0 None AtCircuit, 1 \<mapsto> Waiting key 0 None]\<rparr>)"

lemma fixture_pair_reachable:
  "reachable (world_init fixture_env Limits_default) (world_step fixture_env) fixture_pair"
proof -
  let ?k = "fixture_key ''/jwks''"
  let ?R = "reachable (world_init fixture_env Limits_default) (world_step fixture_env)"
  let ?W = "\<lambda>l s p0 p1. \<lparr>wd_shared = s, wd_leaders = l, wd_tasks = [0 \<mapsto> p0, 1 \<mapsto> p1]\<rparr> :: (plain_url, nat, unit) world"
  let ?s = "cache_event ''refresh'' fixture_start"
  have step: "?R w \<Longrightarrow> task_step fixture_env i w w' \<Longrightarrow> ?R w'" for w w' i
    by (erule reachable_step) (rule world_task)
  have look: "look fixture_env 0 ?k s = (Missed ?k 0 None, s)" if "representations s ?k = None" for s
    using that by (simp add: look_def cache_request_def hour_policy_def)
  have "?R (alone 0 (Looking ?k) fixture_start)" by (rule fixture_world)
  from step [OF this] have "?R (alone 0 (Missed ?k 0 None) fixture_start)"
    using task_look [of "alone 0 (Looking ?k) fixture_start" 0 ?k fixture_env 0]
    by (simp add: alone_def set_task_def look)
  from step [OF this] have "?R (alone 0 (Joining ?k 0 None) fixture_start)"
    using task_consult [of "alone 0 (Missed ?k 0 None) fixture_start" 0 ?k 0 None fixture_env 0]
    by (simp add: alone_def set_task_def consult_def)
  from step [OF this] have "?R (alone 0 (Leading ?k 0 None AtCircuit) ?s)"
    using task_join_lead [of "alone 0 (Joining ?k 0 None) fixture_start" 0 ?k 0 None fixture_env]
    by (simp add: alone_def set_task_def)
  from reachable_step [OF this] have "?R (?W [?k \<mapsto> 0] ?s (Leading ?k 0 None AtCircuit) (Looking ?k))"
    using world_spawn [of "alone 0 (Leading ?k 0 None AtCircuit) ?s" 1 fixture_env ?k]
    by (simp add: alone_def set_task_def)
  from step [OF this] have "?R (?W [?k \<mapsto> 0] ?s (Leading ?k 0 None AtCircuit) (Missed ?k 0 None))"
    using task_look [of "?W [?k \<mapsto> 0] ?s (Leading ?k 0 None AtCircuit) (Looking ?k)" 1 ?k fixture_env 0]
    by (simp add: set_task_def look cache_event_def)
  from step [OF this] have "?R (?W [?k \<mapsto> 0] ?s (Leading ?k 0 None AtCircuit) (Joining ?k 0 None))"
    using task_consult [of "?W [?k \<mapsto> 0] ?s (Leading ?k 0 None AtCircuit) (Missed ?k 0 None)" 1 ?k 0 None fixture_env 0]
    by (simp add: set_task_def consult_def cache_event_def)
  from step [OF this] have "?R (?W [?k \<mapsto> 0] ?s (Leading ?k 0 None AtCircuit) (Waiting ?k 0 None))"
    using task_join_wait [of "?W [?k \<mapsto> 0] ?s (Leading ?k 0 None AtCircuit) (Joining ?k 0 None)" 1 ?k 0 None 0 fixture_env]
    by (simp add: set_task_def cache_event_def)
  then show ?thesis by (simp add: fixture_pair_def Let_def)
qed

section \<open>Properties\<close>

text \<open>
  C4. Concurrent loads share their refreshes: under any interleaving of any number of loads, with loads dropped
  at any await point and cache entries lost at any time, each key is refreshed by at most one load at a time,
  a load that waits waits for such a refresh, and the free fetch permits and the loads that hold one
  always make up the configured number.
\<close>

theorem loads_coalesce:
  assumes "reachable (world_init E limits) (world_step E) w"
  shows "(\<forall>i j key t t' old old' st st'.
        wd_tasks w i = Some (Leading key t old st) \<and> wd_tasks w j = Some (Leading key t' old' st') \<longrightarrow> i = j) \<and>
    (\<forall>i key t old. wd_tasks w i = Some (Waiting key t old) \<longrightarrow>
        (\<exists>j t' old' st. wd_tasks w j = Some (Leading key t' old' st))) \<and>
    outbound (ld_controls (wd_shared w)) +
      card {i. \<exists>key t old st. wd_tasks w i = Some (Leading key t old st) \<and> holds_permit st} = outbound_fetches limits"
proof -
  have inv: "leaders_ok (wd_leaders w) (wd_tasks w)" "permits_ok limits (ld_controls (wd_shared w)) (wd_tasks w)"
    using worlds.inv_reachable [OF assms] by (simp_all add: world_inv_def)
  have lead: "wd_leaders w key = Some i \<longleftrightarrow> (\<exists>t old st. wd_tasks w i = Some (Leading key t old st))" for key i
  proof -
    have "leads ph = Some key \<longleftrightarrow> (\<exists>t old st. ph = Leading key t old st)" for ph :: "('a, 'b) phase"
      by (cases ph) auto
    with inv(1) show ?thesis by (auto simp: leaders_ok_def)
  qed
  have "wd_leaders w key \<noteq> None" if "wd_tasks w i = Some (Waiting key t old)" for i key t old
    using inv(1) that unfolding leaders_ok_def by (metis waits.simps(1))
  with lead have waiting: "\<exists>j t' old' st. wd_tasks w j = Some (Leading key t' old' st)"
    if "wd_tasks w i = Some (Waiting key t old)" for i key t old
    using that by (metis not_None_eq)
  have "phase_permit ph \<longleftrightarrow> (\<exists>key t old st. ph = Leading key t old st \<and> holds_permit st)" for ph :: "('a, 'b) phase"
    by (cases ph) auto
  then have "permits (wd_tasks w) = {i. \<exists>key t old st. wd_tasks w i = Some (Leading key t old st) \<and> holds_permit st}"
    by (auto simp: permits_def holding_def)
  with inv(2) lead waiting show ?thesis
    by (auto simp: permits_ok_def) (metis option.inject)
qed

text \<open>
  C5. Requests and answers of concurrent loads are right under any interleaving, with loads dropped at any await
  point and cache entries lost at any time: every request handed to the HTTP client has an \<open>https\<close> URL with
  an allowed port and is pinned to an address of a DNS answer for its host and port in which every address
  is globally reachable; every representation a load answers with was parsed from the body of a response to
  such a request for the URL the load was asked for.
\<close>

theorem concurrent_loads_safe:
  assumes "reachable (world_init E limits) (world_step E) w"
  shows "list_all (\<lambda>q. url_scheme (rl_urls E) (fr_url q) = ''https'' \<and>
        (\<exists>t host port answer.
           url_host_str (rl_urls E) (fr_url q) = Some host \<and>
           url_port_or_known_default (rl_urls E) (fr_url q) = Some port \<and>
           port \<in> allowed_ports (rl_destination E) \<and> rl_dns E t host port = Ok answer \<and>
           fr_selected_ip q \<in> set answer \<and> list_all (globally_reachable (rl_ipnet E)) answer))
      (ld_sent (wd_shared w)) \<and>
    (\<forall>i key rep. wd_tasks w i = Some (Answered key (Ok rep)) \<longrightarrow>
       (\<exists>t q response. safe_request E q \<and> fr_url q = rk_url key \<and> rl_http E t q = Ok response \<and>
          parse_resource (rl_urls E) (dec_crypto (rl_decode E)) (dec_json (rl_decode E)) (rk_kind key) (rk_url key)
            (resp_body response) (rl_max_keys E) = Ok (rep_resource rep)))"
proof -
  have i: "world_inv E limits w" using worlds.inv_reachable [OF assms] .
  have "list_all (safe_request E) (ld_sent (wd_shared w))" using i by (simp add: world_inv_def store_ok_def)
  then have "list_all (\<lambda>q. url_scheme (rl_urls E) (fr_url q) = ''https'' \<and>
        (\<exists>t host port answer.
           url_host_str (rl_urls E) (fr_url q) = Some host \<and>
           url_port_or_known_default (rl_urls E) (fr_url q) = Some port \<and>
           port \<in> allowed_ports (rl_destination E) \<and> rl_dns E t host port = Ok answer \<and>
           fr_selected_ip q \<in> set answer \<and> list_all (globally_reachable (rl_ipnet E)) answer))
      (ld_sent (wd_shared w))"
    by (rule list.pred_mono_strong) (auto simp: safe_request_def validate_url_def split: if_splits option.splits)
  moreover have "valid_rep E key rep" if "wd_tasks w i = Some (Answered key (Ok rep))" for i key rep
    using phase_ok_task [OF i that] by simp
  ultimately show ?thesis by (auto simp: valid_rep_def fetched_def)
qed

text \<open>
  Every load ends: with validated limits and parameters that return, in any reachable state with any number
  of loads at any point, the loads take together at most thirteen steps each, in whatever order they are
  scheduled, and they only stop when every one of them has its answer. So no load waits forever for a refresh,
  starves or deadlocks as long as the tasks are scheduled.
\<close>

lemma loads_terminate:
  assumes "total_env E" and "Limits_validate limits = Ok ()"
    and "reachable (world_init E limits) (world_step E) w"
    and "((\<lambda>w w'. \<exists>i. task_step E i w w') ^^ n) w w'"
  shows "n \<le> 13 * card (dom (wd_tasks w)) \<and> dom (wd_tasks w') = dom (wd_tasks w) \<and>
    ((\<exists>i w''. task_step E i w' w'') \<or> (\<forall>i ph. wd_tasks w' i = Some ph \<longrightarrow> (\<exists>key r. ph = Answered key r)))"
proof -
  have s: "(\<lambda>w w'. \<exists>i. task_step E i w w') = some_step E" by (intro ext) (simp add: some_step_def)
  have i: "world_inv E limits w" using worlds.inv_reachable [OF assms(3)] .
  from some_step_runs [OF assms(1,2) assms(4) [unfolded s] i calm_reachable [OF assms(1-3)]]
  have r: "world_inv E limits w'" "work_left (wd_tasks w') + n \<le> work_left (wd_tasks w)"
    "dom (wd_tasks w') = dom (wd_tasks w)" by simp_all
  have "work_left (wd_tasks w) \<le> 13 * card (dom (wd_tasks w))"
    using i by (intro work_left_bound) (simp add: world_inv_def permits_ok_def)
  moreover have "\<exists>key r. ph = Answered key r" if "wd_tasks w' j = Some ph" "\<nexists>i w''. task_step E i w' w''" for j ph
    using unanswered_steps [of w' j ph E] r(1) that unfolding some_step_def world_inv_def by blast
  ultimately show ?thesis using r by auto
qed

text \<open>
  The sequential loader is one schedule of the concurrent one: with validated limits and parameters that
  return, a task that runs alone reaches, by its own steps, exactly the answer and the state that
  the whole of \<open>load\<close> computes for the same clock readings.
\<close>

lemma load_is_a_schedule:
  assumes "total_env E" and "Limits_validate (wc_limits (ld_controls s)) = Ok ()" and "load E T now inst key s = (r, t)"
  shows "(task_step E i)\<^sup>*\<^sup>*
     \<lparr>wd_shared = s, wd_leaders = Map.empty, wd_tasks = [i \<mapsto> Looking key]\<rparr>
     \<lparr>wd_shared = t, wd_leaders = Map.empty, wd_tasks = [i \<mapsto> Answered key r]\<rparr>"
  using alone_load [OF assms, of i] by (simp add: alone_def)

theorem loads_coalesce_witness:
  "\<exists>t old st. wd_tasks fixture_pair 0 = Some (Leading (fixture_key ''/jwks'') t old st) \<and>
     outbound (ld_controls (wd_shared fixture_pair)) +
       card {i. \<exists>key t old st. wd_tasks fixture_pair i = Some (Leading key t old st) \<and> holds_permit st} = 32"
proof -
  have "wd_tasks fixture_pair 1 = Some (Waiting (fixture_key ''/jwks'') 0 None)" by (simp add: fixture_pair_def Let_def)
  with loads_coalesce [OF fixture_pair_reachable]
  obtain j t old st where "wd_tasks fixture_pair j = Some (Leading (fixture_key ''/jwks'') t old st)" by blast
  moreover from this have "j = 0" by (auto simp: fixture_pair_def Let_def split: if_splits)
  moreover have "outbound (ld_controls (wd_shared fixture_pair)) +
       card {i. \<exists>key t old st. wd_tasks fixture_pair i = Some (Leading key t old st) \<and> holds_permit st} = outbound_fetches Limits_default"
    using loads_coalesce [OF fixture_pair_reachable] by blast
  ultimately show ?thesis by (auto simp: Limits_default_def)
qed

theorem concurrent_loads_safe_witness:
  "\<exists>(w :: (plain_url, nat, unit) world) i rep. wd_tasks w i = Some (Answered (fixture_key ''/jwks'') (Ok rep)) \<and> rep_resource rep = sample_keys \<and>
     ld_sent (wd_shared w) = [fixture_request ''/jwks''] \<and>
     (\<exists>host port answer. url_host_str plain_url_api (fr_url (fixture_request ''/jwks'')) = Some host \<and>
        fixture_resolve host port = Ok answer \<and> fr_selected_ip (fixture_request ''/jwks'') \<in> set answer)"
proof -
  let ?k = "fixture_key ''/jwks''"
  obtain rep t where l: "load fixture_env fixture_times 0 0 ?k fixture_start = (Ok rep, t)"
    "rep_resource rep = sample_keys" "ld_sent t = [fixture_request ''/jwks'']"
    using fixture_load by blast
  have "(task_step fixture_env 0)\<^sup>*\<^sup>* (alone 0 (Looking ?k) fixture_start) (alone 0 (Answered ?k (Ok rep)) t)"
    by (rule alone_load [OF fixture_total _ l(1)]) (simp add: limits_default_valid)
  note safe = concurrent_loads_safe [OF reachable_tasks [OF fixture_world this]]
  have "\<exists>host port answer. url_host_str plain_url_api (fr_url (fixture_request ''/jwks'')) = Some host \<and>
      fixture_resolve host port = Ok answer \<and> fr_selected_ip (fixture_request ''/jwks'') \<in> set answer"
    using safe [THEN conjunct1] l(3) by (fastforce simp: alone_def)
  with l(2,3) show ?thesis
    by (intro exI [of _ "alone 0 (Answered ?k (Ok rep)) t"] exI [of _ 0] exI [of _ rep]) (simp add: alone_def)
qed

end
