(* ===== verification/Telemetry.thy ===== *)
theory Telemetry
  imports Interleaving
begin

text \<open>
  What the resolver's metrics say of concurrent loads: the labels are a fixed set, every request is counted,
  and the refreshes counted bound the requests sent. The histories of the loader's state are what
  the instruments of \<open>metrics.rs\<close> record.
\<close>

section \<open>The invariant\<close>

text \<open>A refresh that has not sent its request yet.\<close>

fun unsent :: "('u, 'p) phase \<Rightarrow> bool" where
  "unsent (Leading key now previous st) \<longleftrightarrow> stage_rank st \<ge> 3"
| "unsent _ = False"

definition labels_ok :: "('u, 'p, 'l) Loader_state \<Rightarrow> bool" where
  "labels_ok s \<longleftrightarrow>
     set (cache_events s) \<subseteq> set cache_labels \<and> set (ld_fetch_results s) \<subseteq> set fetch_labels \<and>
     length (ld_fetch_results s) = length (ld_sent s)"

definition counts_ok :: "('u, 'p, 'l) Loader_state \<Rightarrow> (nat \<rightharpoonup> ('u, 'p) phase) \<Rightarrow> bool" where
  "counts_ok s tasks \<longleftrightarrow>
     length (ld_sent s) + card (holding unsent tasks) \<le> count_list (cache_events s) ''refresh''"

definition telemetry_ok :: "('u, 'p, 'l) world \<Rightarrow> bool" where
  "telemetry_ok w \<longleftrightarrow> labels_ok (wd_shared w) \<and> counts_ok (wd_shared w) (wd_tasks w)"

lemma wake_unsent [simp]: "holding unsent (wake key outcome tasks) = holding unsent tasks"
  by (rule wake_holding) simp

lemma counts_ok_update:
  assumes "counts_ok s tasks" and "finite (dom tasks)"
    and "length (ld_sent t) + of_bool (\<exists>ph. x = Some ph \<and> unsent ph) + count_list (cache_events s) ''refresh'' \<le>
      length (ld_sent s) + of_bool (\<exists>ph. tasks i = Some ph \<and> unsent ph) + count_list (cache_events t) ''refresh''"
  shows "counts_ok t (tasks(i := x))"
  using assms card_holding_update [of tasks unsent i x] by (simp add: counts_ok_def)

section \<open>Every step keeps it\<close>

lemma cache_event_telemetry [simp]:
  "ld_sent (cache_event e s) = ld_sent s" "ld_fetch_results (cache_event e s) = ld_fetch_results s"
  "cache_events (cache_event e s) = cache_events s @ [e]"
  by (simp_all add: cache_event_def)

lemma labels_ok_event: "labels_ok s \<Longrightarrow> e \<in> set cache_labels \<Longrightarrow> labels_ok (cache_event e s)"
  by (simp add: labels_ok_def)

lemma look_telemetry:
  assumes "look E now key s = (ph, t)"
  shows "ld_sent t = ld_sent s" and "\<not> unsent ph"
    and "labels_ok s \<Longrightarrow> labels_ok t"
    and "count_list (cache_events t) ''refresh'' = count_list (cache_events s) ''refresh''"
  using assms
  by (auto simp: look_def count_list_snoc cache_labels_def intro!: labels_ok_event
      split: res.splits option.splits if_splits)

lemma result_or_stale_telemetry:
  assumes "result_or_stale r previous now s = (r', t)"
  shows "ld_sent t = ld_sent s" and "labels_ok s \<Longrightarrow> labels_ok t"
    and "count_list (cache_events t) ''refresh'' = count_list (cache_events s) ''refresh''"
  using assms
  by (auto simp: result_or_stale_def count_list_snoc cache_labels_def intro!: labels_ok_event
      split: res.splits option.splits if_splits)

lemma conclude_telemetry:
  assumes "conclude E now end_at key r s = (out, t)"
  shows "ld_sent t = ld_sent s" and "labels_ok t = labels_ok s" and "cache_events t = cache_events s"
  using assms by (auto simp: conclude_def labels_ok_def case_prod_unfold Let_def)

lemma leave_telemetry:
  "leave st st' s = (st2, t) \<Longrightarrow> ld_sent t = ld_sent s \<and> ld_fetch_results t = ld_fetch_results s \<and>
     cache_events t = cache_events s \<and> st2 = st'"
  by (auto simp: leave_def)

lemma stage_step_telemetry:
  assumes "stage_step E now key previous st s = (st', t)" and "total_env E"
  shows "cache_events t = cache_events s"
    and "length (ld_sent t) + of_bool (stage_rank st' \<ge> 3) \<le> length (ld_sent s) + of_bool (stage_rank st \<ge> 3)"
    and "labels_ok s \<Longrightarrow> labels_ok t"
proof -
  have "cache_events t = cache_events s \<and>
    length (ld_sent t) + of_bool (stage_rank st' \<ge> 3) \<le> length (ld_sent s) + of_bool (stage_rank st \<ge> 3) \<and>
    (labels_ok s \<longrightarrow> labels_ok t)"
  proof (cases st)
    case (AtHttp q request)
    have f: "fetch_result (res_bind (map_err err_kind (rl_http E now q)) (\<lambda>_. Ok ())) \<in> set fetch_labels"
      using assms(2) by (intro fetch_result_label) (simp add: total_env_def res_simps map_err_Panic)
    have "\<not> 3 \<le> stage_rank (next_stage (rl_http E now q) (AtPublish q request))"
      unfolding not_le by (rule stage_rank_next) simp_all
    with f assms(1) AtHttp show ?thesis
      by (auto simp: Let_def labels_ok_def dest!: leave_telemetry)
  next
    case (AtPublish q request response)
    with assms(1) show ?thesis
      by (auto simp: Let_def labels_ok_def publish_def dest!: leave_telemetry split: res.splits if_splits)
  qed (use assms(1) in \<open>auto simp: on_controls_def labels_ok_def case_prod_unfold Let_def dest!: leave_telemetry\<close>)
  then show "cache_events t = cache_events s"
    and "length (ld_sent t) + of_bool (stage_rank st' \<ge> 3) \<le> length (ld_sent s) + of_bool (stage_rank st \<ge> 3)"
    and "labels_ok s \<Longrightarrow> labels_ok t" by simp_all
qed

lemma finite_tasks: "world_inv E limits w \<Longrightarrow> finite (dom (wd_tasks w))"
  by (simp add: world_inv_def permits_ok_def)

lemma telemetry_set:
  assumes "telemetry_ok w" and "finite (dom (wd_tasks w))" and "wd_tasks w i = Some ph" and "labels_ok s"
    and "length (ld_sent s) + of_bool (unsent ph') + count_list (cache_events (wd_shared w)) ''refresh'' \<le>
      length (ld_sent (wd_shared w)) + of_bool (unsent ph) + count_list (cache_events s) ''refresh''"
  shows "telemetry_ok (set_task i ph' (w\<lparr>wd_shared := s\<rparr>))"
  using assms counts_ok_update [of "wd_shared w" "wd_tasks w" s "Some ph'" i]
  by (simp add: telemetry_ok_def set_task_def)

lemma telemetry_drop:
  fixes w :: "('u, 'p, 'l) world"
  assumes "telemetry_ok w" and "finite (dom (wd_tasks w))"
  shows "telemetry_ok (drop_task i w)"
proof -
  have l: "labels_ok (wd_shared w)" using assms(1) by (simp add: telemetry_ok_def)
  have c: "counts_ok t (tasks(i := None))"
    if "holding unsent tasks = holding unsent (wd_tasks w)" "dom tasks = dom (wd_tasks w)"
      "ld_sent t = ld_sent (wd_shared w)" "cache_events t = cache_events (wd_shared w)"
    for t :: "('u, 'p, 'l) Loader_state" and tasks :: "nat \<rightharpoonup> ('u, 'p) phase"
    using that assms counts_ok_update [of "wd_shared w" tasks t None i] by (simp add: telemetry_ok_def counts_ok_def)
  show ?thesis
    using l by (auto simp: drop_task_def telemetry_ok_def labels_ok_def intro!: c wake_dom split: option.splits phase.splits)
qed

lemma telemetry_task:
  assumes "total_env E" and "world_inv E limits w" and "telemetry_ok w" and "task_step E i w w'"
  shows "telemetry_ok w'"
proof -
  note f = finite_tasks [OF assms(2)] and set = telemetry_set [OF assms(3) finite_tasks [OF assms(2)]]
  have l: "labels_ok (wd_shared w)" using assms(3) by (simp add: telemetry_ok_def)
  from assms(4) show ?thesis
  proof cases
    case (task_look key now ph s)
    with set [OF task_look(2), of s ph] look_telemetry [OF task_look(3)] l show ?thesis by simp
  next
    case (task_consult key now previous inst)
    have "\<not> unsent (consult inst key now previous (wd_shared w))" by (simp add: consult_def split: option.splits)
    with set [OF task_consult(2), of "wd_shared w" "consult inst key now previous (wd_shared w)"] l task_consult(1)
    show ?thesis by simp
  next
    case (task_invalidate key now previous)
    with set [OF task_invalidate(2), of _ "Joining key now previous"] l show ?thesis by (simp add: labels_ok_def)
  next
    case (task_join_done key now previous out)
    with set [OF task_join_done(2), of "wd_shared w" "Got key now previous out"] l show ?thesis by simp
  next
    case (task_join_wait key now previous j)
    with set [OF task_join_wait(2), of "wd_shared w" "Waiting key now previous"] l show ?thesis by simp
  next
    case (task_join_lead key now previous)
    let ?s = "cache_event ''refresh'' (wd_shared w)"
    have "labels_ok ?s" using l by (rule labels_ok_event) (simp add: cache_labels_def)
    with counts_ok_update [of "wd_shared w" "wd_tasks w" ?s "Some (Leading key now previous AtCircuit)" i]
      f task_join_lead assms(3)
    show ?thesis by (simp add: telemetry_ok_def set_task_def count_list_snoc)
  next
    case (task_work key now previous st t st' s)
    with set [OF task_work(2), of s "Leading key now previous st'"] stage_step_telemetry [OF task_work(4) assms(1)] l
    show ?thesis by simp
  next
    case (task_conclude key now previous r ended end_at out s)
    from conclude_telemetry [OF task_conclude(4)] assms(3)
      counts_ok_update [of "wd_shared w" "wake key (Some out) (wd_tasks w)" s "Some (Got key now previous out)" i]
      f task_conclude(1)
    show ?thesis by (simp add: telemetry_ok_def counts_ok_def)
  next
    case (task_panic key now previous)
    with telemetry_drop [OF assms(3) f] show ?thesis by simp
  next
    case (task_answer key now previous out r s)
    with set [OF task_answer(2), of s "Answered key r"] result_or_stale_telemetry [OF task_answer(3)] l
    show ?thesis by simp
  qed
qed

lemma telemetry_step:
  assumes "total_env E" and "world_inv E limits w" and "telemetry_ok w" and "world_step E w w'"
  shows "telemetry_ok w'"
  using assms(4)
proof cases
  case (world_spawn i key)
  with counts_ok_update [of "wd_shared w" "wd_tasks w" "wd_shared w" "Some (Looking key)" i] assms(3) finite_tasks [OF assms(2)]
  show ?thesis by (simp add: telemetry_ok_def set_task_def)
next
  case (world_task i)
  with assms(1-3) show ?thesis by (rule telemetry_task)
next
  case (world_drop i)
  with telemetry_drop [OF assms(3) finite_tasks [OF assms(2)]] show ?thesis by simp
next
  case (world_evict A B F G H)
  with assms(3) show ?thesis by (simp add: telemetry_ok_def labels_ok_def counts_ok_def evict_def)
qed

interpretation telemetry: invariant_of "world_init E limits" "world_step E"
    "\<lambda>w. world_inv E limits w \<and> (total_env E \<longrightarrow> telemetry_ok w)"
  for E :: "('a, 'b, 'c) ResourceLoader" and limits
proof
  fix w
  assume i: "world_init E limits w"
  then have "telemetry_ok w"
    by cases (auto simp: ResourceLoader_new_def res_simps telemetry_ok_def labels_ok_def counts_ok_def holding_def)
  with i show "world_inv E limits w \<and> (total_env E \<longrightarrow> telemetry_ok w)" by (simp add: world_inv_init)
qed (auto intro: world_inv_step telemetry_step)

section \<open>Properties\<close>

text \<open>What the instruments hold after a loader's history, given how long each fetch took.\<close>

definition loader_metrics :: "duration list \<Rightarrow> ('u, 'p, 'l) Loader_state \<Rightarrow> Metrics" where
  "loader_metrics durations s =
     record_fetches (zip (ld_fetch_results s) durations) (fold Metrics_cache_event (cache_events s) Metrics_new)"

lemma loader_metrics_counts:
  assumes "length durations = length (ld_fetch_results s)"
  shows "ct_count (mt_cache_events (loader_metrics durations s)) (k, e) =
      (if k = ''event'' then count_list (cache_events s) e else 0)"
    and "ct_count (mt_fetch_results (loader_metrics durations s)) (k, e) =
      (if k = ''result'' then count_list (ld_fetch_results s) e else 0)"
    and "length (hg_points (mt_fetch_duration (loader_metrics durations s))) = length (ld_fetch_results s)"
  using assms by (simp_all add: loader_metrics_def cache_event_counts fetch_counts)



end
