(* ===== verification/Config.thy ===== *)
theory Config
  imports Wba_Prelude
begin

text \<open>
  Module settings, \<open>crates/module/src/config.rs\<close>: the settings record with its defaults and the
  validation of \<open>Settings::parse\<close>. The JSON decoder (\<open>serde_json::from_slice\<close> with the derived
  \<open>Deserialize\<close>) is a parameter; its errors are an abstract type \<open>'j\<close>.
\<close>

definition DEFAULT_CLUSTER :: string where "DEFAULT_CLUSTER = ''web-bot-auth-key-resolver''"
definition DEFAULT_TIMEOUT_MS :: u64 where "DEFAULT_TIMEOUT_MS = 2000"
definition MAX_TIMEOUT_MS :: u64 where "MAX_TIMEOUT_MS = 2000"
definition DEFAULT_MAX_LIFETIME_SECONDS :: u64 where "DEFAULT_MAX_LIFETIME_SECONDS = 86400"
definition DEFAULT_CLOCK_SKEW_SECONDS :: u64 where "DEFAULT_CLOCK_SKEW_SECONDS = 5"

datatype Mode = Observe | Optional | Required

record ResolverSettings =
  cfg_cluster :: string
  cfg_timeout_ms :: u64

definition ResolverSettings_default :: ResolverSettings where
  "ResolverSettings_default = \<lparr>cfg_cluster = DEFAULT_CLUSTER, cfg_timeout_ms = DEFAULT_TIMEOUT_MS\<rparr>"

record Settings =
  cfg_mode :: Mode
  cfg_resolver :: ResolverSettings
  cfg_max_signature_lifetime_seconds :: u64
  cfg_clock_skew_seconds :: u64
  cfg_required_components :: "string list"
  cfg_accept_legacy_signature_agent :: bool
  cfg_forward_identity_headers :: bool

definition Settings_default :: Settings where
  "Settings_default =
     \<lparr>cfg_mode = Observe,
      cfg_resolver = ResolverSettings_default,
      cfg_max_signature_lifetime_seconds = DEFAULT_MAX_LIFETIME_SECONDS,
      cfg_clock_skew_seconds = DEFAULT_CLOCK_SKEW_SECONDS,
      cfg_required_components = [],
      cfg_accept_legacy_signature_agent = False,
      cfg_forward_identity_headers = True\<rparr>"

datatype 'j ConfigError =
    Json 'j
  | EmptyResolverCluster
  | ZeroResolverTimeout
  | ResolverTimeoutTooLarge
  | ZeroSignatureLifetime
  | InvalidRequiredComponent string

text \<open>The messages; \<open>show_json\<close> and \<open>debug_str\<close> are the library's texts of a decoding error and of a string.\<close>

fun ConfigError_display :: "('j \<Rightarrow> string) \<Rightarrow> (string \<Rightarrow> string) \<Rightarrow> 'j ConfigError \<Rightarrow> string" where
  "ConfigError_display show_json debug_str (Json error) = show_json error"
| "ConfigError_display show_json debug_str EmptyResolverCluster = ''resolver.cluster must not be empty''"
| "ConfigError_display show_json debug_str ZeroResolverTimeout = ''resolver.timeout_ms must be positive''"
| "ConfigError_display show_json debug_str ResolverTimeoutTooLarge =
     ''resolver.timeout_ms must not exceed 2000 milliseconds''"
| "ConfigError_display show_json debug_str ZeroSignatureLifetime = ''max_signature_lifetime_seconds must be positive''"
| "ConfigError_display show_json debug_str (InvalidRequiredComponent component) =
     ''required component '' @ debug_str component @ '' is not resolved by the request adapter''"

definition valid_component_name :: "string \<Rightarrow> bool" where
  "valid_component_name component \<longleftrightarrow>
     component \<in> {''@method'', ''@authority'', ''@scheme'', ''@target-uri'', ''@path'', ''@query'',
                  ''signature'', ''signature-input'', ''signature-agent''}"

text \<open>The \<open>for\<close> loop over the required components, returning at the first one that is not resolved.\<close>

fun check_required_components :: "string list \<Rightarrow> (unit, 'j ConfigError) res" where
  "check_required_components [] = Ok ()"
| "check_required_components (component # rest) =
     (if \<not> valid_component_name component then Err (InvalidRequiredComponent component)
      else check_required_components rest)"

text \<open>The checks of \<open>Settings::parse\<close> after decoding, in the order of the source.\<close>

definition Settings_validate :: "Settings \<Rightarrow> (Settings, 'j ConfigError) res" where
  "Settings_validate settings =
     (if cfg_cluster (cfg_resolver settings) = [] then Err EmptyResolverCluster
      else if cfg_timeout_ms (cfg_resolver settings) = 0 then Err ZeroResolverTimeout
      else if cfg_timeout_ms (cfg_resolver settings) > MAX_TIMEOUT_MS then Err ResolverTimeoutTooLarge
      else if cfg_max_signature_lifetime_seconds settings = 0 then Err ZeroSignatureLifetime
      else res_bind (check_required_components (cfg_required_components settings)) (\<lambda>_. Ok settings))"

definition Settings_parse ::
  "(string \<Rightarrow> (Settings, 'j) res) \<Rightarrow> string \<Rightarrow> (Settings, 'j ConfigError) res" where
  "Settings_parse from_slice config =
     res_bind (if config = [] then Ok Settings_default else map_err Json (from_slice config))
       Settings_validate"

section \<open>Facts\<close>

lemma check_required_components_Ok:
  "check_required_components cs = Ok u \<longleftrightarrow> list_all valid_component_name cs"
  by (induction cs) auto

lemma check_required_components_not_Panic: "check_required_components cs \<noteq> Panic"
  by (induction cs) auto

lemma Settings_validate_Ok:
  "Settings_validate x = Ok s \<longleftrightarrow>
     x = s \<and> cfg_cluster (cfg_resolver s) \<noteq> [] \<and> cfg_timeout_ms (cfg_resolver s) \<noteq> 0 \<and>
     cfg_timeout_ms (cfg_resolver s) \<le> MAX_TIMEOUT_MS \<and> cfg_max_signature_lifetime_seconds s \<noteq> 0 \<and>
     list_all valid_component_name (cfg_required_components s)"
  by (auto simp: Settings_validate_def res_simps check_required_components_Ok not_less)

lemma Settings_parse_Ok_iff:
  "Settings_parse F config = Ok s \<longleftrightarrow>
     (if config = [] then Ok Settings_default else map_err Json (F config)) = Ok s \<and>
     cfg_cluster (cfg_resolver s) \<noteq> [] \<and> cfg_timeout_ms (cfg_resolver s) \<noteq> 0 \<and>
     cfg_timeout_ms (cfg_resolver s) \<le> MAX_TIMEOUT_MS \<and> cfg_max_signature_lifetime_seconds s \<noteq> 0 \<and>
     list_all valid_component_name (cfg_required_components s)"
  by (simp add: Settings_parse_def res_bind_Ok_iff Settings_validate_Ok)

lemma valid_component_names:
  "list_all valid_component_name cs \<longleftrightarrow> set cs \<subseteq>
     {''@method'', ''@authority'', ''@scheme'', ''@target-uri'', ''@path'', ''@query'',
      ''signature'', ''signature-input'', ''signature-agent''}"
  by (simp only: list_all_iff valid_component_name_def subset_eq Ball_def)

lemma timeout_range:
  "t \<noteq> 0 \<and> t \<le> MAX_TIMEOUT_MS \<longleftrightarrow> 1 \<le> unat t \<and> unat t \<le> 2000"
proof -
  have "(t = 0) = (unat t = 0)" by (simp add: unat_eq_0)
  moreover have "t \<le> MAX_TIMEOUT_MS \<longleftrightarrow> unat t \<le> 2000"
    by (simp add: MAX_TIMEOUT_MS_def word_le_nat_alt)
  ultimately show ?thesis by linarith
qed

section \<open>Properties\<close>

text \<open>
  C39. \<open>Settings::parse\<close> returns settings exactly when the document decodes (an empty document stands for the
  defaults), the resolver cluster is named, the callout timeout is between 1 and 2000 ms, signatures
  have a positive maximum lifetime and every required component is one of the nine names; the
  settings are returned unchanged. The empty document is accepted as the defaults.
\<close>

theorem Settings_parse_accepts:
  "(Settings_parse F config = Ok s \<longleftrightarrow>
     (if config = [] then s = Settings_default else F config = Ok s) \<and>
     cfg_cluster (cfg_resolver s) \<noteq> [] \<and>
     1 \<le> unat (cfg_timeout_ms (cfg_resolver s)) \<and> unat (cfg_timeout_ms (cfg_resolver s)) \<le> 2000 \<and>
     0 < unat (cfg_max_signature_lifetime_seconds s) \<and>
     set (cfg_required_components s) \<subseteq>
       {''@method'', ''@authority'', ''@scheme'', ''@target-uri'', ''@path'', ''@query'',
        ''signature'', ''signature-input'', ''signature-agent''}) \<and>
   Settings_parse F [] = Ok Settings_default"
proof
  show "Settings_parse F config = Ok s \<longleftrightarrow>
     (if config = [] then s = Settings_default else F config = Ok s) \<and>
     cfg_cluster (cfg_resolver s) \<noteq> [] \<and>
     1 \<le> unat (cfg_timeout_ms (cfg_resolver s)) \<and> unat (cfg_timeout_ms (cfg_resolver s)) \<le> 2000 \<and>
     0 < unat (cfg_max_signature_lifetime_seconds s) \<and>
     set (cfg_required_components s) \<subseteq>
       {''@method'', ''@authority'', ''@scheme'', ''@target-uri'', ''@path'', ''@query'',
        ''signature'', ''signature-input'', ''signature-agent''}"
    unfolding Settings_parse_Ok_iff valid_component_names [symmetric]
    using timeout_range [of "cfg_timeout_ms (cfg_resolver s)"]
    by (auto simp: res_simps unat_gt_0)
  show "Settings_parse F [] = Ok Settings_default"
    by (simp add: Settings_parse_def Settings_validate_def Settings_default_def ResolverSettings_default_def
        DEFAULT_CLUSTER_def DEFAULT_TIMEOUT_MS_def MAX_TIMEOUT_MS_def DEFAULT_MAX_LIFETIME_SECONDS_def)
qed

end
