(* ===== verification/Policy.thy ===== *)
theory Policy
  imports Config
begin

text \<open>
  Verification results and admission, \<open>crates/module/src/policy.rs\<close>. The variants of the source's
  enums keep their names; where two enums share one (\<open>Malformed\<close>, \<open>KeyNotFound\<close>) it is written with
  its type, as in Rust.
\<close>

datatype InvalidKind = Malformed | Rejected

datatype UnverifiedKind = Unsupported | KeyNotFound | Unavailable

datatype Reason =
    Unsigned
  | IncompleteFields
  | RequestBodyUnsupported
  | RequestCapture
  | MalformedProfile
  | UnsupportedMultipleSignatures
  | MissingSignatureAgent
  | SignatureAgentNotBound
  | UnsupportedDiscoveryType
  | InvalidDiscoveryUrl
  | ProfileFieldTooLarge
  | MissingRequiredComponent
  | InvalidFreshness
  | UnsupportedAlgorithm
  | ResolverEncoding
  | ResolverUnavailable
  | ResolverResponse
  | ResolverCalloutMismatch
  | KeyNotFound
  | ResolverIdentifier
  | KeyThumbprint
  | KeyAlgorithm
  | SignatureVerification
  | Verified

fun Reason_as_str :: "Reason \<Rightarrow> string" where
  "Reason_as_str Reason.Unsigned = ''unsigned''"
| "Reason_as_str Reason.IncompleteFields = ''incomplete_fields''"
| "Reason_as_str Reason.RequestBodyUnsupported = ''request_body_unsupported''"
| "Reason_as_str Reason.RequestCapture = ''request_capture''"
| "Reason_as_str Reason.MalformedProfile = ''malformed_profile''"
| "Reason_as_str Reason.UnsupportedMultipleSignatures = ''unsupported_multiple_signatures''"
| "Reason_as_str Reason.MissingSignatureAgent = ''missing_signature_agent''"
| "Reason_as_str Reason.SignatureAgentNotBound = ''signature_agent_not_bound''"
| "Reason_as_str Reason.UnsupportedDiscoveryType = ''unsupported_discovery_type''"
| "Reason_as_str Reason.InvalidDiscoveryUrl = ''invalid_discovery_url''"
| "Reason_as_str Reason.ProfileFieldTooLarge = ''profile_field_too_large''"
| "Reason_as_str Reason.MissingRequiredComponent = ''missing_required_component''"
| "Reason_as_str Reason.InvalidFreshness = ''invalid_freshness''"
| "Reason_as_str Reason.UnsupportedAlgorithm = ''unsupported_algorithm''"
| "Reason_as_str Reason.ResolverEncoding = ''resolver_encoding''"
| "Reason_as_str Reason.ResolverUnavailable = ''resolver_unavailable''"
| "Reason_as_str Reason.ResolverResponse = ''resolver_response''"
| "Reason_as_str Reason.ResolverCalloutMismatch = ''resolver_callout_mismatch''"
| "Reason_as_str Reason.KeyNotFound = ''key_not_found''"
| "Reason_as_str Reason.ResolverIdentifier = ''resolver_identifier''"
| "Reason_as_str Reason.KeyThumbprint = ''key_thumbprint''"
| "Reason_as_str Reason.KeyAlgorithm = ''key_algorithm''"
| "Reason_as_str Reason.SignatureVerification = ''signature_verification''"
| "Reason_as_str Reason.Verified = ''verified''"

record VerifiedIdentity =
  vi_identifier :: string
  vi_key_id :: string

datatype VerificationResult =
    NotPresent Reason
  | Invalid InvalidKind Reason
  | Unverified UnverifiedKind Reason
  | Verified VerifiedIdentity

fun result_status :: "VerificationResult \<Rightarrow> string" where
  "result_status (NotPresent _) = ''not-present''"
| "result_status (Invalid _ _) = ''invalid''"
| "result_status (Unverified _ _) = ''unverified''"
| "result_status (VerificationResult.Verified _) = ''verified''"

fun result_reason :: "VerificationResult \<Rightarrow> Reason" where
  "result_reason (NotPresent reason) = reason"
| "result_reason (Invalid _ reason) = reason"
| "result_reason (Unverified _ reason) = reason"
| "result_reason (VerificationResult.Verified _) = Reason.Verified"

fun result_identity :: "VerificationResult \<Rightarrow> VerifiedIdentity option" where
  "result_identity (VerificationResult.Verified identity) = Some identity"
| "result_identity _ = None"

text \<open>A rejection carries the HTTP status (\<open>u32\<close>) and whether the challenge header is sent.\<close>

datatype Admission = Allow | Reject nat bool

definition admission :: "Mode \<Rightarrow> VerificationResult \<Rightarrow> Admission" where
  "admission m result =
     (if m = Observe then Allow
      else case result of
        NotPresent _ \<Rightarrow>
          (case m of Observe \<Rightarrow> Allow | Optional \<Rightarrow> Allow | Required \<Rightarrow> Reject 403 True)
      | Invalid InvalidKind.Malformed _ \<Rightarrow> Reject 400 False
      | Invalid InvalidKind.Rejected _ \<Rightarrow> Reject 403 False
      | Unverified UnverifiedKind.Unsupported _ \<Rightarrow> Reject 403 False
      | Unverified UnverifiedKind.KeyNotFound _ \<Rightarrow> Reject 403 False
      | Unverified UnverifiedKind.Unavailable _ \<Rightarrow> Reject 503 False
      | VerificationResult.Verified _ \<Rightarrow> Allow)"

section \<open>Facts\<close>

lemmas policy_splits =
  VerificationResult.splits InvalidKind.splits UnverifiedKind.splits Mode.splits

lemma result_identity_Some_iff [simp]:
  "result_identity r = Some i \<longleftrightarrow> r = VerificationResult.Verified i"
  by (cases r) auto

lemma result_status_verified_iff:
  "result_status r = ''verified'' \<longleftrightarrow> (\<exists>i. r = VerificationResult.Verified i)"
  by (cases r) auto

lemma admission_Allow_iff:
  "admission m r = Allow \<longleftrightarrow>
     m = Observe \<or> (\<exists>i. r = VerificationResult.Verified i) \<or>
     (m = Optional \<and> (\<exists>x. r = NotPresent x))"
  by (cases m; cases r) (auto simp: admission_def split: policy_splits)

lemma admission_Observe [simp]: "admission Observe r = Allow"
  by (simp add: admission_def)

section \<open>Properties\<close>

text \<open>
  C20. The admission table of the documentation. Observe mode rejects nothing; required mode admits verified
  requests and nothing else; optional mode admits these and requests without authentication. A
  rejection is 400 exactly for malformed fields, 503 exactly when verification was unavailable and 403
  otherwise, and only a missing signature in required mode is answered with the challenge.
\<close>

theorem admission_matrix:
  "admission Observe r = Allow \<and>
   (admission Required r = Allow \<longleftrightarrow> (\<exists>i. r = VerificationResult.Verified i)) \<and>
   (admission Optional r = Allow \<longleftrightarrow>
     (\<exists>i. r = VerificationResult.Verified i) \<or> (\<exists>x. r = NotPresent x)) \<and>
   ((\<exists>c. admission m r = Reject 400 c) \<longleftrightarrow>
     m \<noteq> Observe \<and> (\<exists>x. r = Invalid InvalidKind.Malformed x)) \<and>
   ((\<exists>c. admission m r = Reject 503 c) \<longleftrightarrow>
     m \<noteq> Observe \<and> (\<exists>x. r = Unverified UnverifiedKind.Unavailable x)) \<and>
   ((\<exists>s. admission m r = Reject s True) \<longleftrightarrow> m = Required \<and> (\<exists>x. r = NotPresent x)) \<and>
   admission m r \<in> {Allow, Reject 400 False, Reject 403 False, Reject 403 True, Reject 503 False}"
  by (cases m; cases r; auto simp: admission_def split: policy_splits)

end
