(* ===== verification/Candidate.thy ===== *)
theory Candidate
  imports Request Protocol Policy
begin

text \<open>
  The checks a signed request passes before a key is resolved, \<open>crates/module/src/candidate.rs\<close>. The
  signature library is a parameter: its verifier is an abstract type \<open>'v\<close>, built from the signed
  message view and read through accessors.
\<close>

section \<open>The signature library\<close>

text \<open>
  \<open>WebBotAuthVerifier\<close>: \<open>parse\<close> reads the request through \<^const>\<open>lookup_component\<close>; the parsed label
  has the covered components in order with their values, the raw parameters and the decoded
  \<open>created\<close>, \<open>expires\<close> and \<open>keyid\<close>. \<open>component_try_from\<close> is the conversion of an inner list's item.
\<close>

record ('v, 'k) wba_api =
  wba_parse :: "(CoveredComponent \<Rightarrow> string list) \<Rightarrow> 'v option"
  wba_label :: "'v \<Rightarrow> string"
  wba_components :: "'v \<Rightarrow> (CoveredComponent \<times> string) list"
  wba_raw :: "'v \<Rightarrow> sf_params"
  wba_created :: "'v \<Rightarrow> i64 option"
  wba_expires :: "'v \<Rightarrow> i64 option"
  wba_keyid :: "'v \<Rightarrow> string option"
  component_try_from :: "sf_item \<Rightarrow> CoveredComponent option"
  okp_thumbprint :: "string \<Rightarrow> string \<Rightarrow> string"
  try_import_jwk :: "string \<Rightarrow> string \<Rightarrow> 'k option"
  wba_verify :: "'v \<Rightarrow> 'k \<Rightarrow> bool"

section \<open>Candidates and their errors\<close>

record 'v VerificationCandidate =
  cand_verifier :: 'v
  cand_discovery :: DiscoveryMechanism
  cand_signed_url :: string
  cand_identifier :: string
  cand_key_id :: string

datatype CandidateError =
    Malformed
  | MultipleSignatures
  | MissingSignatureAgent
  | SignatureAgentNotBound
  | UnsupportedDiscoveryType
  | InvalidDiscoveryUrl
  | ProfileFieldTooLarge
  | MissingRequiredComponent
  | InvalidFreshness
  | UnsupportedAlgorithm

fun CandidateError_result :: "CandidateError \<Rightarrow> VerificationResult" where
  "CandidateError_result CandidateError.Malformed =
     Invalid InvalidKind.Malformed Reason.MalformedProfile"
| "CandidateError_result CandidateError.MultipleSignatures =
     Unverified UnverifiedKind.Unsupported Reason.UnsupportedMultipleSignatures"
| "CandidateError_result CandidateError.MissingSignatureAgent =
     Invalid InvalidKind.Rejected Reason.MissingSignatureAgent"
| "CandidateError_result CandidateError.SignatureAgentNotBound =
     Invalid InvalidKind.Rejected Reason.SignatureAgentNotBound"
| "CandidateError_result CandidateError.UnsupportedDiscoveryType =
     Unverified UnverifiedKind.Unsupported Reason.UnsupportedDiscoveryType"
| "CandidateError_result CandidateError.InvalidDiscoveryUrl =
     Invalid InvalidKind.Rejected Reason.InvalidDiscoveryUrl"
| "CandidateError_result CandidateError.ProfileFieldTooLarge =
     Invalid InvalidKind.Malformed Reason.ProfileFieldTooLarge"
| "CandidateError_result CandidateError.MissingRequiredComponent =
     Invalid InvalidKind.Rejected Reason.MissingRequiredComponent"
| "CandidateError_result CandidateError.InvalidFreshness =
     Invalid InvalidKind.Rejected Reason.InvalidFreshness"
| "CandidateError_result CandidateError.UnsupportedAlgorithm =
     Unverified UnverifiedKind.Unsupported Reason.UnsupportedAlgorithm"

datatype SignatureAgentForm = Dictionary | LegacyItem

record SelectedAgent =
  sel_item :: sf_item
  sel_form :: SignatureAgentForm

section \<open>The profile's label and agent member\<close>

definition has_profile_tag :: "list_entry \<Rightarrow> bool" where
  "has_profile_tag entry =
     (case entry of
        InnerList list \<Rightarrow>
          (case Option.bind (map_of (inner_params list) ''tag'') as_string of
             Some tag \<Rightarrow> tag = ''web-bot-auth''
           | None \<Rightarrow> False)
      | Item _ \<Rightarrow> False)"

fun collect_profile_labels :: "sfv_api \<Rightarrow> string list \<Rightarrow> (string list, CandidateError) res" where
  "collect_profile_labels S [] = Ok []"
| "collect_profile_labels S (value # values) =
     (case parse_dictionary S value of
        None \<Rightarrow> Err CandidateError.Malformed
      | Some dictionary \<Rightarrow>
          res_bind (collect_profile_labels S values) (\<lambda>labels.
          Ok (map fst (filter (\<lambda>(label, entry). has_profile_tag entry) dictionary) @ labels)))"

definition profile_signature_label :: "sfv_api \<Rightarrow> string list \<Rightarrow> (string, CandidateError) res" where
  "profile_signature_label S values =
     res_bind (collect_profile_labels S values) (\<lambda>profile_labels.
       case profile_labels of
         [] \<Rightarrow> Err CandidateError.Malformed
       | [label] \<Rightarrow> Ok label
       | _ \<Rightarrow> Err CandidateError.MultipleSignatures)"

text \<open>The match on a field's parameters that both readings of the agent's member key share.\<close>

definition agent_member :: "HTTPFieldParameters list \<Rightarrow> (string option, CandidateError) res" where
  "agent_member params =
     (case params of
        [] \<Rightarrow> Ok None
      | [Key key] \<Rightarrow> Ok (Some key)
      | _ \<Rightarrow> Err CandidateError.Malformed)"

fun signed_agent_member_key ::
  "CoveredComponent list \<Rightarrow> (string option, CandidateError) res" where
  "signed_agent_member_key [] = Err CandidateError.SignatureAgentNotBound"
| "signed_agent_member_key (component # components) =
     (case component of
        HTTP field \<Rightarrow>
          (if field_name field = ''signature-agent'' then agent_member (field_parameters field)
           else signed_agent_member_key components)
      | Derived _ \<Rightarrow> signed_agent_member_key components)"

fun agent_key_in_items ::
  "('v, 'k) wba_api \<Rightarrow> sf_item list \<Rightarrow> (string option, CandidateError) res" where
  "agent_key_in_items W [] = Err CandidateError.SignatureAgentNotBound"
| "agent_key_in_items W (item # items) =
     (case component_try_from W item of
        None \<Rightarrow> Err CandidateError.Malformed
      | Some (HTTP field) \<Rightarrow>
          (if field_name field = ''signature-agent'' then agent_member (field_parameters field)
           else agent_key_in_items W items)
      | Some (Derived _) \<Rightarrow> agent_key_in_items W items)"

fun signature_agent_key_from_input ::
  "sfv_api \<Rightarrow> ('v, 'k) wba_api \<Rightarrow> string list \<Rightarrow> string \<Rightarrow> (string option, CandidateError) res" where
  "signature_agent_key_from_input S W [] label = Err CandidateError.Malformed"
| "signature_agent_key_from_input S W (value # values) label =
     (case parse_dictionary S value of
        None \<Rightarrow> Err CandidateError.Malformed
      | Some dictionary \<Rightarrow>
          (case map_of dictionary label of
             Some (InnerList list) \<Rightarrow> agent_key_in_items W (inner_items list)
           | _ \<Rightarrow> signature_agent_key_from_input S W values label))"

definition supported_algorithm :: "sf_params \<Rightarrow> bool" where
  "supported_algorithm parameters =
     (case map_of parameters ''alg'' of
        None \<Rightarrow> True
      | Some value \<Rightarrow>
          (case as_string value of Some algorithm \<Rightarrow> algorithm = ''ed25519'' | None \<Rightarrow> False))"

text \<open>The loop over the field's values: the dictionary so far and whether every value was one.\<close>

fun agent_dictionary :: "sfv_api \<Rightarrow> dictionary \<Rightarrow> string list \<Rightarrow> dictionary \<times> bool" where
  "agent_dictionary S dictionary [] = (dictionary, True)"
| "agent_dictionary S dictionary (value # values) =
     (case parse_dictionary S value of
        Some parsed \<Rightarrow> agent_dictionary S (dict_extend dictionary parsed) values
      | None \<Rightarrow> (dictionary, False))"

definition select_agent ::
  "sfv_api \<Rightarrow> string list \<Rightarrow> string option \<Rightarrow> bool \<Rightarrow> (SelectedAgent, CandidateError) res" where
  "select_agent S values agent_key accept_legacy =
     (let (dictionary, dictionary_valid) = agent_dictionary S [] values in
      if dictionary_valid then
        (case Option.bind agent_key (map_of dictionary) of
           Some (Item item) \<Rightarrow> Ok \<lparr>sel_item = item, sel_form = Dictionary\<rparr>
         | Some (InnerList _) \<Rightarrow> Err CandidateError.Malformed
         | None \<Rightarrow> Err CandidateError.MissingSignatureAgent)
      else if accept_legacy \<and> agent_key = None \<and> length values = 1 then
        (case parse_item S (values ! 0) of
           Some item \<Rightarrow> Ok \<lparr>sel_item = item, sel_form = LegacyItem\<rparr>
         | None \<Rightarrow> Err CandidateError.Malformed)
      else Err CandidateError.Malformed)"

definition parse_agent :: "sf_item \<Rightarrow> (string \<times> DiscoveryMechanism, CandidateError) res" where
  "parse_agent item =
     res_bind (ok_or CandidateError.Malformed (as_string (bare_item item))) (\<lambda>signed_url.
       case map_of (item_params item) ''type'' of
         None \<Rightarrow> Ok (signed_url, Directory)
       | Some value \<Rightarrow>
           (case as_token value of
              None \<Rightarrow> Err CandidateError.UnsupportedDiscoveryType
            | Some token \<Rightarrow>
                (if token = ''directory'' then Ok (signed_url, Directory)
                 else if token = ''jwks_uri'' then Ok (signed_url, JwksUri)
                 else if token = ''cimd'' then Ok (signed_url, Cimd)
                 else Err CandidateError.UnsupportedDiscoveryType)))"

section \<open>Freshness and coverage\<close>

definition validate_freshness ::
  "i64 option \<Rightarrow> i64 option \<Rightarrow> i64 \<Rightarrow> u64 \<Rightarrow> u64 \<Rightarrow> (unit, CandidateError) res" where
  "validate_freshness created expires now max_lifetime clock_skew =
     res_bind (ok_or CandidateError.InvalidFreshness created) (\<lambda>created.
     res_bind (ok_or CandidateError.InvalidFreshness expires) (\<lambda>expires.
     res_bind (ok_or CandidateError.InvalidFreshness (i64_try_from_u64 clock_skew)) (\<lambda>skew.
     res_bind (ok_or CandidateError.InvalidFreshness (i64_checked_sub expires created)) (\<lambda>lifetime.
     if sint lifetime < 0
        \<or> (case u64_try_from_i64 lifetime of
              None \<Rightarrow> True | Some value \<Rightarrow> uint value > uint max_lifetime)
        \<or> sint created > sint (i64_saturating_add now skew)
        \<or> sint expires < sint (i64_saturating_sub now skew)
     then Err CandidateError.InvalidFreshness
     else Ok ()))))"

record coverage =
  cov_authority_or_target :: bool
  cov_bound_agent :: bool
  cov_legacy_agent :: bool
  cov_names :: "string list"

definition coverage_step :: "string option \<Rightarrow> CoveredComponent \<Rightarrow> coverage \<Rightarrow> coverage" where
  "coverage_step agent_key component c =
     (case component of
        Derived (Method False) \<Rightarrow> c\<lparr>cov_names := cov_names c @ [''@method'']\<rparr>
      | Derived (Path False) \<Rightarrow> c\<lparr>cov_names := cov_names c @ [''@path'']\<rparr>
      | Derived (TargetUri False) \<Rightarrow>
          c\<lparr>cov_authority_or_target := True, cov_names := cov_names c @ [''@target-uri'']\<rparr>
      | Derived (Authority False) \<Rightarrow>
          c\<lparr>cov_authority_or_target := True, cov_names := cov_names c @ [''@authority'']\<rparr>
      | HTTP field \<Rightarrow>
          (let c = c\<lparr>cov_names := cov_names c @ [field_name field]\<rparr> in
           if field_name field = ''signature-agent'' then
             (case field_parameters field of
                [Key key] \<Rightarrow> if agent_key = Some key then c\<lparr>cov_bound_agent := True\<rparr> else c
              | [] \<Rightarrow> c\<lparr>cov_legacy_agent := True\<rparr>
              | _ \<Rightarrow> c)
           else c)
      | _ \<Rightarrow> c)"

definition validate_coverage ::
  "CoveredComponent list \<Rightarrow> string option \<Rightarrow> SignatureAgentForm \<Rightarrow> string list \<Rightarrow>
   (unit, CandidateError) res" where
  "validate_coverage components agent_key agent_form required_components =
     (let c = fold (coverage_step agent_key) components
                \<lparr>cov_authority_or_target = False, cov_bound_agent = False, cov_legacy_agent = False, cov_names = []\<rparr>;
          agent_is_bound = (case agent_form of Dictionary \<Rightarrow> cov_bound_agent c | LegacyItem \<Rightarrow> cov_legacy_agent c)
      in if \<not> cov_authority_or_target c then Err CandidateError.MissingRequiredComponent
         else if \<not> agent_is_bound then Err CandidateError.SignatureAgentNotBound
         else if \<exists>required \<in> set required_components. required \<notin> set (cov_names c)
         then Err CandidateError.MissingRequiredComponent
         else Ok ())"

section \<open>Parsing a candidate\<close>

definition discovery_error :: "DiscoveryUrlError \<Rightarrow> CandidateError" where
  "discovery_error error =
     (if error = TooLong then CandidateError.ProfileFieldTooLarge
      else CandidateError.InvalidDiscoveryUrl)"

definition VerificationCandidate_parse ::
  "sfv_api \<Rightarrow> ('v, 'k) wba_api \<Rightarrow> 'u url_api \<Rightarrow> RequestComponents \<Rightarrow> bool \<Rightarrow> string list \<Rightarrow>
   i64 \<Rightarrow> u64 \<Rightarrow> u64 \<Rightarrow> ('v VerificationCandidate, CandidateError) res" where
  "VerificationCandidate_parse S W U request accept_legacy required_components now max_lifetime clock_skew =
     res_bind (profile_signature_label S (rc_signature_input request)) (\<lambda>profile_label.
     res_bind (signature_agent_key_from_input S W (rc_signature_input request) profile_label)
       (\<lambda>expected_agent_key.
     res_bind (select_agent S (rc_signature_agent request) expected_agent_key accept_legacy) (\<lambda>agent.
     res_bind (ok_or CandidateError.Malformed (wba_parse W (lookup_component S request))) (\<lambda>v.
     res_bind (ensure (wba_label W v = profile_label) CandidateError.Malformed) (\<lambda>_.
     let components = map fst (wba_components W v) in
     res_bind (signed_agent_member_key components) (\<lambda>agent_key.
     res_bind (ensure (agent_key = expected_agent_key) CandidateError.Malformed) (\<lambda>_.
     res_bind (ensure (supported_algorithm (wba_raw W v)) CandidateError.UnsupportedAlgorithm) (\<lambda>_.
     res_bind (validate_freshness (wba_created W v) (wba_expires W v) now max_lifetime clock_skew) (\<lambda>_.
     res_bind (validate_coverage components agent_key (sel_form agent) required_components) (\<lambda>_.
     res_bind (ok_or CandidateError.Malformed (wba_keyid W v)) (\<lambda>key_id.
     res_bind (ensure (key_id \<noteq> []) CandidateError.Malformed) (\<lambda>_.
     res_bind (parse_agent (sel_item agent)) (\<lambda>(signed_url, discovery).
     res_bind (ensure (length key_id \<le> MAX_KEY_ID_BYTES) CandidateError.ProfileFieldTooLarge) (\<lambda>_.
     res_bind (map_err discovery_error (parse_discovery_target U signed_url discovery)) (\<lambda>target.
     Ok \<lparr>cand_verifier = v, cand_discovery = discovery, cand_signed_url = signed_url,
         cand_identifier = target_identifier target, cand_key_id = key_id\<rparr>)))))))))))))))"

section \<open>Facts\<close>

lemma validate_freshness_Ok:
  "validate_freshness created expires now max_lifetime clock_skew = Ok () \<longleftrightarrow>
     (\<exists>c e. created = Some c \<and> expires = Some e \<and> uint clock_skew < 2 ^ 63 \<and>
            0 \<le> sint e - sint c \<and> sint e - sint c < 2 ^ 63 \<and> sint e - sint c \<le> uint max_lifetime \<and>
            sint c \<le> sint now + uint clock_skew \<and> sint now - uint clock_skew \<le> sint e)"
proof (cases "created = None \<or> expires = None \<or> \<not> uint clock_skew < 2 ^ 63")
  case True
  then show ?thesis
    by (auto simp: validate_freshness_def res_simps i64_try_from_u64_def)
next
  case False
  then obtain c e where ce: "created = Some c" "expires = Some e" and s: "uint clock_skew < 2 ^ 63"
    by auto
  have rc: "- (2 ^ 63) \<le> sint c" "sint c < 2 ^ 63" "- (2 ^ 63) \<le> sint e" "sint e < 2 ^ 63"
    using sint_i64_range [of c] sint_i64_range [of e] by (simp_all add: i64_in_range_def)
  have rn: "- (2 ^ 63) \<le> sint now" "sint now < 2 ^ 63" "0 \<le> uint clock_skew"
    using sint_i64_range [of now] by (simp_all add: i64_in_range_def)
  have hi: "sint (i64_saturating_add now clock_skew) < sint c \<longleftrightarrow> sint now + uint clock_skew < sint c"
    unfolding sint_saturating_add sint_eq_uint_small [OF s] using rc rn by linarith
  have lo: "sint e < sint (i64_saturating_sub now clock_skew) \<longleftrightarrow> sint e < sint now - uint clock_skew"
    unfolding sint_saturating_sub sint_eq_uint_small [OF s] using rc rn by linarith
  show ?thesis
  proof (cases "i64_in_range (sint e - sint c)")
    case True
    then have l: "i64_checked_sub e c = Some (e - c)" "sint (e - c) = sint e - sint c"
      by (simp_all add: i64_checked_sub_def sint_sub_i64)
    have u: "uint (e - c) = sint e - sint c" if "0 \<le> sint e - sint c"
      using sint_nonneg_uint [of "e - c"] that l(2) by simp
    show ?thesis
      using True rc u
      by (auto simp: validate_freshness_def ce s i64_try_from_u64_def ok_or_def l u64_try_from_i64_def
          hi lo i64_in_range_def split: if_splits)
  next
    case False
    with rc show ?thesis
      by (auto simp: validate_freshness_def ce s i64_try_from_u64_def ok_or_def i64_checked_sub_def
          i64_in_range_def)
  qed
qed

lemma validate_freshness_cases:
  "validate_freshness created expires now max_lifetime clock_skew \<in> {Ok (), Err CandidateError.InvalidFreshness}"
  by (auto simp: validate_freshness_def ok_or_def split: option.splits)

text \<open>What it means for a list of covered components to cover a name, the origin and the agent field.\<close>

fun component_covers :: "CoveredComponent \<Rightarrow> string \<Rightarrow> bool" where
  "component_covers (Derived (Method False)) n \<longleftrightarrow> n = ''@method''"
| "component_covers (Derived (Path False)) n \<longleftrightarrow> n = ''@path''"
| "component_covers (Derived (TargetUri False)) n \<longleftrightarrow> n = ''@target-uri''"
| "component_covers (Derived (Authority False)) n \<longleftrightarrow> n = ''@authority''"
| "component_covers (HTTP f) n \<longleftrightarrow> n = field_name f"
| "component_covers _ n \<longleftrightarrow> False"

definition agent_field :: "HTTPFieldParameters list \<Rightarrow> CoveredComponent" where
  "agent_field ps = HTTP \<lparr>field_name = ''signature-agent'', field_parameters = ps\<rparr>"

definition covers_origin :: "CoveredComponent list \<Rightarrow> bool" where
  "covers_origin cs \<longleftrightarrow>
     Derived (Authority False) \<in> set cs \<or> Derived (TargetUri False) \<in> set cs"

definition covers_agent :: "CoveredComponent list \<Rightarrow> string option \<Rightarrow> SignatureAgentForm \<Rightarrow> bool" where
  "covers_agent cs agent_key form \<longleftrightarrow>
     (case form of
        Dictionary \<Rightarrow> (\<exists>k. agent_key = Some k \<and> agent_field [Key k] \<in> set cs)
      | LegacyItem \<Rightarrow> agent_field [] \<in> set cs)"

lemma HTTP_agent_field_eq:
  "HTTP (f :: HTTPField) = agent_field ps \<longleftrightarrow>
     field_name f = ''signature-agent'' \<and> field_parameters f = ps"
  by (cases f) (auto simp: agent_field_def)

lemma agent_field_not_Derived [simp]: "agent_field ps \<noteq> Derived d" "Derived d \<noteq> agent_field ps"
  by (simp_all add: agent_field_def)

lemma coverage_step_facts:
  "cov_authority_or_target (coverage_step k x c) \<longleftrightarrow>
     cov_authority_or_target c \<or> x = Derived (Authority False) \<or> x = Derived (TargetUri False)"
  "cov_bound_agent (coverage_step k x c) \<longleftrightarrow>
     cov_bound_agent c \<or> (\<exists>key. k = Some key \<and> x = agent_field [Key key])"
  "cov_legacy_agent (coverage_step k x c) \<longleftrightarrow> cov_legacy_agent c \<or> x = agent_field []"
  "n \<in> set (cov_names (coverage_step k x c)) \<longleftrightarrow> n \<in> set (cov_names c) \<or> component_covers x n"
proof -
  have "(cov_authority_or_target (coverage_step k x c) \<longleftrightarrow>
     cov_authority_or_target c \<or> x = Derived (Authority False) \<or> x = Derived (TargetUri False)) \<and>
    (cov_bound_agent (coverage_step k x c) \<longleftrightarrow>
     cov_bound_agent c \<or> (\<exists>key. k = Some key \<and> x = agent_field [Key key])) \<and>
    (cov_legacy_agent (coverage_step k x c) \<longleftrightarrow> cov_legacy_agent c \<or> x = agent_field []) \<and>
    (n \<in> set (cov_names (coverage_step k x c)) \<longleftrightarrow> n \<in> set (cov_names c) \<or> component_covers x n)"
  proof (cases x)
    case (Derived d)
    then show ?thesis
      by (cases d) (auto simp: coverage_step_def split: bool.splits)
  next
    case (HTTP f)
    then show ?thesis
      by (auto simp: coverage_step_def HTTP_agent_field_eq Let_def
          split: list.splits HTTPFieldParameters.splits if_splits)
  qed
  then show
    "cov_authority_or_target (coverage_step k x c) \<longleftrightarrow>
     cov_authority_or_target c \<or> x = Derived (Authority False) \<or> x = Derived (TargetUri False)"
    "cov_bound_agent (coverage_step k x c) \<longleftrightarrow>
     cov_bound_agent c \<or> (\<exists>key. k = Some key \<and> x = agent_field [Key key])"
    "cov_legacy_agent (coverage_step k x c) \<longleftrightarrow> cov_legacy_agent c \<or> x = agent_field []"
    "n \<in> set (cov_names (coverage_step k x c)) \<longleftrightarrow> n \<in> set (cov_names c) \<or> component_covers x n"
    by blast+
qed

lemma coverage_fold_facts:
  "cov_authority_or_target (fold (coverage_step k) cs c) \<longleftrightarrow> cov_authority_or_target c \<or> covers_origin cs"
  "cov_bound_agent (fold (coverage_step k) cs c) \<longleftrightarrow> cov_bound_agent c \<or> covers_agent cs k Dictionary"
  "cov_legacy_agent (fold (coverage_step k) cs c) \<longleftrightarrow> cov_legacy_agent c \<or> covers_agent cs k LegacyItem"
  "n \<in> set (cov_names (fold (coverage_step k) cs c)) \<longleftrightarrow>
     n \<in> set (cov_names c) \<or> (\<exists>x \<in> set cs. component_covers x n)"
  by (induction cs arbitrary: c)
    (auto simp: coverage_step_facts covers_origin_def covers_agent_def)

lemma validate_coverage_eq:
  "validate_coverage cs k form required =
     (if \<not> covers_origin cs then Err CandidateError.MissingRequiredComponent
      else if \<not> covers_agent cs k form then Err CandidateError.SignatureAgentNotBound
      else if \<exists>r \<in> set required. \<forall>x \<in> set cs. \<not> component_covers x r
      then Err CandidateError.MissingRequiredComponent
      else Ok ())"
  by (cases form) (simp_all add: validate_coverage_def Let_def coverage_fold_facts)

lemma agent_dictionary_merge:
  "agent_dictionary S d vs =
     (case merge_dictionaries S d vs of Some d' \<Rightarrow> (d', True)
      | None \<Rightarrow> (fst (agent_dictionary S d vs), False))"
  by (induction S d vs rule: agent_dictionary.induct) (auto split: option.splits)

text \<open>
  The agent is selected from the very merge of the field's values that the signature covers: in the
  dictionary form its item is the one whose serialisation the signature base contains.
\<close>

lemma select_agent_Ok:
  assumes "select_agent S values key legacy = Ok a"
  shows "sel_form a = Dictionary \<and> (\<exists>k d. key = Some k \<and> merge_dictionaries S [] values = Some d \<and>
           map_of d k = Some (Item (sel_item a))) \<or>
         sel_form a = LegacyItem \<and> legacy \<and> key = None \<and> merge_dictionaries S [] values = None \<and>
           (\<exists>v. values = [v] \<and> parse_item S v = Some (sel_item a))"
proof (cases "merge_dictionaries S [] values")
  case None
  then have "agent_dictionary S [] values = (fst (agent_dictionary S [] values), False)"
    using agent_dictionary_merge [of S "[]" "values"] by simp
  with assms None show ?thesis
    by (auto simp: select_agent_def length_Suc_conv split: prod.splits if_splits option.splits)
next
  case (Some d)
  then have "agent_dictionary S [] values = (d, True)"
    using agent_dictionary_merge [of S "[]" "values"] by simp
  with assms Some show ?thesis
    by (auto simp: select_agent_def bind_eq_Some_conv split: option.splits list_entry.splits)
qed

lemma select_agent_signed:
  assumes "select_agent S (rc_signature_agent r) key legacy = Ok a"
  shows "sel_form a = Dictionary \<Longrightarrow>
           \<exists>k. key = Some k \<and> lookup_component S r (agent_field [Key k]) = [serialize_item S (sel_item a)]"
    and "sel_form a = LegacyItem \<Longrightarrow>
           \<exists>v. lookup_component S r (agent_field []) = [v] \<and> parse_item S v = Some (sel_item a)"
  using select_agent_Ok [OF assms]
  by (auto simp: lookup_component_def agent_field_def HEADER_SIGNATURE_AGENT_def
      select_dictionary_member_def)

lemma parse_agent_string:
  assumes "parse_agent item = Ok (url, d)"
  shows "as_string (bare_item item) = Some url"
proof (cases "as_string (bare_item item)")
  case (Some u)
  with assms show ?thesis
    by (auto simp: parse_agent_def ok_or_def split: option.splits if_splits)
qed (use assms in \<open>simp add: parse_agent_def ok_or_def\<close>)

lemma VerificationCandidate_parse_OkE:
  assumes "VerificationCandidate_parse S W U r legacy required now max_lifetime skew = Ok c"
  obtains label key agent target where
    "profile_signature_label S (rc_signature_input r) = Ok label"
    "signature_agent_key_from_input S W (rc_signature_input r) label = Ok key"
    "select_agent S (rc_signature_agent r) key legacy = Ok agent"
    "wba_parse W (lookup_component S r) = Some (cand_verifier c)"
    "wba_label W (cand_verifier c) = label"
    "signed_agent_member_key (map fst (wba_components W (cand_verifier c))) = Ok key"
    "supported_algorithm (wba_raw W (cand_verifier c))"
    "validate_freshness (wba_created W (cand_verifier c)) (wba_expires W (cand_verifier c))
       now max_lifetime skew = Ok ()"
    "validate_coverage (map fst (wba_components W (cand_verifier c))) key (sel_form agent) required = Ok ()"
    "wba_keyid W (cand_verifier c) = Some (cand_key_id c)"
    "cand_key_id c \<noteq> []" "length (cand_key_id c) \<le> MAX_KEY_ID_BYTES"
    "parse_agent (sel_item agent) = Ok (cand_signed_url c, cand_discovery c)"
    "parse_discovery_target U (cand_signed_url c) (cand_discovery c) = Ok target"
    "cand_identifier c = target_identifier target"
proof -
  from assms obtain label key agent v url d key_id target where f:
    "profile_signature_label S (rc_signature_input r) = Ok label"
    "signature_agent_key_from_input S W (rc_signature_input r) label = Ok key"
    "select_agent S (rc_signature_agent r) key legacy = Ok agent"
    "wba_parse W (lookup_component S r) = Some v" "wba_label W v = label"
    "signed_agent_member_key (map fst (wba_components W v)) = Ok key"
    "supported_algorithm (wba_raw W v)"
    "validate_freshness (wba_created W v) (wba_expires W v) now max_lifetime skew = Ok ()"
    "validate_coverage (map fst (wba_components W v)) key (sel_form agent) required = Ok ()"
    "wba_keyid W v = Some key_id" "key_id \<noteq> []" "length key_id \<le> MAX_KEY_ID_BYTES"
    "parse_agent (sel_item agent) = Ok (url, d)"
    "parse_discovery_target U url d = Ok target"
    and c: "c = \<lparr>cand_verifier = v, cand_discovery = d, cand_signed_url = url,
         cand_identifier = target_identifier target, cand_key_id = key_id\<rparr>"
    unfolding VerificationCandidate_parse_def Let_def
    by (simp only: res_bind_Ok_iff ok_or_iff ensure_iff map_err_iff split_paired_Ex prod.case res.inject)
      (elim exE conjE, hypsubst, rule that; (assumption | simp))
  have "cand_verifier c = v" "cand_discovery c = d" "cand_signed_url c = url"
    "cand_identifier c = target_identifier target" "cand_key_id c = key_id"
    by (simp_all add: c)
  with f show thesis
    by - (rule that [of label key agent target]; simp)
qed

lemma parse_discovery_target_not_Panic:
  assumes "url_laws U"
  shows "parse_discovery_target U v d \<noteq> Panic"
  by (rule parse_discovery_target_cases [OF assms, of v d]) simp_all

lemma candidate_checks_not_Panic [simp]:
  "profile_signature_label S vs \<noteq> Panic"
  "agent_member ps \<noteq> Panic"
  "signed_agent_member_key cs \<noteq> Panic"
  "signature_agent_key_from_input S W vs label \<noteq> Panic"
  "select_agent S vs key legacy \<noteq> Panic"
  "validate_freshness created expires now max_lifetime skew \<noteq> Panic"
  "validate_coverage cs key form required \<noteq> Panic"
  "parse_agent item \<noteq> Panic"
proof -
  have "collect_profile_labels S vs \<noteq> Panic" for vs
    by (induction vs) (auto simp: res_simps split: option.splits)
  then show "profile_signature_label S vs \<noteq> Panic"
    by (auto simp: profile_signature_label_def res_simps split: list.splits)
  show m: "agent_member ps \<noteq> Panic" for ps
    by (auto simp: agent_member_def split: list.splits HTTPFieldParameters.splits)
  show "signed_agent_member_key cs \<noteq> Panic"
    by (induction cs) (auto simp: m split: CoveredComponent.splits)
  have "agent_key_in_items W items \<noteq> Panic" for items
    by (induction items) (auto simp: m split: CoveredComponent.splits option.splits)
  then show "signature_agent_key_from_input S W vs label \<noteq> Panic"
    by (induction vs) (auto split: option.splits list_entry.splits)
  show "select_agent S vs key legacy \<noteq> Panic"
    by (auto simp: select_agent_def split: prod.splits option.splits list_entry.splits)
  show "validate_freshness created expires now max_lifetime skew \<noteq> Panic"
    using validate_freshness_cases [of created expires now max_lifetime skew] by auto
  show "validate_coverage cs key form required \<noteq> Panic"
    by (simp add: validate_coverage_eq)
  show "parse_agent item \<noteq> Panic"
    by (auto simp: parse_agent_def res_simps split: option.splits)
qed

section \<open>A sample request\<close>

text \<open>
  An instance of the parameters for the witnesses: a parser that knows the two field values of
  \<^const>\<open>sample_headers\<close>, and a signature library that reads one fixed signature from it.
\<close>

definition sample_sfv :: sfv_api where
  "sample_sfv =
     \<lparr>parse_dictionary = (\<lambda>s.
        if s = ''s=()'' then
          Some [(''s'', InnerList
                  \<lparr>inner_items = [\<lparr>bare_item = SfString ''signature-agent'',
                                   item_params = [(''key'', SfString ''s'')]\<rparr>],
                   inner_params = [(''tag'', SfString ''web-bot-auth'')]\<rparr>)]
        else if s = ''s=u'' then
          Some [(''s'', Item \<lparr>bare_item = SfString ''https://a.test'', item_params = []\<rparr>)]
        else None),
      parse_item = (\<lambda>_. None), serialize_item = (\<lambda>_. ''u'')\<rparr>"

definition sample_wba :: "(unit, unit) wba_api" where
  "sample_wba =
     \<lparr>wba_parse = (\<lambda>_. Some ()), wba_label = (\<lambda>_. ''s''),
      wba_components = (\<lambda>_. [(Derived (Authority False), ''a.test''), (agent_field [Key ''s''], ''u'')]),
      wba_raw = (\<lambda>_. [(''alg'', SfString ''ed25519'')]),
      wba_created = (\<lambda>_. Some 100), wba_expires = (\<lambda>_. Some 200), wba_keyid = (\<lambda>_. Some ''k''),
      component_try_from = (\<lambda>_. Some (agent_field [Key ''s''])),
      okp_thumbprint = (\<lambda>_ x. x), try_import_jwk = (\<lambda>_ _. Some ()), wba_verify = (\<lambda>_ _. True)\<rparr>"

definition sample_request :: RequestComponents where
  "sample_request =
     \<lparr>rc_method = ''GET'', rc_scheme = ''https'', rc_authority = ''a.test'', rc_path = ''/p'',
      rc_query = ''?q=1'', rc_signature = [''s=:AA==:''], rc_signature_input = [''s=()''],
      rc_signature_agent = [''s=u'']\<rparr>"

definition sample_candidate :: "unit VerificationCandidate" where
  "sample_candidate =
     \<lparr>cand_verifier = (), cand_discovery = Directory, cand_signed_url = ''https://a.test'',
      cand_identifier = ''https://a.test'' @ DIRECTORY_PATH, cand_key_id = ''k''\<rparr>"

lemma parse_discovery_target_sample:
  "parse_discovery_target plain_url_api ''https://a.test'' Directory =
     Ok \<lparr>target_fetch_url = \<lparr>pu_scheme = ''https'', pu_host = Some ''a.test'', pu_path = DIRECTORY_PATH,
                            pu_query = None, pu_fragment = None\<rparr>,
         target_identifier = ''https://a.test'' @ DIRECTORY_PATH\<rparr>"
  by code_simp

lemma candidate_sample:
  "VerificationCandidate_parse sample_sfv sample_wba plain_url_api sample_request False [''@authority'']
     150 86400 5 = Ok sample_candidate"
proof -
  have f: "validate_freshness (Some 100) (Some 200) 150 86400 5 = Ok ()"
    by (simp add: validate_freshness_Ok)
  show ?thesis
    by (simp add: VerificationCandidate_parse_def sample_sfv_def sample_wba_def sample_request_def
        sample_candidate_def profile_signature_label_def has_profile_tag_def agent_field_def
        agent_member_def select_agent_def dict_extend_def f ensure_def ok_or_def
        supported_algorithm_def validate_coverage_eq covers_origin_def covers_agent_def parse_agent_def
        MAX_KEY_ID_BYTES_def parse_discovery_target_sample)
qed

section \<open>Properties\<close>

text \<open>
  C18. The freshness window, over the integers although the code works on 64-bit words with checked and
  saturating operations: a signature is fresh exactly when it has both times, the skew fits \<open>i64\<close>, the
  lifetime is neither negative nor longer than the maximum (nor beyond \<open>i64\<close>), it was created no
  later than the skew after now and expires no earlier than the skew before now. In every other case,
  overflow included, the answer is \<open>InvalidFreshness\<close>.
\<close>

theorem freshness_window:
  "validate_freshness created expires now max_lifetime clock_skew =
     (if \<exists>c e. created = Some c \<and> expires = Some e \<and> uint clock_skew < 2 ^ 63 \<and>
               0 \<le> sint e - sint c \<and> sint e - sint c < 2 ^ 63 \<and> sint e - sint c \<le> uint max_lifetime \<and>
               sint c \<le> sint now + uint clock_skew \<and> sint now - uint clock_skew \<le> sint e
      then Ok () else Err CandidateError.InvalidFreshness)"
  using validate_freshness_Ok [of created expires now max_lifetime clock_skew]
    validate_freshness_cases [of created expires now max_lifetime clock_skew]
  by (auto simp del: not_less not_le)

text \<open>
  C19. Coverage: the covered components are accepted exactly when they include the authority or the target
  URI, bind the agent field in the form it was read (the member with the selected key, or the whole
  legacy field) and cover every required name.
\<close>

theorem coverage_accepted_iff:
  "validate_coverage components agent_key form required = Ok () \<longleftrightarrow>
     (Derived (Authority False) \<in> set components \<or> Derived (TargetUri False) \<in> set components) \<and>
     (case form of
        Dictionary \<Rightarrow> (\<exists>k. agent_key = Some k \<and> agent_field [Key k] \<in> set components)
      | LegacyItem \<Rightarrow> agent_field [] \<in> set components) \<and>
     set required \<subseteq> {n. \<exists>x. x \<in> set components \<and> component_covers x n}"
  by (auto simp: validate_coverage_eq covers_origin_def covers_agent_def)

text \<open>
  C40. Two names the settings accept as required components can never be covered: with \<open>@scheme\<close> or \<open>@query\<close>
  required, every signature is refused, whatever it covers (field names never start with \<open>@\<close>).
\<close>

theorem required_scheme_or_query_never_covered:
  assumes "n \<in> {''@scheme'', ''@query''}" and "n \<in> set required"
    and "\<And>f. HTTP f \<in> set components \<Longrightarrow> field_name f \<noteq> n"
  shows "valid_component_name n \<and> validate_coverage components agent_key form required \<noteq> Ok ()"
proof
  show "valid_component_name n"
    using assms(1) by (auto simp: valid_component_name_def)
  have "\<not> component_covers x n" if "x \<in> set components" for x
    using assms(1) assms(3) that by (cases "(x, n)" rule: component_covers.cases) auto
  with assms(2) show "validate_coverage components agent_key form required \<noteq> Ok ()"
    by (auto simp: validate_coverage_eq)
qed

theorem required_scheme_or_query_never_covered_witness:
  "validate_coverage [Derived (Authority False), Derived (Query False), agent_field [Key ''s'']]
     (Some ''s'') Dictionary [''@query''] \<noteq> Ok ()"
  by (rule required_scheme_or_query_never_covered [of "''@query''", THEN conjunct2])
    (auto simp: agent_field_def)

text \<open>
  C11. The agent URL that names the caller is signed: when a request is accepted as a candidate, the covered
  components contain the agent field in the form it was read, its value in the signed message is the
  serialisation of the item (or, in the legacy form, the field value it was parsed from), and the
  candidate's URL is that item's string.
\<close>

theorem candidate_url_is_signed:
  assumes "VerificationCandidate_parse S W U r legacy required now max_lifetime skew = Ok c"
  obtains item ps where
    "agent_field ps \<in> set (map fst (wba_components W (cand_verifier c)))"
    "wba_parse W (lookup_component S r) = Some (cand_verifier c)"
    "as_string (bare_item item) = Some (cand_signed_url c)"
    "(\<exists>k. ps = [Key k]) \<and> lookup_component S r (agent_field ps) = [serialize_item S item] \<or>
     legacy \<and> ps = [] \<and> (\<exists>v. lookup_component S r (agent_field ps) = [v] \<and> parse_item S v = Some item)"
  using assms
proof (rule VerificationCandidate_parse_OkE)
  fix key agent
  assume w: "wba_parse W (lookup_component S r) = Some (cand_verifier c)"
    and s: "select_agent S (rc_signature_agent r) key legacy = Ok agent"
    and cov: "validate_coverage (map fst (wba_components W (cand_verifier c))) key (sel_form agent) required = Ok ()"
    and a: "parse_agent (sel_item agent) = Ok (cand_signed_url c, cand_discovery c)"
  have str: "as_string (bare_item (sel_item agent)) = Some (cand_signed_url c)"
    using a by (rule parse_agent_string)
  have bound: "covers_agent (map fst (wba_components W (cand_verifier c))) key (sel_form agent)"
    using cov by (simp add: validate_coverage_eq split: if_splits)
  show thesis
  proof (cases "sel_form agent")
    case Dictionary
    with bound select_agent_signed(1) [OF s] obtain k where
      "agent_field [Key k] \<in> set (map fst (wba_components W (cand_verifier c)))"
      "lookup_component S r (agent_field [Key k]) = [serialize_item S (sel_item agent)]"
      by (auto simp: covers_agent_def)
    with w str show thesis by (intro that) auto
  next
    case LegacyItem
    with bound select_agent_signed(2) [OF s] select_agent_Ok [OF s] obtain v where
      "agent_field [] \<in> set (map fst (wba_components W (cand_verifier c)))" "legacy"
      "lookup_component S r (agent_field []) = [v]" "parse_item S v = Some (sel_item agent)"
      by (auto simp: covers_agent_def)
    with w str show thesis by (intro that) auto
  qed
qed

theorem candidate_url_is_signed_witness:
  "\<exists>ps. agent_field ps \<in> set (map fst (wba_components sample_wba ())) \<and>
        length (lookup_component sample_sfv sample_request (agent_field ps)) = 1"
  by (rule candidate_url_is_signed [OF candidate_sample]) (auto simp: sample_candidate_def)

text \<open>
  C12. What holds of every candidate: it is fresh, covers the origin and every required component, its key id
  has between 1 and 512 bytes, its algorithm is \<open>ed25519\<close> or unnamed, its URL is accepted by
  \<open>parse_discovery_target\<close> under its own mechanism and its identifier is that target's. Parsing is
  total: no request makes it panic.
\<close>

theorem candidate_sound:
  assumes "url_laws U"
  shows "VerificationCandidate_parse S W U r legacy required now max_lifetime skew \<noteq> Panic \<and>
    (VerificationCandidate_parse S W U r legacy required now max_lifetime skew = Ok c \<longrightarrow>
       validate_freshness (wba_created W (cand_verifier c)) (wba_expires W (cand_verifier c))
         now max_lifetime skew = Ok () \<and>
       covers_origin (map fst (wba_components W (cand_verifier c))) \<and>
       (\<forall>n \<in> set required. \<exists>x \<in> set (wba_components W (cand_verifier c)). component_covers (fst x) n) \<and>
       supported_algorithm (wba_raw W (cand_verifier c)) \<and>
       wba_keyid W (cand_verifier c) = Some (cand_key_id c) \<and>
       1 \<le> length (cand_key_id c) \<and> length (cand_key_id c) \<le> 512 \<and>
       (\<exists>t. parse_discovery_target U (cand_signed_url c) (cand_discovery c) = Ok t \<and>
            cand_identifier c = target_identifier t))"
proof (rule conjI, goal_cases)
  case 1
  show "VerificationCandidate_parse S W U r legacy required now max_lifetime skew \<noteq> Panic"
    by (simp add: VerificationCandidate_parse_def Let_def res_bind_Panic_iff map_err_iff ok_or_iff
        ensure_iff parse_discovery_target_not_Panic [OF assms] split: prod.splits)
next
  case 2
  show ?case
    by (intro impI, erule VerificationCandidate_parse_OkE)
      (simp add: validate_coverage_eq MAX_KEY_ID_BYTES_def Suc_le_eq split: if_splits)
qed

theorem candidate_sound_witness:
  "VerificationCandidate_parse sample_sfv sample_wba plain_url_api sample_request False [''@authority'']
     150 86400 5 \<noteq> Panic \<and> length (cand_key_id sample_candidate) \<le> 512"
  using candidate_sound [OF url_laws_plain] candidate_sample by blast

end
