(* ===== verification/Verify.thy ===== *)
theory Verify
  imports Candidate
begin

text \<open>
  Checking the resolver's answer and the signature, \<open>crates/module/src/verify.rs\<close>.
\<close>

section \<open>The response\<close>

text \<open>\<open>response_status\<close>: the first \<open>:status\<close> header that is valid UTF-8 and parses.\<close>

fun find_status :: "(string \<times> string) list \<Rightarrow> nat option" where
  "find_status [] = None"
| "find_status ((name, value) # headers) =
     (if name = '':status'' then
        (case (if valid_utf8 value then parse_unsigned 32 value else None) of
           Some status \<Rightarrow> Some status
         | None \<Rightarrow> find_status headers)
      else find_status headers)"

definition response_status :: "(string \<times> string) list option \<Rightarrow> nat option" where
  "response_status headers = Option.bind headers find_status"

fun chunks_length :: "nat \<Rightarrow> string list \<Rightarrow> nat option" where
  "chunks_length len [] = Some len"
| "chunks_length len (chunk # chunks) =
     (case checked_add_usize len (length chunk) of
        None \<Rightarrow> None | Some len \<Rightarrow> chunks_length len chunks)"

definition join_response_body :: "string list \<Rightarrow> string option" where
  "join_response_body chunks =
     (case chunks_length 0 chunks of
        None \<Rightarrow> None
      | Some len \<Rightarrow>
          if len > MAX_RESOLVE_BODY_BYTES then None
          else Some (fold (\<lambda>chunk body. body @ chunk) chunks []))"

section \<open>The decision\<close>

text \<open>The response is an error reason (\<^const>\<open>Inl\<close>) or a decoded answer (\<^const>\<open>Inr\<close>).\<close>

definition verify_resolver_response ::
  "('v, 'k) wba_api \<Rightarrow> 'v VerificationCandidate \<Rightarrow> Reason + ResolveResponse \<Rightarrow> VerificationResult" where
  "verify_resolver_response W candidate response =
     (case response of
        Inl reason \<Rightarrow> Unverified UnverifiedKind.Unavailable reason
      | Inr (ResolveResponse.KeyNotFound normalized_identifier) \<Rightarrow>
          (if normalized_identifier = cand_identifier candidate
           then Unverified UnverifiedKind.KeyNotFound Reason.KeyNotFound
           else Unverified UnverifiedKind.Unavailable Reason.ResolverIdentifier)
      | Inr (Resolved normalized_identifier wire_jwk) \<Rightarrow>
          (if normalized_identifier \<noteq> cand_identifier candidate
           then Unverified UnverifiedKind.Unavailable Reason.ResolverIdentifier
           else if okp_thumbprint W ''Ed25519'' (jwk_x wire_jwk) \<noteq> cand_key_id candidate
           then Unverified UnverifiedKind.Unavailable Reason.KeyThumbprint
           else case try_import_jwk W ''Ed25519'' (jwk_x wire_jwk) of
             None \<Rightarrow> Unverified UnverifiedKind.Unavailable Reason.KeyAlgorithm
           | Some keyring \<Rightarrow>
               (if \<not> wba_verify W (cand_verifier candidate) keyring
                then Invalid InvalidKind.Rejected Reason.SignatureVerification
                else VerificationResult.Verified
                       \<lparr>vi_identifier = normalized_identifier, vi_key_id = cand_key_id candidate\<rparr>)))"

section \<open>Facts\<close>

lemma chunks_length_Some:
  "chunks_length n chunks = Some m \<longleftrightarrow> m = n + total_length chunks \<and> (chunks \<noteq> [] \<longrightarrow> m \<le> USIZE_MAX)"
proof (induction chunks arbitrary: n)
  case (Cons chunk chunks)
  show ?case
  proof (cases "n + length chunk \<le> USIZE_MAX")
    case True
    then show ?thesis
      by (cases "chunks = []") (auto simp: checked_add_usize_def Cons.IH add.assoc)
  qed (auto simp: checked_add_usize_def)
qed auto

lemma fold_append_concat: "fold (\<lambda>chunk body. body @ chunk) chunks b = b @ concat chunks"
  by (induction chunks arbitrary: b) auto

lemma length_concat_total: "length (concat chunks) = total_length chunks"
  by (induction chunks) auto

lemma join_response_body_eq:
  "join_response_body chunks =
     (if length (concat chunks) \<le> MAX_RESOLVE_BODY_BYTES then Some (concat chunks) else None)"
proof (cases "chunks_length 0 chunks")
  case None
  then have "chunks \<noteq> []" "\<not> total_length chunks \<le> USIZE_MAX"
    using chunks_length_Some [of 0 chunks "total_length chunks"] by auto
  then have "\<not> total_length chunks \<le> MAX_RESOLVE_BODY_BYTES"
    by (simp add: USIZE_MAX_def MAX_RESOLVE_BODY_BYTES_def)
  with None show ?thesis by (simp add: join_response_body_def length_concat_total)
next
  case (Some len)
  then have "len = total_length chunks" by (simp add: chunks_length_Some)
  with Some show ?thesis
    by (simp add: join_response_body_def fold_append_concat
        length_concat_total)
qed

lemma verify_Verified_iff:
  "verify_resolver_response W c response = VerificationResult.Verified i \<longleftrightarrow>
     (\<exists>jwk keyring. response = Inr (Resolved (cand_identifier c) jwk) \<and>
        okp_thumbprint W ''Ed25519'' (jwk_x jwk) = cand_key_id c \<and>
        try_import_jwk W ''Ed25519'' (jwk_x jwk) = Some keyring \<and>
        wba_verify W (cand_verifier c) keyring \<and>
        i = \<lparr>vi_identifier = cand_identifier c, vi_key_id = cand_key_id c\<rparr>)"
  by (auto simp: verify_resolver_response_def
      split: sum.splits ResolveResponse.splits option.splits if_splits)

lemma verify_not_NotPresent [simp]: "verify_resolver_response W c response \<noteq> NotPresent x"
  by (auto simp: verify_resolver_response_def
      split: sum.splits ResolveResponse.splits option.splits if_splits)

section \<open>Properties\<close>

text \<open>
  The resolver's body is read within its bound: joining the chunks gives their concatenation exactly
  when it is at most 8 KiB long, and nothing otherwise.
\<close>

lemma join_response_body_bounded:
  "join_response_body chunks = (if length (concat chunks) \<le> 8192 then Some (concat chunks) else None)"
  by (simp add: join_response_body_eq MAX_RESOLVE_BODY_BYTES_def)

text \<open>
  C10. When a caller is verified: exactly when the resolver answered with a key for the identifier the
  candidate was parsed with, the thumbprint of that very key is the signed key id, the key can be
  imported, and the signature verifies under it. The identity is then the candidate's identifier and
  key id. An answer for another identifier or with another key never verifies nor blames the caller:
  the only result that calls the request invalid is a signature that fails under the right key.
\<close>

theorem verified_exactly_when:
  "(verify_resolver_response W c response = VerificationResult.Verified i \<longleftrightarrow>
     (\<exists>jwk keyring. response = Inr (Resolved (cand_identifier c) jwk) \<and>
        okp_thumbprint W ''Ed25519'' (jwk_x jwk) = cand_key_id c \<and>
        try_import_jwk W ''Ed25519'' (jwk_x jwk) = Some keyring \<and>
        wba_verify W (cand_verifier c) keyring \<and>
        i = \<lparr>vi_identifier = cand_identifier c, vi_key_id = cand_key_id c\<rparr>)) \<and>
   (verify_resolver_response W c response = Invalid k x \<longleftrightarrow>
     k = InvalidKind.Rejected \<and> x = Reason.SignatureVerification \<and>
     (\<exists>jwk keyring. response = Inr (Resolved (cand_identifier c) jwk) \<and>
        okp_thumbprint W ''Ed25519'' (jwk_x jwk) = cand_key_id c \<and>
        try_import_jwk W ''Ed25519'' (jwk_x jwk) = Some keyring \<and>
        \<not> wba_verify W (cand_verifier c) keyring)) \<and>
   (verify_resolver_response W c response = Unverified UnverifiedKind.KeyNotFound x \<longleftrightarrow>
     x = Reason.KeyNotFound \<and> response = Inr (ResolveResponse.KeyNotFound (cand_identifier c)))"
  by (auto simp: verify_resolver_response_def
      split: sum.splits ResolveResponse.splits option.splits if_splits)

end
