(* ===== verification/Envoy_Filter.thy ===== *)
theory Envoy_Filter
  imports Verify
begin

text \<open>
  The Envoy filter, \<open>crates/module/src/filter.rs\<close>, and its configuration, \<open>crates/module/src/lib.rs\<close>: the
  two callbacks as functions on the filter's state and on what Envoy sees, namely the request headers
  and the log of the calls made on the host, and the stream they drive as a step relation.
\<close>

section \<open>State\<close>

datatype effect =
    SetMetadataStrings string "(string \<times> string) list"
  | SetMetadataBool string string bool
  | IncrementCounter nat "string list" nat
  | RecordHistogram nat "string list" nat
  | SendResponse nat "(string \<times> string) list" string string
  | SendHttpCallout string "(string \<times> string) list" string u64
  | ContinueDecoding
  | LogError string

record 'h envoy =
  env_headers :: 'h
  env_log :: "effect list"

definition emit :: "effect \<Rightarrow> 'h envoy \<Rightarrow> 'h envoy" where
  "emit e env = env\<lparr>env_log := env_log env @ [e]\<rparr>"

text \<open>The libraries a callback uses: headers, structured fields, signatures, URLs and JSON.\<close>

record ('h, 'v, 'k, 'u) module_api =
  m_headers :: "'h header_api"
  m_sfv :: sfv_api
  m_wba :: "('v, 'k) wba_api"
  m_url :: "'u url_api"
  m_to_vec :: "ResolveRequest \<Rightarrow> string option"
  m_from_slice :: "string \<Rightarrow> ResolveResponse option"

record 'v PendingVerification =
  pend_callout_id :: u64
  pend_candidate :: "'v VerificationCandidate"
  pend_started_at :: nat

record 'v WebBotAuthFilter =
  flt_settings :: Settings
  flt_pending :: "'v PendingVerification option"
  flt_outcome_counter :: "nat option"
  flt_duration_histogram :: "nat option"

definition WebBotAuthFilter_new ::
  "Settings \<Rightarrow> nat option \<Rightarrow> nat option \<Rightarrow> 'v WebBotAuthFilter" where
  "WebBotAuthFilter_new settings outcome_counter duration_histogram =
     \<lparr>flt_settings = settings, flt_pending = None, flt_outcome_counter = outcome_counter,
      flt_duration_histogram = duration_histogram\<rparr>"

text \<open>
  \<open>new_http_filter_config\<close>: the name, then the settings; a metric that cannot be defined is left out.
  The result's components are the fields of \<open>WebBotAuthConfig\<close>.
\<close>

type_synonym WebBotAuthConfig = "Settings \<times> nat option \<times> nat option"

definition program_init :: bool where "program_init = True"

definition new_http_filter_config ::
  "(string \<Rightarrow> (Settings, 'j) res) \<Rightarrow> nat option \<Rightarrow> nat option \<Rightarrow> string \<Rightarrow> string \<Rightarrow>
   WebBotAuthConfig option" where
  "new_http_filter_config from_slice counter histogram name config =
     (if name \<noteq> ''web-bot-auth'' then None
      else case Settings_parse from_slice config of
        Ok settings \<Rightarrow> Some (settings, counter, histogram)
      | _ \<Rightarrow> None)"

fun new_http_filter :: "WebBotAuthConfig \<Rightarrow> 'v WebBotAuthFilter" where
  "new_http_filter (settings, counter, histogram) = WebBotAuthFilter_new settings counter histogram"

section \<open>Applying a result\<close>

datatype headers_status = Continue | StopIteration | StopAllIterationAndWatermark

definition set_request_header :: "'h header_api \<Rightarrow> string \<Rightarrow> string \<Rightarrow> 'h envoy \<Rightarrow> 'h envoy" where
  "set_request_header H name value env = env\<lparr>env_headers := hdr_set H name value (env_headers env)\<rparr>"

definition rejection_body :: "nat \<Rightarrow> string" where
  "rejection_body status =
     (if status = 400 then ''malformed Web Bot Auth request'' @ [CHR 0x0A]
      else if status = 503 then ''Web Bot Auth verification unavailable'' @ [CHR 0x0A]
      else ''Web Bot Auth required or invalid'' @ [CHR 0x0A])"

definition challenge_value :: string where
  "challenge_value =
     ''sig=('' @ [CHR 0x22] @ ''@method'' @ [CHR 0x22] @ '' '' @ [CHR 0x22] @ ''@authority'' @ [CHR 0x22] @
     '' '' @ [CHR 0x22] @ ''@path'' @ [CHR 0x22] @ '' '' @ [CHR 0x22] @ ''signature-agent'' @ [CHR 0x22] @
     '';key='' @ [CHR 0x22] @ ''sig'' @ [CHR 0x22] @ '');alg='' @ [CHR 0x22] @ ''ed25519'' @ [CHR 0x22] @
     '';tag='' @ [CHR 0x22] @ ''web-bot-auth'' @ [CHR 0x22]"

definition rejection_headers :: "bool \<Rightarrow> (string \<times> string) list" where
  "rejection_headers challenge =
     (let plain = (''content-type'', ''text/plain; charset=utf-8'') in
      if challenge then [plain, (''accept-signature'', challenge_value)] else [plain])"

definition report_result ::
  "'v WebBotAuthFilter \<Rightarrow> VerificationResult \<Rightarrow> 'h envoy \<Rightarrow> 'h envoy" where
  "report_result f result env =
     (let status = result_status result;
          reason = Reason_as_str (result_reason result);
          env = emit (SetMetadataStrings METADATA_NAMESPACE [(''status'', status), (''reason'', reason)]) env;
          env = (case flt_outcome_counter f of
                   Some counter \<Rightarrow> emit (IncrementCounter counter [status, reason] 1) env
                 | None \<Rightarrow> env);
          env = emit (SetMetadataBool METADATA_NAMESPACE ''verified''
                  (case result of VerificationResult.Verified _ \<Rightarrow> True | _ \<Rightarrow> False)) env
      in case result_identity result of
           Some identity \<Rightarrow>
             emit (SetMetadataStrings METADATA_NAMESPACE
               [(''identity'', vi_identifier identity), (''keyid'', vi_key_id identity)]) env
         | None \<Rightarrow> env)"

definition forward_identity ::
  "'h header_api \<Rightarrow> 'v WebBotAuthFilter \<Rightarrow> VerificationResult \<Rightarrow> 'h envoy \<Rightarrow> 'h envoy" where
  "forward_identity H f result env =
     (if cfg_forward_identity_headers (flt_settings f) then
        let env = set_request_header H HEADER_STATUS (result_status result) env in
        case result_identity result of
          Some identity \<Rightarrow>
            set_request_header H HEADER_KEY_ID (vi_key_id identity)
              (set_request_header H HEADER_IDENTITY (vi_identifier identity) env)
        | None \<Rightarrow> env
      else env)"

definition apply_result ::
  "'h header_api \<Rightarrow> 'v WebBotAuthFilter \<Rightarrow> 'h envoy \<Rightarrow> VerificationResult \<Rightarrow> Admission \<times> 'h envoy" where
  "apply_result H f env result =
     (let env = forward_identity H f result (report_result f result env);
          decision = admission (cfg_mode (flt_settings f)) result
      in case decision of
           Reject status challenge \<Rightarrow>
             (decision, emit (SendResponse status (rejection_headers challenge) (rejection_body status)
                                ''web_bot_auth_denied'') env)
         | Allow \<Rightarrow> (decision, env))"

definition finish ::
  "'h header_api \<Rightarrow> 'v WebBotAuthFilter \<Rightarrow> 'h envoy \<Rightarrow> VerificationResult \<Rightarrow> headers_status \<times> 'h envoy" where
  "finish H f env result =
     (case apply_result H f env result of
        (Allow, env) \<Rightarrow> (Continue, env)
      | (Reject _ _, env) \<Rightarrow> (StopIteration, env))"

section \<open>Callbacks\<close>

text \<open>A clock reading is in nanoseconds; \<open>elapsed\<close> saturates at zero and the value at \<open>u64::MAX\<close>.\<close>

definition record_duration ::
  "nat option \<Rightarrow> string \<Rightarrow> string \<Rightarrow> nat \<Rightarrow> nat \<Rightarrow> 'h envoy \<Rightarrow> 'h envoy" where
  "record_duration histogram phase result started_at now env =
     (case histogram of
        Some histogram \<Rightarrow>
          emit (RecordHistogram histogram [phase, result] (min ((now - started_at) div 1000) (2 ^ 64 - 1))) env
      | None \<Rightarrow> env)"

text \<open>The wall clock: \<open>None\<close> before the epoch, otherwise the seconds since it.\<close>

definition unix_time :: "u64 option \<Rightarrow> i64" where
  "unix_time since_epoch =
     (case Option.bind since_epoch i64_try_from_u64 of Some seconds \<Rightarrow> seconds | None \<Rightarrow> I64_MAX)"

definition sanitize_assertion_headers :: "'h header_api \<Rightarrow> 'h envoy \<Rightarrow> 'h envoy" where
  "sanitize_assertion_headers H env =
     fold (\<lambda>header env. env\<lparr>env_headers := hdr_remove H header (env_headers env)\<rparr>)
       [HEADER_STATUS, HEADER_IDENTITY, HEADER_KEY_ID] env"

definition callout_headers :: "(string \<times> string) list" where
  "callout_headers =
     [('':method'', ''POST''), ('':path'', ''/v1/resolve''), (''host'', ''web-bot-auth-resolver''),
      (''content-type'', ''application/json''), (''accept'', ''application/json'')]"

text \<open>
  What the host supplies to \<open>on_request_headers\<close>: the successive readings of the monotonic clock, the
  wall clock, and the outcome of starting a callout with the id it was given.
\<close>

record host_inputs =
  clk :: "nat \<Rightarrow> nat"
  wall_clock :: "u64 option"
  callout_init :: "bool \<times> u64"

text \<open>The part of \<open>on_request_headers\<close> after the candidate is parsed: encode it and start the callout.\<close>

definition start_callout ::
  "('h, 'v, 'k, 'u) module_api \<Rightarrow> host_inputs \<Rightarrow> 'v WebBotAuthFilter \<Rightarrow> 'v VerificationCandidate \<Rightarrow>
   'h envoy \<Rightarrow> headers_status \<times> 'h envoy \<times> 'v WebBotAuthFilter" where
  "start_callout M inp f cand env =
     (let H = m_headers M;
          hist = flt_duration_histogram f;
          send_setup_started_at = clk inp 4;
          resolver_request = \<lparr>req_api_version = V1, req_discovery = cand_discovery cand,
            req_agent_url = cand_signed_url cand, req_key_id = cand_key_id cand\<rparr>;
          done = (\<lambda>env result. case finish H f env result of (status, env) \<Rightarrow> (status, env, f))
      in case m_to_vec M resolver_request of
           None \<Rightarrow>
             done (record_duration hist ''resolver_send'' ''error'' send_setup_started_at (clk inp 5) env)
               (Unverified UnverifiedKind.Unavailable Reason.ResolverEncoding)
         | Some body \<Rightarrow>
             if length body > MAX_RESOLVE_BODY_BYTES then
               done (record_duration hist ''resolver_send'' ''error'' send_setup_started_at (clk inp 5) env)
                 (Invalid InvalidKind.Malformed Reason.ProfileFieldTooLarge)
             else
               let started_at = clk inp 5;
                   settings = cfg_resolver (flt_settings f);
                   env = emit (SendHttpCallout (cfg_cluster settings) callout_headers body
                                 (cfg_timeout_ms settings)) env;
                   (success, cid) = callout_init inp
               in if \<not> success then
                    done (record_duration hist ''resolver_callout'' ''error'' started_at (clk inp 7)
                           (record_duration hist ''resolver_send'' ''error'' send_setup_started_at (clk inp 6) env))
                      (Unverified UnverifiedKind.Unavailable Reason.ResolverUnavailable)
                  else
                    (StopAllIterationAndWatermark,
                     record_duration hist ''resolver_send'' ''success'' send_setup_started_at (clk inp 6) env,
                     f\<lparr>flt_pending := Some \<lparr>pend_callout_id = cid, pend_candidate = cand,
                                             pend_started_at = started_at\<rparr>\<rparr>))"

text \<open>\<open>None\<close> is a panic, which the SDK's wrapper catches.\<close>

definition on_request_headers ::
  "('h, 'v, 'k, 'u) module_api \<Rightarrow> host_inputs \<Rightarrow> bool \<Rightarrow> 'v WebBotAuthFilter \<Rightarrow> 'h envoy \<Rightarrow>
   (headers_status \<times> 'h envoy \<times> 'v WebBotAuthFilter) option" where
  "on_request_headers M inp end_of_stream f env =
     (let H = m_headers M;
          hist = flt_duration_histogram f;
          settings = flt_settings f;
          env = sanitize_assertion_headers H env;
          has = (\<lambda>name. hdr_value H (env_headers env) name \<noteq> None);
          done = (\<lambda>env result. case finish H f env result of (status, env) \<Rightarrow> Some (status, env, f))
      in case classify_signature_headers (has HEADER_SIGNATURE) (has HEADER_SIGNATURE_INPUT)
                (has HEADER_SIGNATURE_AGENT) of
           SignatureHeaderState.Unsigned \<Rightarrow> done env (NotPresent Reason.Unsigned)
         | SignatureHeaderState.Incomplete \<Rightarrow>
             done env (Invalid InvalidKind.Malformed Reason.IncompleteFields)
         | SignatureHeaderState.Candidate \<Rightarrow>
             if \<not> end_of_stream then
               done env (Unverified UnverifiedKind.Unsupported Reason.RequestBodyUnsupported)
             else
               (case try_from_envoy H (env_headers env) of
                  Panic \<Rightarrow> None
                | Err _ \<Rightarrow>
                    done (record_duration hist ''candidate_capture'' ''error'' (clk inp 0) (clk inp 1) env)
                      (Invalid InvalidKind.Malformed Reason.RequestCapture)
                | Ok request \<Rightarrow>
                    let env = record_duration hist ''candidate_capture'' ''success'' (clk inp 0) (clk inp 1) env in
                    (case VerificationCandidate_parse (m_sfv M) (m_wba M) (m_url M) request
                            (cfg_accept_legacy_signature_agent settings)
                            (cfg_required_components settings)
                            (unix_time (wall_clock inp))
                            (cfg_max_signature_lifetime_seconds settings)
                            (cfg_clock_skew_seconds settings) of
                       Panic \<Rightarrow> None
                     | Err error \<Rightarrow>
                         done (record_duration hist ''candidate_parse'' ''error'' (clk inp 2) (clk inp 3) env)
                           (CandidateError_result error)
                     | Ok cand \<Rightarrow>
                         Some (start_callout M inp f cand
                           (record_duration hist ''candidate_parse'' ''success'' (clk inp 2) (clk inp 3) env)))))"

definition resume :: "'h header_api \<Rightarrow> 'v WebBotAuthFilter \<Rightarrow> 'h envoy \<Rightarrow> VerificationResult \<Rightarrow> 'h envoy" where
  "resume H f env result =
     (case apply_result H f env result of
        (Allow, env) \<Rightarrow> emit ContinueDecoding env
      | (Reject _ _, env) \<Rightarrow> env)"

definition on_http_callout_done ::
  "('h, 'v, 'k, 'u) module_api \<Rightarrow> (nat \<Rightarrow> nat) \<Rightarrow> u64 \<Rightarrow> bool \<Rightarrow> (string \<times> string) list option \<Rightarrow>
   string list option \<Rightarrow> 'v WebBotAuthFilter \<Rightarrow> 'h envoy \<Rightarrow> 'h envoy \<times> 'v WebBotAuthFilter" where
  "on_http_callout_done M clock cid success response_headers response_body f env =
     (case flt_pending f of
        None \<Rightarrow> (env, f)
      | Some pending \<Rightarrow>
          let f = f\<lparr>flt_pending := None\<rparr>;
              hist = flt_duration_histogram f
          in if pend_callout_id pending \<noteq> cid then
               let env = record_duration hist ''resolver_callout'' ''error''
                           (pend_started_at pending) (clock 0) env;
                   env = emit (LogError ''web-bot-auth reason=resolver_callout_mismatch'') env
               in (resume (m_headers M) f env
                     (Unverified UnverifiedKind.Unavailable Reason.ResolverCalloutMismatch), f)
             else
               let resolver_response =
                     (if \<not> success \<or> response_status response_headers \<noteq> Some 200
                      then Inl Reason.ResolverUnavailable
                      else case Option.bind (Option.bind response_body join_response_body) (m_from_slice M) of
                             Some response \<Rightarrow> Inr response
                           | None \<Rightarrow> Inl Reason.ResolverResponse);
                   env = record_duration hist ''resolver_callout''
                           (case resolver_response of Inr _ \<Rightarrow> ''success'' | Inl _ \<Rightarrow> ''error'')
                           (pend_started_at pending) (clock 0) env;
                   result = verify_resolver_response (m_wba M) (pend_candidate pending) resolver_response;
                   env = record_duration hist ''response_verify'' (result_status result)
                           (clock 1) (clock 2) env
               in (resume (m_headers M) f env result, f))"

section \<open>What a callback decides\<close>

text \<open>
  The calls that settle a request: the verdict in the metadata, a local response, and letting the
  request go on. Metrics, logs and the callout itself are not among them.
\<close>

fun decisive :: "effect \<Rightarrow> bool" where
  "decisive (SetMetadataBool _ _ _) = True"
| "decisive (SendResponse _ _ _ _) = True"
| "decisive ContinueDecoding = True"
| "decisive _ = False"

definition decisions :: "'h envoy \<Rightarrow> effect list" where
  "decisions env = filter decisive (env_log env)"

definition is_verified :: "VerificationResult \<Rightarrow> bool" where
  "is_verified r \<longleftrightarrow> result_identity r \<noteq> None"

definition verdict :: "Mode \<Rightarrow> VerificationResult \<Rightarrow> effect list" where
  "verdict m r =
     SetMetadataBool METADATA_NAMESPACE ''verified'' (is_verified r) #
     (case admission m r of
        Allow \<Rightarrow> []
      | Reject status challenge \<Rightarrow>
          [SendResponse status (rejection_headers challenge) (rejection_body status) ''web_bot_auth_denied''])"

definition result_headers :: "'h header_api \<Rightarrow> bool \<Rightarrow> VerificationResult \<Rightarrow> 'h \<Rightarrow> 'h" where
  "result_headers H forward r h =
     (if forward then
        (case result_identity r of
           Some i \<Rightarrow> hdr_set H HEADER_KEY_ID (vi_key_id i) (hdr_set H HEADER_IDENTITY (vi_identifier i)
                      (hdr_set H HEADER_STATUS (result_status r) h))
         | None \<Rightarrow> hdr_set H HEADER_STATUS (result_status r) h)
      else h)"

definition sanitized :: "'h header_api \<Rightarrow> 'h \<Rightarrow> 'h" where
  "sanitized H h = hdr_remove H HEADER_KEY_ID (hdr_remove H HEADER_IDENTITY (hdr_remove H HEADER_STATUS h))"

lemma emit_simps [simp]:
  "env_headers (emit e env) = env_headers env"
  "decisions (emit e env) = decisions env @ (if decisive e then [e] else [])"
  by (simp_all add: emit_def decisions_def)

lemma record_duration_simps [simp]:
  "env_headers (record_duration hist phase res t t' env) = env_headers env"
  "decisions (record_duration hist phase res t t' env) = decisions env"
  by (simp_all add: record_duration_def split: option.splits)

lemma sanitize_simps [simp]:
  "env_headers (sanitize_assertion_headers H env) = sanitized H (env_headers env)"
  "decisions (sanitize_assertion_headers H env) = decisions env"
  by (simp_all add: sanitize_assertion_headers_def sanitized_def decisions_def)

lemma set_request_header_simps [simp]:
  "env_headers (set_request_header H n v env) = hdr_set H n v (env_headers env)"
  "decisions (set_request_header H n v env) = decisions env"
  by (simp_all add: set_request_header_def decisions_def)

lemma report_result_simps [simp]:
  "env_headers (report_result f r env) = env_headers env"
  "decisions (report_result f r env) =
     decisions env @ [SetMetadataBool METADATA_NAMESPACE ''verified'' (is_verified r)]"
  by (cases r; cases "flt_outcome_counter f"; simp add: report_result_def is_verified_def Let_def)+

lemma forward_identity_simps [simp]:
  "env_headers (forward_identity H f r env) =
     result_headers H (cfg_forward_identity_headers (flt_settings f)) r (env_headers env)"
  "decisions (forward_identity H f r env) = decisions env"
  by (simp_all add: forward_identity_def result_headers_def Let_def split: option.splits)

lemma apply_result_facts:
  "fst (apply_result H f env r) = admission (cfg_mode (flt_settings f)) r"
  "env_headers (snd (apply_result H f env r)) =
     result_headers H (cfg_forward_identity_headers (flt_settings f)) r (env_headers env)"
  "decisions (snd (apply_result H f env r)) = decisions env @ verdict (cfg_mode (flt_settings f)) r"
  by (simp_all add: apply_result_def verdict_def Let_def split: Admission.splits)

lemma finish_facts:
  "fst (finish H f env r) = (if admission (cfg_mode (flt_settings f)) r = Allow then Continue else StopIteration)"
  "env_headers (snd (finish H f env r)) =
     result_headers H (cfg_forward_identity_headers (flt_settings f)) r (env_headers env)"
  "decisions (snd (finish H f env r)) = decisions env @ verdict (cfg_mode (flt_settings f)) r"
  by (cases "apply_result H f env r"; cases "fst (apply_result H f env r)";
      use apply_result_facts [of H f env r] in \<open>simp add: finish_def split: Admission.splits\<close>)+

lemma resume_facts:
  "env_headers (resume H f env r) =
     result_headers H (cfg_forward_identity_headers (flt_settings f)) r (env_headers env)"
  "decisions (resume H f env r) = decisions env @ verdict (cfg_mode (flt_settings f)) r @
     (if admission (cfg_mode (flt_settings f)) r = Allow then [ContinueDecoding] else [])"
  by (cases "apply_result H f env r"; cases "fst (apply_result H f env r)";
      use apply_result_facts [of H f env r] in \<open>simp add: resume_def split: Admission.splits\<close>)+

text \<open>Parsing a candidate from captured headers, as \<open>on_request_headers\<close> composes it.\<close>

definition candidate_of ::
  "('h, 'v, 'k, 'u) module_api \<Rightarrow> Settings \<Rightarrow> u64 option \<Rightarrow> 'h \<Rightarrow> 'v VerificationCandidate \<Rightarrow> bool" where
  "candidate_of M settings now h c \<longleftrightarrow>
     (\<exists>request. try_from_envoy (m_headers M) h = Ok request \<and>
        VerificationCandidate_parse (m_sfv M) (m_wba M) (m_url M) request
          (cfg_accept_legacy_signature_agent settings) (cfg_required_components settings)
          (unix_time now) (cfg_max_signature_lifetime_seconds settings)
          (cfg_clock_skew_seconds settings) = Ok c)"

lemma CandidateError_result_unverified [simp]:
  "result_identity (CandidateError_result e) = None" "CandidateError_result e \<noteq> NotPresent x"
  by (cases e; simp)+

definition unsigned_headers :: "'h header_api \<Rightarrow> 'h \<Rightarrow> bool" where
  "unsigned_headers H h \<longleftrightarrow>
     (\<forall>n \<in> {HEADER_SIGNATURE, HEADER_SIGNATURE_INPUT, HEADER_SIGNATURE_AGENT}. hdr_value H h n = None)"

lemma start_callout_cases:
  obtains (finished) r env' where "result_identity r = None" and "\<And>x. r \<noteq> NotPresent x"
      and "env_headers env' = env_headers env" and "decisions env' = decisions env"
      and "start_callout M inp f c env = (fst (finish (m_headers M) f env' r), snd (finish (m_headers M) f env' r), f)"
    | (waiting) env' p where "pend_candidate p = c"
      and "env_headers env' = env_headers env" and "decisions env' = decisions env"
      and "start_callout M inp f c env = (StopAllIterationAndWatermark, env', f\<lparr>flt_pending := Some p\<rparr>)"
proof -
  define req where "req = \<lparr>req_api_version = V1, req_discovery = cand_discovery c,
    req_agent_url = cand_signed_url c, req_key_id = cand_key_id c\<rparr>"
  show thesis
  proof (cases "m_to_vec M req")
    case None
    then show thesis
      by (intro finished [of "Unverified UnverifiedKind.Unavailable Reason.ResolverEncoding"
            "record_duration (flt_duration_histogram f) ''resolver_send'' ''error'' (clk inp 4) (clk inp 5) env"])
        (simp_all add: start_callout_def req_def Let_def split: prod.splits)
  next
    case (Some body)
    obtain success cid where ci: "callout_init inp = (success, cid)" by (cases "callout_init inp")
    define sent where "sent = emit (SendHttpCallout (cfg_cluster (cfg_resolver (flt_settings f)))
      callout_headers body (cfg_timeout_ms (cfg_resolver (flt_settings f)))) env"
    have sent: "env_headers sent = env_headers env" "decisions sent = decisions env"
      by (simp_all add: sent_def)
    consider "length body > MAX_RESOLVE_BODY_BYTES" | "\<not> length body > MAX_RESOLVE_BODY_BYTES" "\<not> success"
      | "\<not> length body > MAX_RESOLVE_BODY_BYTES" "success" by blast
    then show thesis
    proof cases
      case 1
      with Some show thesis
        by (intro finished [of "Invalid InvalidKind.Malformed Reason.ProfileFieldTooLarge"
            "record_duration (flt_duration_histogram f) ''resolver_send'' ''error'' (clk inp 4) (clk inp 5) env"])
          (simp_all add: start_callout_def req_def Let_def split: prod.splits)
    next
      case 2
      with Some ci sent show thesis
        by (intro finished [of "Unverified UnverifiedKind.Unavailable Reason.ResolverUnavailable"
            "record_duration (flt_duration_histogram f) ''resolver_callout'' ''error'' (clk inp 5) (clk inp 7)
              (record_duration (flt_duration_histogram f) ''resolver_send'' ''error'' (clk inp 4) (clk inp 6) sent)"])
          (simp_all add: start_callout_def req_def sent_def Let_def split: prod.splits)
    next
      case 3
      with Some ci sent show thesis
        by (intro waiting [of "\<lparr>pend_callout_id = cid, pend_candidate = c, pend_started_at = clk inp 5\<rparr>"
            "record_duration (flt_duration_histogram f) ''resolver_send'' ''success'' (clk inp 4) (clk inp 6) sent"])
          (simp_all add: start_callout_def req_def sent_def Let_def split: prod.splits)
    qed
  qed
qed

lemma on_request_headers_cases:
  assumes "on_request_headers M inp eos f env = Some (status, env', f')"
  obtains (finished) r e where "result_identity r = None"
      and "\<And>x. r = NotPresent x \<Longrightarrow> unsigned_headers (m_headers M) (sanitized (m_headers M) (env_headers env))"
      and "env_headers e = sanitized (m_headers M) (env_headers env)" and "decisions e = decisions env"
      and "status = fst (finish (m_headers M) f e r)" "env' = snd (finish (m_headers M) f e r)" "f' = f"
    | (waiting) p where "candidate_of M (flt_settings f) (wall_clock inp)
          (sanitized (m_headers M) (env_headers env)) (pend_candidate p)"
      and "env_headers env' = sanitized (m_headers M) (env_headers env)" and "decisions env' = decisions env"
      and "status = StopAllIterationAndWatermark" "f' = f\<lparr>flt_pending := Some p\<rparr>"
proof -
  let ?h = "sanitized (m_headers M) (env_headers env)"
  have fin: thesis if "result_identity r = None"
      "\<And>x. r = NotPresent x \<Longrightarrow> unsigned_headers (m_headers M) ?h" "env_headers e = ?h" "decisions e = decisions env"
      "(case finish (m_headers M) f e r of (status, env) \<Rightarrow> Some (status, env, f)) = Some (status, env', f')"
    for r e
    using that by (intro finished [of r e]) (auto split: prod.splits)
  let ?has = "\<lambda>name. hdr_value (m_headers M) ?h name \<noteq> None"
  show thesis
  proof (cases "classify_signature_headers (?has HEADER_SIGNATURE) (?has HEADER_SIGNATURE_INPUT)
      (?has HEADER_SIGNATURE_AGENT)")
    case Unsigned
    with assms show thesis
      by (intro fin [of "NotPresent Reason.Unsigned" "sanitize_assertion_headers (m_headers M) env"])
        (simp_all add: on_request_headers_def unsigned_headers_def classify_signature_headers_def
          Let_def split: if_splits)
  next
    case Incomplete
    with assms show thesis
      by (intro fin [of "Invalid InvalidKind.Malformed Reason.IncompleteFields"
            "sanitize_assertion_headers (m_headers M) env"])
        (simp_all add: on_request_headers_def Let_def)
  next
    case Candidate
    show thesis
    proof (cases eos)
      case False
      with assms Candidate show thesis
        by (intro fin [of "Unverified UnverifiedKind.Unsupported Reason.RequestBodyUnsupported"
              "sanitize_assertion_headers (m_headers M) env"])
          (simp_all add: on_request_headers_def Let_def)
    next
      case True
      note un = on_request_headers_def Let_def
      show thesis
      proof (cases "try_from_envoy (m_headers M) ?h")
        case Panic
        with assms Candidate True show thesis by (simp add: un)
      next
        case (Err x)
        with assms Candidate True show thesis
          by (intro fin [of "Invalid InvalidKind.Malformed Reason.RequestCapture"
                "record_duration (flt_duration_histogram f) ''candidate_capture'' ''error'' (clk inp 0) (clk inp 1)
                  (sanitize_assertion_headers (m_headers M) env)"])
            (simp_all add: un)
      next
        case (Ok request)
        define env1 where "env1 = record_duration (flt_duration_histogram f) ''candidate_capture'' ''success''
          (clk inp 0) (clk inp 1) (sanitize_assertion_headers (m_headers M) env)"
        let ?p = "VerificationCandidate_parse (m_sfv M) (m_wba M) (m_url M) request
          (cfg_accept_legacy_signature_agent (flt_settings f)) (cfg_required_components (flt_settings f))
          (unix_time (wall_clock inp)) (cfg_max_signature_lifetime_seconds (flt_settings f))
          (cfg_clock_skew_seconds (flt_settings f))"
        show thesis
        proof (cases ?p)
          case Panic
          with assms Candidate True Ok show thesis by (simp add: un)
        next
          case (Err x)
          with assms Candidate True Ok show thesis
            by (intro fin [of "CandidateError_result x"
                  "record_duration (flt_duration_histogram f) ''candidate_parse'' ''error'' (clk inp 2) (clk inp 3) env1"])
              (simp_all add: un env1_def)
        next
          case c: (Ok c)
          then have co: "candidate_of M (flt_settings f) (wall_clock inp) ?h c"
            using Ok by (simp add: candidate_of_def)
          define env2 where "env2 = record_duration (flt_duration_histogram f) ''candidate_parse'' ''success''
            (clk inp 2) (clk inp 3) env1"
          have e2: "env_headers env2 = ?h" "decisions env2 = decisions env"
            by (simp_all add: env2_def env1_def)
          have s: "start_callout M inp f c env2 = (status, env', f')"
            using assms Candidate True Ok c by (simp add: un env2_def env1_def)
          show thesis
          proof (cases rule: start_callout_cases [of env2 M inp f c])
            case (finished r e)
            with s e2 show thesis by (intro fin [of r e]) (auto split: prod.splits)
          next
            case (waiting e p)
            with s e2 co show thesis by (intro that(2) [of p]) simp_all
          qed
        qed
      qed
    qed
  qed
qed

section \<open>A request's life\<close>

text \<open>
  The callbacks Envoy makes for one request: the headers once, then any number of callout completions
  with any id and content. \<open>st_status\<close> is what the first callback returned.
\<close>

record ('h, 'v) stream =
  st_env :: "'h envoy"
  st_filter :: "'v WebBotAuthFilter"
  st_status :: "headers_status option"

definition stream_init :: "Settings \<Rightarrow> 'h \<Rightarrow> ('h, 'v) stream \<Rightarrow> bool" where
  "stream_init settings h s \<longleftrightarrow>
     (\<exists>counter histogram. s = \<lparr>st_env = \<lparr>env_headers = h, env_log = []\<rparr>,
        st_filter = WebBotAuthFilter_new settings counter histogram, st_status = None\<rparr>)"

inductive stream_step ::
  "('h, 'v, 'k, 'u) module_api \<Rightarrow> ('h, 'v) stream \<Rightarrow> ('h, 'v) stream \<Rightarrow> bool"
  for M :: "('h, 'v, 'k, 'u) module_api" where
  request_headers:
    "st_status s = None \<Longrightarrow>
     on_request_headers M inp eos (st_filter s) (st_env s) = Some (status, env, f) \<Longrightarrow>
     stream_step M s \<lparr>st_env = env, st_filter = f, st_status = Some status\<rparr>"
| callout_done:
    "st_status s = Some status \<Longrightarrow>
     on_http_callout_done M clock cid success hs body (st_filter s) (st_env s) = (env, f) \<Longrightarrow>
     stream_step M s \<lparr>st_env = env, st_filter = f, st_status = Some status\<rparr>"

inductive_cases stream_stepE: "stream_step M s s'"

text \<open>The request goes on to the upstream, or is answered by the filter.\<close>

definition released :: "('h, 'v) stream \<Rightarrow> bool" where
  "released s \<longleftrightarrow> st_status s = Some Continue \<or> ContinueDecoding \<in> set (env_log (st_env s))"

definition answered :: "('h, 'v) stream \<Rightarrow> bool" where
  "answered s \<longleftrightarrow> (\<exists>code hs body detail. SendResponse code hs body detail \<in> set (env_log (st_env s)))"

text \<open>The evidence behind a verified identity.\<close>

definition justified ::
  "('h, 'v, 'k, 'u) module_api \<Rightarrow> Settings \<Rightarrow> 'h \<Rightarrow> VerifiedIdentity \<Rightarrow> bool" where
  "justified M settings h i \<longleftrightarrow>
     (\<exists>now c x keyring. candidate_of M settings now (sanitized (m_headers M) h) c \<and>
        okp_thumbprint (m_wba M) ''Ed25519'' x = cand_key_id c \<and>
        try_import_jwk (m_wba M) ''Ed25519'' x = Some keyring \<and>
        wba_verify (m_wba M) (cand_verifier c) keyring \<and>
        i = \<lparr>vi_identifier = cand_identifier c, vi_key_id = cand_key_id c\<rparr>)"

text \<open>A settled request: one result was applied, once.\<close>

definition settled ::
  "('h, 'v, 'k, 'u) module_api \<Rightarrow> Settings \<Rightarrow> 'h \<Rightarrow> headers_status \<Rightarrow> 'h envoy \<Rightarrow> VerificationResult \<Rightarrow> bool" where
  "settled M settings h status env r \<longleftrightarrow>
     env_headers env = result_headers (m_headers M) (cfg_forward_identity_headers settings) r
                         (sanitized (m_headers M) h) \<and>
     decisions env = verdict (cfg_mode settings) r @
       (if status = StopAllIterationAndWatermark \<and> admission (cfg_mode settings) r = Allow
        then [ContinueDecoding] else []) \<and>
     (status = Continue \<longrightarrow> admission (cfg_mode settings) r = Allow) \<and>
     (status = StopIteration \<longrightarrow> admission (cfg_mode settings) r \<noteq> Allow) \<and>
     (\<forall>i. r = VerificationResult.Verified i \<longrightarrow> justified M settings h i) \<and>
     (\<forall>x. r = NotPresent x \<longrightarrow> unsigned_headers (m_headers M) (sanitized (m_headers M) h))"

definition stream_inv ::
  "('h, 'v, 'k, 'u) module_api \<Rightarrow> Settings \<Rightarrow> 'h \<Rightarrow> ('h, 'v) stream \<Rightarrow> bool" where
  "stream_inv M settings h s \<longleftrightarrow>
     flt_settings (st_filter s) = settings \<and>
     (case st_status s of
        None \<Rightarrow> flt_pending (st_filter s) = None \<and> st_env s = \<lparr>env_headers = h, env_log = []\<rparr>
      | Some status \<Rightarrow>
          (case flt_pending (st_filter s) of
             Some p \<Rightarrow> status = StopAllIterationAndWatermark \<and> decisions (st_env s) = [] \<and>
               env_headers (st_env s) = sanitized (m_headers M) h \<and>
               (\<exists>now. candidate_of M settings now (sanitized (m_headers M) h) (pend_candidate p))
           | None \<Rightarrow> (\<exists>r. settled M settings h status (st_env s) r)))"

lemma on_http_callout_done_idle:
  "flt_pending f = None \<Longrightarrow> on_http_callout_done M clock cid success hs body f env = (env, f)"
  by (simp add: on_http_callout_done_def)

lemma on_http_callout_done_pending:
  assumes "flt_pending f = Some p"
  obtains e r response where "env_headers e = env_headers env" "decisions e = decisions env"
    "on_http_callout_done M clock cid success hs body f env =
       (resume (m_headers M) (f\<lparr>flt_pending := None\<rparr>) e r, f\<lparr>flt_pending := None\<rparr>)"
    "r = Unverified UnverifiedKind.Unavailable Reason.ResolverCalloutMismatch \<or>
     pend_callout_id p = cid \<and> r = verify_resolver_response (m_wba M) (pend_candidate p) response"
    "\<And>answer. response = Inr answer \<Longrightarrow> success \<and> response_status hs = Some 200 \<and>
       Option.bind (Option.bind body join_response_body) (m_from_slice M) = Some answer"
proof (cases "pend_callout_id p = cid")
  case True
  define response where "response =
    (if \<not> success \<or> response_status hs \<noteq> Some 200 then Inl Reason.ResolverUnavailable
     else case Option.bind (Option.bind body join_response_body) (m_from_slice M) of
            Some response \<Rightarrow> Inr response | None \<Rightarrow> Inl Reason.ResolverResponse)"
  let ?r = "verify_resolver_response (m_wba M) (pend_candidate p) response"
  let ?e = "record_duration (flt_duration_histogram f) ''response_verify'' (result_status ?r) (clock 1) (clock 2)
    (record_duration (flt_duration_histogram f) ''resolver_callout''
      (case response of Inr _ \<Rightarrow> ''success'' | Inl _ \<Rightarrow> ''error'') (pend_started_at p) (clock 0) env)"
  show thesis
    by (rule that [of ?e ?r response])
      (auto simp: on_http_callout_done_def assms True response_def Let_def split: if_splits option.splits)
next
  case False
  let ?e = "emit (LogError ''web-bot-auth reason=resolver_callout_mismatch'')
    (record_duration (flt_duration_histogram f) ''resolver_callout'' ''error'' (pend_started_at p) (clock 0) env)"
  show thesis
    by (rule that [of ?e "Unverified UnverifiedKind.Unavailable Reason.ResolverCalloutMismatch" "Inl Reason.ResolverUnavailable"])
      (simp_all add: on_http_callout_done_def assms False Let_def)
qed

lemma stream_inv_init: "stream_init settings h s \<Longrightarrow> stream_inv M settings h s"
  by (auto simp: stream_init_def stream_inv_def WebBotAuthFilter_new_def)

lemma stream_inv_headers:
  assumes "stream_inv M settings h s" and "st_status s = None"
    and "on_request_headers M inp eos (st_filter s) (st_env s) = Some (status, env, f)"
  shows "stream_inv M settings h \<lparr>st_env = env, st_filter = f, st_status = Some status\<rparr>"
proof -
  from assms(1,2) have i: "flt_settings (st_filter s) = settings" "flt_pending (st_filter s) = None"
    "env_headers (st_env s) = h" "decisions (st_env s) = []"
    by (simp_all add: stream_inv_def decisions_def)
  from assms(3) show ?thesis
  proof (cases rule: on_request_headers_cases)
    case (finished r e)
    then have "settled M settings h status env r"
      using i by (auto simp: settled_def finish_facts)
    with finished i show ?thesis by (auto simp: stream_inv_def)
  next
    case (waiting p)
    with i show ?thesis by (auto simp: stream_inv_def)
  qed
qed

text \<open>A completion of the pending callout settles the request, with a result that comes from its answer.\<close>

lemma callout_settles:
  assumes "stream_inv M settings h s" and "st_status s = Some status" and "flt_pending (st_filter s) = Some p"
    and "on_http_callout_done M clock cid success hs body (st_filter s) (st_env s) = (env, f)"
  obtains r response where "settled M settings h status env r" and "f = st_filter s\<lparr>flt_pending := None\<rparr>"
    and "r = Unverified UnverifiedKind.Unavailable Reason.ResolverCalloutMismatch \<or>
      pend_callout_id p = cid \<and> r = verify_resolver_response (m_wba M) (pend_candidate p) response"
    and "\<And>answer. response = Inr answer \<Longrightarrow> success \<and> response_status hs = Some 200 \<and>
       Option.bind (Option.bind body join_response_body) (m_from_slice M) = Some answer"
proof -
  from assms(1-3) obtain now where i: "flt_settings (st_filter s) = settings"
    "status = StopAllIterationAndWatermark" "decisions (st_env s) = []"
    "env_headers (st_env s) = sanitized (m_headers M) h"
    "candidate_of M settings now (sanitized (m_headers M) h) (pend_candidate p)"
    by (auto simp: stream_inv_def)
  from assms(3) obtain e r response where o: "env_headers e = env_headers (st_env s)"
      "decisions e = decisions (st_env s)"
      "on_http_callout_done M clock cid success hs body (st_filter s) (st_env s) =
         (resume (m_headers M) (st_filter s\<lparr>flt_pending := None\<rparr>) e r, st_filter s\<lparr>flt_pending := None\<rparr>)"
      "r = Unverified UnverifiedKind.Unavailable Reason.ResolverCalloutMismatch \<or>
       pend_callout_id p = cid \<and> r = verify_resolver_response (m_wba M) (pend_candidate p) response"
      "\<And>answer. response = Inr answer \<Longrightarrow> success \<and> response_status hs = Some 200 \<and>
         Option.bind (Option.bind body join_response_body) (m_from_slice M) = Some answer"
    by (rule on_http_callout_done_pending
      [where env = "st_env s" and M = M and clock = clock and cid = cid and success = success and hs = hs and body = body]) blast
  have "justified M settings h x" if "r = VerificationResult.Verified x" for x
  proof -
    from o(4) that have "verify_resolver_response (m_wba M) (pend_candidate p) response =
        VerificationResult.Verified x"
      by simp
    with i(5) show ?thesis unfolding verify_Verified_iff justified_def by blast
  qed
  moreover have "r \<noteq> NotPresent x" for x
    using o(4) verify_not_NotPresent [of "m_wba M" "pend_candidate p" response x]
    by (metis VerificationResult.distinct(3))
  ultimately have "settled M settings h status env r"
    using o(1-3) i(1-4) assms(4) by (auto simp: settled_def resume_facts)
  with o(3-5) assms(4) that show thesis by auto
qed

lemma stream_inv_callout:
  assumes "stream_inv M settings h s" and "st_status s = Some status"
    and "on_http_callout_done M clock cid success hs body (st_filter s) (st_env s) = (env, f)"
  shows "stream_inv M settings h \<lparr>st_env = env, st_filter = f, st_status = Some status\<rparr>"
proof (cases "flt_pending (st_filter s)")
  case None
  with assms show ?thesis by (simp add: on_http_callout_done_idle stream_inv_def)
next
  case (Some p)
  from callout_settles [OF assms(1,2) Some assms(3)] obtain r where
    "settled M settings h status env r" "f = st_filter s\<lparr>flt_pending := None\<rparr>"
    by blast
  with assms(1) show ?thesis by (auto simp: stream_inv_def)
qed

interpretation streams: invariant_of "stream_init settings h" "stream_step M" "stream_inv M settings h"
  for settings h M
proof
  fix s s'
  assume "stream_inv M settings h s" "stream_step M s s'"
  from this(2) this(1) show "stream_inv M settings h s'"
    by (cases rule: stream_step.cases) (auto intro: stream_inv_headers stream_inv_callout)
qed (rule stream_inv_init)

lemma stream_inv_cases:
  assumes "stream_inv M settings h s"
  obtains (before) "st_status s = None" and "\<not> released s"
    | (waiting) "env_headers (st_env s) = sanitized (m_headers M) h" and "\<not> released s"
    | (settled) status where "st_status s = Some status" and "flt_pending (st_filter s) = None"
proof (cases "st_status s")
  case None
  with assms that(1) show thesis by (simp add: stream_inv_def released_def)
next
  case (Some status)
  show thesis
  proof (cases "flt_pending (st_filter s)")
    case (Some p)
    with assms \<open>st_status s = Some status\<close> have "decisions (st_env s) = []" "status = StopAllIterationAndWatermark"
      "env_headers (st_env s) = sanitized (m_headers M) h"
      by (simp_all add: stream_inv_def)
    moreover from this have "ContinueDecoding \<notin> set (env_log (st_env s))"
      by (force simp: decisions_def filter_empty_conv)
    ultimately show thesis
      using \<open>st_status s = Some status\<close> that(2) by (simp add: released_def)
  qed (use Some that(3) in blast)
qed

lemma stream_settled:
  assumes "reachable (stream_init settings h) (stream_step M) s" and "st_status s = Some status"
    and "released s \<or> answered s \<or> hdr_values H (env_headers (st_env s)) HEADER_STATUS \<noteq> []"
    and "header_laws H" "m_headers M = H"
  obtains r where "settled M settings h status (st_env s) r"
proof (cases "flt_pending (st_filter s)")
  case None
  with streams.inv_reachable [OF assms(1)] assms(2) that show thesis
    by (auto simp: stream_inv_def)
next
  case (Some p)
  with streams.inv_reachable [OF assms(1)] assms(2) have
    "status = StopAllIterationAndWatermark" "decisions (st_env s) = []"
    "env_headers (st_env s) = sanitized H h"
    by (auto simp: stream_inv_def assms(5))
  with assms(2,3,4) show thesis
    by (auto simp: released_def answered_def decisions_def filter_empty_conv sanitized_def
        header_laws_simps header_name_defs)
qed

lemma result_headers_values:
  assumes "header_laws H"
  shows "hdr_values H (result_headers H fwd r (sanitized H h)) HEADER_IDENTITY =
           (case result_identity r of Some i \<Rightarrow> if fwd then [vi_identifier i] else [] | None \<Rightarrow> [])"
    and "hdr_values H (result_headers H fwd r (sanitized H h)) HEADER_KEY_ID =
           (case result_identity r of Some i \<Rightarrow> if fwd then [vi_key_id i] else [] | None \<Rightarrow> [])"
    and "hdr_values H (result_headers H fwd r (sanitized H h)) HEADER_STATUS =
           (if fwd then [result_status r] else [])"
    and "n \<notin> {HEADER_STATUS, HEADER_IDENTITY, HEADER_KEY_ID} \<Longrightarrow>
         hdr_values H (result_headers H fwd r (sanitized H h)) n = hdr_values H h n"
  using header_laws_simps [OF assms]
  by (auto simp: result_headers_def sanitized_def header_name_defs split: option.splits)

lemma header_value_sanitized:
  assumes "header_laws H" and "n \<notin> {HEADER_STATUS, HEADER_IDENTITY, HEADER_KEY_ID}"
  shows "hdr_value H (sanitized H h) n = hdr_value H h n"
  using assms header_laws_simps [OF assms(1)] by (auto simp: sanitized_def)

section \<open>A sample stream\<close>

definition sample_settings :: Settings where
  "sample_settings = Settings_default\<lparr>cfg_mode := Required, cfg_required_components := [''@authority'']\<rparr>"

definition sample_module :: "((string \<times> string) list, unit, unit, plain_url) module_api" where
  "sample_module =
     \<lparr>m_headers = alist_header_api, m_sfv = sample_sfv, m_wba = sample_wba, m_url = plain_url_api,
      m_to_vec = (\<lambda>_. Some ''{}''),
      m_from_slice = (\<lambda>_. Some (Resolved (''https://a.test'' @ DIRECTORY_PATH) (Ed25519Jwk_new ''k'')))\<rparr>"

definition spoofed_headers :: "(string \<times> string) list" where
  "spoofed_headers = (HEADER_IDENTITY, ''https://other.test/'') # sample_headers"

definition sample_inputs :: host_inputs where
  "sample_inputs = \<lparr>clk = (\<lambda>n. n), wall_clock = Some 150, callout_init = (True, 7)\<rparr>"

definition waiting_stream :: "((string \<times> string) list, unit) stream" where
  "waiting_stream =
     \<lparr>st_env = \<lparr>env_headers = sample_headers,
        env_log = [SendHttpCallout DEFAULT_CLUSTER callout_headers ''{}'' DEFAULT_TIMEOUT_MS]\<rparr>,
      st_filter = WebBotAuthFilter_new sample_settings None None
        \<lparr>flt_pending := Some \<lparr>pend_callout_id = 7, pend_candidate = sample_candidate, pend_started_at = 5\<rparr>\<rparr>,
      st_status = Some StopAllIterationAndWatermark\<rparr>"

definition verified_env :: "(string \<times> string) list envoy" where
  "verified_env = resume alist_header_api (WebBotAuthFilter_new sample_settings None None :: unit WebBotAuthFilter)
     (st_env waiting_stream)
     (VerificationResult.Verified \<lparr>vi_identifier = ''https://a.test'' @ DIRECTORY_PATH, vi_key_id = ''k''\<rparr>)"

definition verified_stream :: "((string \<times> string) list, unit) stream" where
  "verified_stream =
     \<lparr>st_env = verified_env, st_filter = WebBotAuthFilter_new sample_settings None None,
      st_status = Some StopAllIterationAndWatermark\<rparr>"

lemma sanitized_sample: "sanitized alist_header_api spoofed_headers = sample_headers"
  by (simp add: sanitized_def alist_header_api_def spoofed_headers_def sample_headers_def header_name_defs)

lemma waiting_stream_step:
  "on_request_headers sample_module sample_inputs True (WebBotAuthFilter_new sample_settings None None)
     \<lparr>env_headers = spoofed_headers, env_log = []\<rparr> =
   Some (StopAllIterationAndWatermark, st_env waiting_stream, st_filter waiting_stream)"
proof -
  have san: "sanitize_assertion_headers alist_header_api \<lparr>env_headers = spoofed_headers, env_log = []\<rparr> =
      \<lparr>env_headers = sample_headers, env_log = []\<rparr>"
    using sanitized_sample by (simp add: sanitize_assertion_headers_def sanitized_def)
  have has: "hdr_value alist_header_api sample_headers HEADER_SIGNATURE = Some ''s=:AA==:''"
    "hdr_value alist_header_api sample_headers HEADER_SIGNATURE_INPUT = Some ''s=()''"
    "hdr_value alist_header_api sample_headers HEADER_SIGNATURE_AGENT = Some ''s=u''"
    by (simp_all add: alist_header_api_def sample_headers_def header_name_defs)
  have t: "unix_time (Some 150) = 150"
    by (simp add: unix_time_def i64_try_from_u64_def)
  have p: "VerificationCandidate_parse sample_sfv sample_wba plain_url_api sample_request
      (cfg_accept_legacy_signature_agent sample_settings) (cfg_required_components sample_settings) 150
      (cfg_max_signature_lifetime_seconds sample_settings) (cfg_clock_skew_seconds sample_settings) =
      Ok sample_candidate"
    using candidate_sample
    by (simp add: sample_settings_def Settings_default_def DEFAULT_MAX_LIFETIME_SECONDS_def
        DEFAULT_CLOCK_SKEW_SECONDS_def)
  have c: "cfg_resolver sample_settings = \<lparr>cfg_cluster = DEFAULT_CLUSTER, cfg_timeout_ms = DEFAULT_TIMEOUT_MS\<rparr>"
    by (simp add: sample_settings_def Settings_default_def ResolverSettings_default_def)
  show ?thesis
    using try_from_envoy_sample [folded sample_request_def]
    by (simp add: on_request_headers_def sample_module_def Let_def san sanitized_sample has classify_signature_headers_def
        sample_inputs_def t p WebBotAuthFilter_new_def record_duration_def start_callout_def emit_def
        waiting_stream_def c MAX_RESOLVE_BODY_BYTES_def)
qed

lemma verified_stream_step:
  "on_http_callout_done sample_module (\<lambda>n. n) 7 True (Some [('':status'', ''200'')]) (Some [''{}''])
     (st_filter waiting_stream) (st_env waiting_stream) =
   (verified_env, WebBotAuthFilter_new sample_settings None None)"
proof -
  have "response_status (Some [('':status'', ''200'')]) = Some 200"
    by (simp add: response_status_def valid_utf8_ascii is_ascii_byte_def byte_val_def parse_unsigned_def
        is_digit_def digits_value_def)
  moreover have "join_response_body [''{}''] = Some ''{}''"
    by (simp add: join_response_body_eq MAX_RESOLVE_BODY_BYTES_def)
  ultimately show ?thesis
    by (simp add: on_http_callout_done_def waiting_stream_def WebBotAuthFilter_new_def verified_env_def
        sample_module_def verify_resolver_response_def sample_wba_def Ed25519Jwk_new_def
        sample_candidate_def record_duration_def Let_def)
qed

lemma verified_stream_reachable:
  "reachable (stream_init sample_settings spoofed_headers) (stream_step sample_module) verified_stream"
proof -
  let ?s0 = "\<lparr>st_env = \<lparr>env_headers = spoofed_headers, env_log = []\<rparr>,
    st_filter = WebBotAuthFilter_new sample_settings None None, st_status = None\<rparr>"
  have "stream_init sample_settings spoofed_headers ?s0"
    by (auto simp: stream_init_def)
  then have "reachable (stream_init sample_settings spoofed_headers) (stream_step sample_module) ?s0"
    by (rule reachable_init)
  moreover have "stream_step sample_module ?s0 waiting_stream"
    using request_headers [of ?s0 sample_module sample_inputs True] waiting_stream_step
    by (simp add: waiting_stream_def)
  moreover have "stream_step sample_module waiting_stream verified_stream"
    using callout_done [of waiting_stream StopAllIterationAndWatermark, OF _ verified_stream_step]
    by (simp add: verified_stream_def waiting_stream_def)
  ultimately show ?thesis
    by (blast intro: reachable_step)
qed

section \<open>Properties\<close>

text \<open>
  C2. No spoofed identity reaches the upstream: once the headers callback has run, and whatever callout
  completions follow, the three assertion headers hold nothing of what the client sent. The identity
  and key id headers are absent, or they are those of a verified result: the request's own signed
  headers parsed as a candidate with that identifier and key id, and its signature verified under a
  key with that thumbprint. The status says \<open>verified\<close> only then. Every other header is as received.
\<close>

theorem identity_headers_justified:
  assumes "header_laws (m_headers M)"
    and "reachable (stream_init settings h) (stream_step M) s" and "st_status s \<noteq> None"
  defines "value_of \<equiv> hdr_values (m_headers M) (env_headers (st_env s))"
  shows "(value_of HEADER_IDENTITY = [] \<and> value_of HEADER_KEY_ID = [] \<and> value_of HEADER_STATUS \<noteq> [''verified''] \<or>
          (\<exists>i. justified M settings h i \<and> value_of HEADER_IDENTITY = [vi_identifier i] \<and>
               value_of HEADER_KEY_ID = [vi_key_id i] \<and> value_of HEADER_STATUS = [''verified'']) \<or>
          \<not> cfg_forward_identity_headers settings \<and> value_of HEADER_IDENTITY = [] \<and>
               value_of HEADER_KEY_ID = [] \<and> value_of HEADER_STATUS = []) \<and>
         (n \<notin> {HEADER_STATUS, HEADER_IDENTITY, HEADER_KEY_ID} \<longrightarrow>
            value_of n = hdr_values (m_headers M) h n)"
proof -
  let ?H = "m_headers M" and ?fwd = "cfg_forward_identity_headers settings"
  have "env_headers (st_env s) = sanitized ?H h \<or>
      (\<exists>r. env_headers (st_env s) = result_headers ?H ?fwd r (sanitized ?H h) \<and>
           (\<forall>i. r = VerificationResult.Verified i \<longrightarrow> justified M settings h i))"
    using streams.inv_reachable [OF assms(2)] assms(3)
    by (auto simp: stream_inv_def settled_def split: option.splits)
  then consider (waiting) "env_headers (st_env s) = sanitized ?H h"
    | (applied) r where "env_headers (st_env s) = result_headers ?H ?fwd r (sanitized ?H h)"
        "\<And>i. r = VerificationResult.Verified i \<Longrightarrow> justified M settings h i"
    by blast
  then show ?thesis
  proof cases
    case waiting
    then show ?thesis
      using header_laws_simps [OF assms(1)] by (auto simp: value_of_def sanitized_def header_name_defs)
  next
    case (applied r)
    then show ?thesis
      unfolding value_of_def applied(1)
      using applied(2)
      by (cases "result_identity r"; cases ?fwd)
        (auto simp: result_headers_values [OF assms(1)] result_status_verified_iff)
  qed
qed

lemma verified_stream_headers:
  "hdr_values alist_header_api (env_headers (st_env verified_stream)) HEADER_STATUS = [''verified'']"
  "st_status verified_stream \<noteq> None" "released verified_stream"
  by (simp_all add: verified_stream_def verified_env_def resume_facts waiting_stream_def
      WebBotAuthFilter_new_def sample_settings_def Settings_default_def result_headers_def
      header_laws_simps [OF header_laws_alist] header_name_defs released_def resume_def
      apply_result_def admission_def emit_def)

theorem identity_headers_justified_witness:
  "\<exists>i. justified sample_module sample_settings spoofed_headers i \<and>
       hdr_values alist_header_api (env_headers (st_env verified_stream)) HEADER_IDENTITY = [vi_identifier i]"
proof -
  have h: "m_headers sample_module = alist_header_api" by (simp add: sample_module_def)
  show ?thesis
    using identity_headers_justified [of sample_module, OF _ verified_stream_reachable]
      header_laws_alist verified_stream_headers
    by (auto simp: h)
qed

lemma decisions_set: "decisive e \<Longrightarrow> e \<in> set (env_log env) \<longleftrightarrow> e \<in> set (decisions env)"
  by (simp add: decisions_def)

lemma verdict_mem:
  "ContinueDecoding \<notin> set (verdict m r)"
  "SendResponse c hs b d \<in> set (verdict m r) \<Longrightarrow> admission m r \<noteq> Allow"
  "admission m r \<noteq> Allow \<Longrightarrow> \<exists>c hs b d. SendResponse c hs b d \<in> set (verdict m r)"
  by (cases "admission m r"; auto simp: verdict_def)+

lemma verdict_count:
  "length (filter (\<lambda>e. \<exists>a b c. e = SetMetadataBool a b c) (verdict m r)) = 1"
  "length (filter (\<lambda>e. e = ContinueDecoding \<or> (\<exists>a b c d. e = SendResponse a b c d)) (verdict m r)) =
     (if admission m r = Allow then 0 else 1)"
  by (cases "admission m r"; simp add: verdict_def)+

lemma settled_decisions:
  "settled M settings h status env r \<Longrightarrow>
     decisions env = verdict (cfg_mode settings) r \<or>
     admission (cfg_mode settings) r = Allow \<and>
     decisions env = verdict (cfg_mode settings) r @ [ContinueDecoding]"
  by (simp add: settled_def split: if_splits)

lemma settled_outcome:
  assumes "settled M settings h status (st_env s) r" and "st_status s = Some status"
  shows "released s \<longleftrightarrow> admission (cfg_mode settings) r = Allow"
    and "answered s \<longleftrightarrow> admission (cfg_mode settings) r \<noteq> Allow"
proof -
  have "released s \<longleftrightarrow> status = Continue \<or> ContinueDecoding \<in> set (decisions (st_env s))"
    using decisions_set [of ContinueDecoding "st_env s"] assms(2) by (simp add: released_def)
  then show "released s \<longleftrightarrow> admission (cfg_mode settings) r = Allow"
    using assms(1) by (cases status) (auto simp: settled_def verdict_mem(1))
  have "answered s \<longleftrightarrow> (\<exists>c hs b d. SendResponse c hs b d \<in> set (decisions (st_env s)))"
    by (simp add: answered_def decisions_set)
  then show "answered s \<longleftrightarrow> admission (cfg_mode settings) r \<noteq> Allow"
    using assms(1) verdict_mem(2,3) [where r = r and m = "cfg_mode settings"]
    by (auto simp: settled_def split: if_splits)
qed

lemma reachable_outcome:
  assumes "reachable (stream_init settings h) (stream_step M) s"
  shows "(\<exists>r status. st_status s = Some status \<and> settled M settings h status (st_env s) r) \<or>
         decisions (st_env s) = [] \<and> \<not> released s \<and> \<not> answered s"
proof -
  have "\<not> released s \<and> \<not> answered s" if "decisions (st_env s) = []" "st_status s \<noteq> Some Continue"
    using that by (auto simp: released_def answered_def decisions_def filter_empty_conv)
  then show ?thesis
    using streams.inv_reachable [OF assms]
    by (auto simp: stream_inv_def decisions_def split: option.splits)
qed

text \<open>
  C3. Enforcement over a request's whole life, whatever completions arrive: in required mode a request goes
  on only with a justified verified identity; in optional mode only with one or without any of the
  three signature headers; in observe mode no request is answered by the filter.
\<close>

theorem released_only_if_admitted:
  assumes "header_laws (m_headers M)"
    and "reachable (stream_init settings h) (stream_step M) s"
  shows "(cfg_mode settings = Required \<and> released s \<longrightarrow> (\<exists>i. justified M settings h i)) \<and>
         (cfg_mode settings = Optional \<and> released s \<longrightarrow>
            (\<exists>i. justified M settings h i) \<or> unsigned_headers (m_headers M) h) \<and>
         (cfg_mode settings = Observe \<longrightarrow> \<not> answered s)"
proof -
  have u: "unsigned_headers (m_headers M) (sanitized (m_headers M) h) \<Longrightarrow> unsigned_headers (m_headers M) h"
    using header_value_sanitized [OF assms(1)]
    by (simp add: unsigned_headers_def) (simp add: header_name_defs)
  from reachable_outcome [OF assms(2)] consider "\<not> released s" "\<not> answered s"
    | r status where "st_status s = Some status" "settled M settings h status (st_env s) r" by blast
  then have "(released s \<longrightarrow> cfg_mode settings = Observe \<or> (\<exists>i. justified M settings h i) \<or>
        cfg_mode settings = Optional \<and> unsigned_headers (m_headers M) h) \<and>
      (answered s \<longrightarrow> cfg_mode settings \<noteq> Observe)"
  proof cases
    case (2 r status)
    then have "\<And>i. r = VerificationResult.Verified i \<Longrightarrow> justified M settings h i"
      "\<And>x. r = NotPresent x \<Longrightarrow> unsigned_headers (m_headers M) h"
      using u by (auto simp: settled_def)
    with settled_outcome [OF 2(2,1)] show ?thesis
      by (auto simp: admission_Allow_iff)
  qed blast
  then show ?thesis
    by auto
qed

theorem released_only_if_admitted_witness:
  "cfg_mode sample_settings = Required \<and> released verified_stream \<and>
   (\<exists>i. justified sample_module sample_settings spoofed_headers i)"
proof -
  have h: "m_headers sample_module = alist_header_api" by (simp add: sample_module_def)
  have m: "cfg_mode sample_settings = Required" by (simp add: sample_settings_def)
  show ?thesis
    using released_only_if_admitted [of sample_module, OF _ verified_stream_reachable]
      header_laws_alist verified_stream_headers(3) m
    by (auto simp: h)
qed

text \<open>
  C15. A request is settled at most once: in every reachable state the verdict was published at most once, at
  most one of a local response and the resumption was issued, and a request that was answered was not
  released.
\<close>

theorem settled_at_most_once:
  assumes "reachable (stream_init settings h) (stream_step M) s"
  shows "length (filter (\<lambda>e. \<exists>a b c. e = SetMetadataBool a b c) (env_log (st_env s))) \<le> 1 \<and>
         length (filter (\<lambda>e. e = ContinueDecoding \<or> (\<exists>a b c d. e = SendResponse a b c d))
           (env_log (st_env s))) \<le> 1 \<and>
         \<not> (released s \<and> answered s)"
proof (intro conjI)
  have f: "filter P (env_log env) = filter P (decisions env)" if "\<And>e. P e \<Longrightarrow> decisive e" for P and env :: "'a envoy"
    unfolding decisions_def filter_filter using that by (intro filter_cong) auto
  have f1: "filter (\<lambda>e. \<exists>a b c. e = SetMetadataBool a b c) (env_log (st_env s)) =
      filter (\<lambda>e. \<exists>a b c. e = SetMetadataBool a b c) (decisions (st_env s))"
    by (rule f) auto
  have f2: "filter (\<lambda>e. e = ContinueDecoding \<or> (\<exists>a b c d. e = SendResponse a b c d)) (env_log (st_env s)) =
      filter (\<lambda>e. e = ContinueDecoding \<or> (\<exists>a b c d. e = SendResponse a b c d)) (decisions (st_env s))"
    by (rule f) auto
  from reachable_outcome [OF assms] have "decisions (st_env s) = [] \<or>
      (\<exists>r. decisions (st_env s) = verdict (cfg_mode settings) r \<or>
           admission (cfg_mode settings) r = Allow \<and>
           decisions (st_env s) = verdict (cfg_mode settings) r @ [ContinueDecoding])"
  proof (elim disjE exE conjE)
    fix r status
    assume "settled M settings h status (st_env s) r"
    from settled_decisions [OF this] show ?thesis by auto
  qed simp
  then show
    "length (filter (\<lambda>e. \<exists>a b c. e = SetMetadataBool a b c) (env_log (st_env s))) \<le> 1"
    "length (filter (\<lambda>e. e = ContinueDecoding \<or> (\<exists>a b c d. e = SendResponse a b c d))
       (env_log (st_env s))) \<le> 1"
    unfolding f1 f2 by (elim disjE exE conjE; simp add: verdict_count)+
  from reachable_outcome [OF assms] show "\<not> (released s \<and> answered s)"
  proof (elim disjE exE conjE)
    fix r status
    assume "st_status s = Some status" "settled M settings h status (st_env s) r"
    from settled_outcome [OF this(2,1)] show ?thesis by simp
  qed simp
qed

theorem settled_at_most_once_witness:
  "released verified_stream \<and> \<not> answered verified_stream"
  using settled_at_most_once [OF verified_stream_reachable] verified_stream_headers(3) by blast

text \<open>
  C16. The callbacks never get stuck: the headers callback does not panic, the first completion after it
  leaves nothing pending and the request released or answered, and every later completion is ignored.
\<close>

theorem callbacks_settle:
  assumes "url_laws (m_url M)"
    and "reachable (stream_init settings h) (stream_step M) s" and "st_status s = Some status"
    and "on_http_callout_done M clock cid success hs body (st_filter s) (st_env s) = (env, f)"
  shows "on_request_headers M inp eos f' env' \<noteq> None \<and> flt_pending f = None \<and>
         (released \<lparr>st_env = env, st_filter = f, st_status = Some status\<rparr> \<or>
          answered \<lparr>st_env = env, st_filter = f, st_status = Some status\<rparr>) \<and>
         on_http_callout_done M clock2 cid2 success2 hs2 body2 f env = (env, f)"
proof (intro conjI)
  show "on_request_headers M inp eos f' env' \<noteq> None"
  proof -
    have "VerificationCandidate_parse (m_sfv M) (m_wba M) (m_url M) request a b c d e \<noteq> Panic"
      for request a b c d e
      by (simp add: VerificationCandidate_parse_def Let_def res_bind_Panic_iff map_err_iff ok_or_iff
          ensure_iff parse_discovery_target_not_Panic [OF assms(1)] split: prod.splits)
    then show ?thesis
      using try_from_envoy_not_Panic [of "m_headers M"]
      by (simp add: on_request_headers_def Let_def del: not_None_eq
          split: prod.splits SignatureHeaderState.splits res.splits)
  qed
  show p: "flt_pending f = None"
    using assms(4) by (auto simp: on_http_callout_done_def Let_def split: option.splits if_splits)
  let ?s = "\<lparr>st_env = env, st_filter = f, st_status = Some status\<rparr>"
  have "reachable (stream_init settings h) (stream_step M) ?s"
    using assms(2) callout_done [OF assms(3,4)] by (rule reachable_step)
  from streams.inv_reachable [OF this] p obtain r where "settled M settings h status (st_env ?s) r"
    by (auto simp: stream_inv_def)
  from settled_outcome [OF this] show "released ?s \<or> answered ?s" by auto
  show "on_http_callout_done M clock2 cid2 success2 hs2 body2 f env = (env, f)"
    using p by (rule on_http_callout_done_idle)
qed

theorem callbacks_settle_witness:
  "on_http_callout_done sample_module (\<lambda>n. n) 8 False None None (st_filter verified_stream) verified_env =
     (verified_env, st_filter verified_stream)"
proof -
  have w: "reachable (stream_init sample_settings spoofed_headers) (stream_step sample_module) verified_stream"
    "st_status verified_stream = Some StopAllIterationAndWatermark"
    "url_laws (m_url sample_module)"
    using verified_stream_reachable url_laws_plain by (simp_all add: verified_stream_def sample_module_def)
  have "on_http_callout_done sample_module (\<lambda>n. n) 7 True None None (st_filter verified_stream)
      (st_env verified_stream) = (verified_env, st_filter verified_stream)"
    by (simp add: on_http_callout_done_idle verified_stream_def WebBotAuthFilter_new_def)
  from callbacks_settle [OF w(3) w(1) w(2) this] show ?thesis by blast
qed

end
