(* ===== verification/Resolutions.thy ===== *)
theory Resolutions
  imports Interleaving
begin

text \<open>
  Concurrent resolutions. The resolver answers many requests at once: each holds a handler, loads one or two
  resources with the concurrent loads of \<open>Interleaving\<close>, and can be ended by its deadline or by its client at
  any await point. \<open>service.rs\<close> is cut into the steps between its loads.
\<close>

section \<open>One resolution in steps\<close>

text \<open>A resolution that was admitted, waits for the load of a key, or has its result.\<close>

datatype 'u resolution =
    Admitted ResolveRequest
  | Fetching ResolveRequest "'u DiscoveryTarget" "'u ResourceKey"
  | Finished ResolveRequest "(ResolveResponse, FetchError) res"

definition answer_from ::
  "('u, 'p, 'l) ResolverService \<Rightarrow> ResolveRequest \<Rightarrow> 'u DiscoveryTarget \<Rightarrow> ResourceKeyEntry list \<Rightarrow> ResolveResponse" where
  "answer_from self request target keys =
     (case select_key (dec_crypto (rl_decode (rs_loader self))) keys (req_key_id request) of
        Some jwk \<Rightarrow> Resolved (target_identifier target) jwk
      | None \<Rightarrow> KeyNotFound (target_identifier target))"

text \<open>\<open>resolve_inner\<close> up to its first load.\<close>

definition begin_resolution :: "('u, 'p, 'l) ResolverService \<Rightarrow> ResolveRequest \<Rightarrow> 'u resolution" where
  "begin_resolution self request =
     (case validate_request (rl_urls (rs_loader self)) request of
        Ok target \<Rightarrow>
          if \<not> rs_allow_test_keys self \<and> known_test_key (req_key_id request)
          then Finished request (Ok (KeyNotFound (target_identifier target)))
          else Fetching request target
                 \<lparr>rk_url = target_fetch_url target,
                  rk_kind = (if req_discovery request = DiscoveryMechanism.Cimd then ResourceKind.Cimd
                             else ResourceKind.Jwks)\<rparr>
      | Err e \<Rightarrow> Finished request (Err e)
      | Panic \<Rightarrow> Finished request Panic)"

text \<open>What follows a load: the key set is searched, a metadata document has its keys or names their URL.\<close>

definition after_load ::
  "('u, 'p, 'l) ResolverService \<Rightarrow> ResolveRequest \<Rightarrow> 'u DiscoveryTarget \<Rightarrow> 'u ResourceKey \<Rightarrow>
   (('u, 'p) Representation, FetchError) res \<Rightarrow> 'u resolution" where
  "after_load self request target key result =
     (case result of
        Ok rep \<Rightarrow>
          if rk_kind key = ResourceKind.Cimd then
            (case cimd_document (rep_resource rep) of
               Ok cimd \<Rightarrow>
                 (case cimd_inline_jwks cimd of
                    Some keys \<Rightarrow> Finished request (Ok (answer_from self request target keys))
                  | None \<Rightarrow>
                      (case cimd_jwks_uri cimd of
                         Some uri \<Rightarrow> Fetching request target \<lparr>rk_url = uri, rk_kind = ResourceKind.Jwks\<rparr>
                       | None \<Rightarrow> Finished request (Err (FetchError_new InvalidResource))))
             | Err e \<Rightarrow> Finished request (Err e)
             | Panic \<Rightarrow> Finished request Panic)
          else
            (case jwks_keys (rep_resource rep) of
               Ok keys \<Rightarrow> Finished request (Ok (answer_from self request target keys))
             | Err e \<Rightarrow> Finished request (Err e)
             | Panic \<Rightarrow> Finished request Panic)
      | Err e \<Rightarrow> Finished request (Err e)
      | Panic \<Rightarrow> Finished request Panic)"

text \<open>The steps one after the other, with the sequential loads between them.\<close>

definition run_load ::
  "('u, 'p, 'l) ResolverService \<Rightarrow> load_times \<Rightarrow> 'u resolution \<times> ('u, 'p, 'l) Loader_state \<Rightarrow>
   'u resolution \<times> ('u, 'p, 'l) Loader_state" where
  "run_load self t = (\<lambda>(job, s).
     (case job of
        Fetching request target key \<Rightarrow>
          let (result, s) = load_at (rs_loader self) t key s in (after_load self request target key result, s)
      | _ \<Rightarrow> (job, s)))"

lemma run_load_simps [simp]:
  "run_load self t (Finished request r, s) = (Finished request r, s)"
  "run_load self t (Fetching request target key, s) =
     (let (result, s) = load_at (rs_loader self) t key s in (after_load self request target key result, s))"
  by (simp_all add: run_load_def)

text \<open>These steps are \<open>resolve_inner\<close>.\<close>

lemma run_resolution:
  assumes "resolve_inner self t1 t2 request s = (r, s')"
  shows "run_load self t2 (run_load self t1 (begin_resolution self request, s)) = (Finished request r, s')"
proof (cases "validate_request (rl_urls (rs_loader self)) request")
  case (Ok target)
  have jwks: "run_load self t (Fetching request target \<lparr>rk_url = url, rk_kind = ResourceKind.Jwks\<rparr>, s) =
      (let (r, s) = st_bind (load_jwks (rs_loader self) t url) (\<lambda>keys.
         st_lift (Ok (answer_from self request target keys))) s in (Finished request r, s))" for t url s
    by (auto simp: load_jwks_def st_bind_def st_lift_def after_load_def split: prod.splits res.splits)
  let ?tail = "\<lambda>keys. st_lift (Ok (answer_from self request target keys))"
  consider (test) "\<not> rs_allow_test_keys self" "known_test_key (req_key_id request)"
    | (cimd) "rs_allow_test_keys self \<or> \<not> known_test_key (req_key_id request)" "req_discovery request = DiscoveryMechanism.Cimd"
    | (keys) "rs_allow_test_keys self \<or> \<not> known_test_key (req_key_id request)" "req_discovery request \<noteq> DiscoveryMechanism.Cimd"
    by blast
  then show ?thesis
  proof cases
    case test
    with Ok assms show ?thesis by (auto simp: resolve_inner_def begin_resolution_def st_bind_def st_lift_def Let_def)
  next
    case keys
    have "load_keys (rs_loader self) t1 t2 (req_discovery request) (target_fetch_url target) =
        load_jwks (rs_loader self) t1 (target_fetch_url target)"
      using keys(2) by (cases "req_discovery request") (simp_all add: load_keys_def)
    then have "st_bind (load_jwks (rs_loader self) t1 (target_fetch_url target)) ?tail s = (r, s')"
      using assms Ok keys(1) by (auto simp: resolve_inner_def answer_from_def st_bind_def st_lift_def Let_def)
    with Ok keys show ?thesis by (auto simp: begin_resolution_def jwks simp del: run_load_simps(2))
  next
    case cimd
    let ?k = "\<lparr>rk_url = target_fetch_url target, rk_kind = ResourceKind.Cimd\<rparr>"
    obtain result u where l: "load_at (rs_loader self) t1 ?k s = (result, u)" by fastforce
    have "st_bind (load_keys (rs_loader self) t1 t2 DiscoveryMechanism.Cimd (target_fetch_url target)) ?tail s = (r, s')"
      using assms Ok cimd by (auto simp: resolve_inner_def answer_from_def st_bind_def st_lift_def Let_def)
    then have "run_load self t2 (after_load self request target ?k result, u) = (Finished request r, s')"
      by (auto simp: load_keys_def l after_load_def jwks st_bind_def st_lift_def ok_or_def simp del: run_load_simps(2)
          split: res.splits option.splits prod.splits)
    with Ok cimd l show ?thesis by (auto simp: begin_resolution_def)
  qed
qed (use assms in \<open>auto simp: resolve_inner_def begin_resolution_def st_bind_def st_lift_def Let_def\<close>)

section \<open>Many resolutions\<close>

text \<open>The loads, the free handlers and the resolutions; the load of a resolution is the task of its number.\<close>

record ('u, 'p, 'l) resolver =
  rv_loads :: "('u, 'p, 'l) world"
  rv_handlers :: nat
  rv_jobs :: "nat \<rightharpoonup> 'u resolution"

fun unfinished :: "'u resolution \<Rightarrow> bool" where
  "unfinished (Finished _ _) = False"
| "unfinished _ = True"

text \<open>
  A resolution enters its next phase: it starts a load, or has its result and gives its handler back. One that
  is dropped leaves its load, whatever that waits for.
\<close>

definition enter :: "nat \<Rightarrow> 'u resolution \<Rightarrow> ('u, 'p, 'l) resolver \<Rightarrow> ('u, 'p, 'l) resolver" where
  "enter i job v =
     (case job of
        Fetching request target key \<Rightarrow>
          v\<lparr>rv_loads := set_task i (Looking key) (rv_loads v), rv_jobs := (rv_jobs v)(i \<mapsto> job)\<rparr>
      | _ \<Rightarrow> v\<lparr>rv_handlers := rv_handlers v + (if unfinished job then 0 else 1), rv_jobs := (rv_jobs v)(i \<mapsto> job)\<rparr>)"

definition leave_load :: "nat \<Rightarrow> ('u, 'p, 'l) resolver \<Rightarrow> ('u, 'p, 'l) resolver" where
  "leave_load i v = v\<lparr>rv_loads := drop_task i (rv_loads v)\<rparr>"

definition arrive :: "nat \<Rightarrow> ResolveRequest \<Rightarrow> ('u, 'p, 'l) resolver \<Rightarrow> ('u, 'p, 'l) resolver" where
  "arrive i request v =
     (case rv_handlers v of
        0 \<Rightarrow> v\<lparr>rv_jobs := (rv_jobs v)(i \<mapsto> Finished request (Err (FetchError_new Overloaded)))\<rparr>
      | Suc n \<Rightarrow> v\<lparr>rv_handlers := n, rv_jobs := (rv_jobs v)(i \<mapsto> Admitted request)\<rparr>)"

lemma enter_jobs: "rv_jobs (enter i job v) = (rv_jobs v)(i \<mapsto> job)"
  by (simp add: enter_def split: resolution.splits)

fun resolution_request :: "'u resolution \<Rightarrow> ResolveRequest" where
  "resolution_request (Admitted request) = request"
| "resolution_request (Fetching request _ _) = request"
| "resolution_request (Finished request _) = request"

text \<open>
  The steps: a request arrives, is looked at, and its loads run; the deadline ends it with an error; a client that
  goes away, or a panic, ends it without an answer.
\<close>

inductive resolver_init :: "('u, 'p, 'l) ResolverService \<Rightarrow> ('u, 'p, 'l) resolver \<Rightarrow> bool" for self where
  "world_init (rs_loader self) (rs_limits self) w \<Longrightarrow>
   resolver_init self \<lparr>rv_loads = w, rv_handlers = active_handlers (rs_limits self), rv_jobs = Map.empty\<rparr>"

inductive resolver_step :: "('u, 'p, 'l) ResolverService \<Rightarrow> ('u, 'p, 'l) resolver \<Rightarrow> ('u, 'p, 'l) resolver \<Rightarrow> bool"
  for self where
  job_arrive: "rv_jobs v i = None \<Longrightarrow> resolver_step self v (arrive i request v)"
| job_begin: "rv_jobs v i = Some (Admitted request) \<Longrightarrow>
     resolver_step self v (enter i (begin_resolution self request) v)"
| job_load: "task_step (rs_loader self) i (rv_loads v) w \<Longrightarrow> dom (wd_tasks w) = dom (wd_tasks (rv_loads v)) \<Longrightarrow>
     resolver_step self v (v\<lparr>rv_loads := w\<rparr>)"
| job_loaded: "rv_jobs v i = Some (Fetching request target key) \<Longrightarrow>
     wd_tasks (rv_loads v) i = Some (Answered key' r) \<Longrightarrow>
     resolver_step self v (enter i (after_load self request target key r) (leave_load i v))"
| job_deadline: "rv_jobs v i = Some job \<Longrightarrow> unfinished job \<Longrightarrow>
     resolver_step self v (enter i (Finished (resolution_request job) (Err (FetchError_new Timeout))) (leave_load i v))"
| job_disconnect: "rv_jobs v i = Some job \<Longrightarrow>
     resolver_step self v ((leave_load i v)
       \<lparr>rv_handlers := rv_handlers v + (if unfinished job then 1 else 0), rv_jobs := (rv_jobs v)(i := None)\<rparr>)"
| job_evict: "resolver_step self v
     (v\<lparr>rv_loads := (rv_loads v)\<lparr>wd_shared := evict A B F G H (wd_shared (rv_loads v))\<rparr>\<rparr>)"

section \<open>Loads keep their keys\<close>

fun phase_key :: "('u, 'p) phase \<Rightarrow> 'u ResourceKey" where
  "phase_key (Looking key) = key"
| "phase_key (Missed key _ _) = key"
| "phase_key (Expired key _ _) = key"
| "phase_key (Joining key _ _) = key"
| "phase_key (Waiting key _ _) = key"
| "phase_key (Leading key _ _ _) = key"
| "phase_key (Got key _ _ _) = key"
| "phase_key (Answered key _) = key"

lemma wake_phase_key: "map_option phase_key (wake key outcome tasks i) = map_option phase_key (tasks i)"
  by (auto simp: wake_def split: option.splits phase.splits)

lemma look_phase_key: "look E now key s = (ph, t) \<Longrightarrow> phase_key ph = key"
  by (auto simp: look_def split: res.splits option.splits if_splits)

lemma consult_phase_key: "phase_key (consult inst key now previous s) = key"
  by (simp add: consult_def split: option.splits)

lemma task_step_phase_key:
  assumes "task_step E i w w'" and "dom (wd_tasks w') = dom (wd_tasks w)"
  shows "map_option phase_key (wd_tasks w' j) = map_option phase_key (wd_tasks w j)"
  using assms(1)
proof cases
  case (task_conclude key now previous r ended end_at out s)
  then show ?thesis by (cases "j = i") (simp_all add: wake_phase_key)
next
  case (task_panic key now previous)
  then have "i \<in> dom (wd_tasks w)" "i \<notin> dom (wd_tasks w')" by (auto simp: drop_task_def)
  with assms(2) show ?thesis by simp
qed (auto simp: set_task_def look_phase_key consult_phase_key)

lemma drop_task_phase_key:
  "map_option phase_key (wd_tasks (drop_task i w) j) = (if j = i then None else map_option phase_key (wd_tasks w j))"
  by (auto simp: drop_task_def wake_phase_key split: option.splits phase.splits)

section \<open>The invariant\<close>

definition accepted :: "('u, 'p, 'l) ResolverService \<Rightarrow> ResolveRequest \<Rightarrow> 'u DiscoveryTarget \<Rightarrow> bool" where
  "accepted self request target \<longleftrightarrow>
     validate_request (rl_urls (rs_loader self)) request = Ok target \<and>
     (rs_allow_test_keys self \<or> \<not> known_test_key (req_key_id request))"

text \<open>Where the load of a resolution looks: at the discovery URL, or where its metadata document points.\<close>

definition key_source ::
  "('u, 'p, 'l) ResolverService \<Rightarrow> ResolveRequest \<Rightarrow> 'u DiscoveryTarget \<Rightarrow> 'u ResourceKey \<Rightarrow> bool" where
  "key_source self request target key \<longleftrightarrow>
     (let first = (\<lambda>kind. \<lparr>rk_url = target_fetch_url target, rk_kind = kind\<rparr>) in
      if req_discovery request = DiscoveryMechanism.Cimd then
        key = first ResourceKind.Cimd \<or>
        (\<exists>doc uri. fetched (rs_loader self) (first ResourceKind.Cimd) (ParsedResource.Cimd doc) \<and>
           cimd_inline_jwks doc = None \<and> cimd_jwks_uri doc = Some uri \<and>
           key = \<lparr>rk_url = uri, rk_kind = ResourceKind.Jwks\<rparr>)
      else key = first ResourceKind.Jwks)"

definition resolved_ok :: "('u, 'p, 'l) ResolverService \<Rightarrow> ResolveRequest \<Rightarrow> string \<Rightarrow> Ed25519Jwk \<Rightarrow> bool" where
  "resolved_ok self request identifier jwk \<longleftrightarrow>
     (\<exists>target e. accepted self request target \<and> identifier = target_identifier target \<and>
        published (rs_loader self) (req_discovery request) (target_fetch_url target) e \<and> entry_jwk e = jwk \<and>
        is_valid_public_key (dec_crypto (rl_decode (rs_loader self))) jwk \<and>
        (entry_kid e = Some (req_key_id request) \<or>
         b64_thumbprint (dec_crypto (rl_decode (rs_loader self))) jwk = req_key_id request))"

fun job_ok :: "('u, 'p, 'l) ResolverService \<Rightarrow> 'u resolution \<Rightarrow> bool" where
  "job_ok self (Admitted request) = True"
| "job_ok self (Fetching request target key) = (accepted self request target \<and> key_source self request target key)"
| "job_ok self (Finished request r) =
     (\<forall>identifier jwk. r = Ok (Resolved identifier jwk) \<longrightarrow> resolved_ok self request identifier jwk)"

fun loading :: "'u resolution \<Rightarrow> 'u ResourceKey option" where
  "loading (Fetching _ _ key) = Some key"
| "loading _ = None"

definition handlers_ok :: "('u, 'p, 'l) ResolverService \<Rightarrow> nat \<Rightarrow> (nat \<rightharpoonup> 'u resolution) \<Rightarrow> bool" where
  "handlers_ok self n jobs \<longleftrightarrow>
     finite (dom jobs) \<and> n + card (holding unfinished jobs) = active_handlers (rs_limits self)"

definition jobs_ok :: "('u, 'p, 'l) ResolverService \<Rightarrow> (nat \<rightharpoonup> 'u resolution) \<Rightarrow> bool" where
  "jobs_ok self jobs \<longleftrightarrow> (\<forall>i job. jobs i = Some job \<longrightarrow> job_ok self job)"

definition loads_ok :: "('u, 'p, 'l) world \<Rightarrow> (nat \<rightharpoonup> 'u resolution) \<Rightarrow> bool" where
  "loads_ok w jobs \<longleftrightarrow> (\<forall>i. map_option phase_key (wd_tasks w i) = Option.bind (jobs i) loading)"

definition resolver_inv :: "('u, 'p, 'l) ResolverService \<Rightarrow> ('u, 'p, 'l) resolver \<Rightarrow> bool" where
  "resolver_inv self v \<longleftrightarrow>
     world_inv (rs_loader self) (rs_limits self) (rv_loads v) \<and> handlers_ok self (rv_handlers v) (rv_jobs v) \<and>
     jobs_ok self (rv_jobs v) \<and> loads_ok (rv_loads v) (rv_jobs v)"

subsection \<open>What the steps of one resolution lead to\<close>

lemma begin_resolution_ok: "job_ok self (begin_resolution self request)"
  by (auto simp: begin_resolution_def accepted_def key_source_def Let_def split: res.splits)

lemma answer_from_ok:
  assumes "accepted self request target"
    and "\<And>e. e \<in> set keys \<Longrightarrow> published (rs_loader self) (req_discovery request) (target_fetch_url target) e"
  shows "job_ok self (Finished request (Ok (answer_from self request target keys)))"
proof -
  have "resolved_ok self request (target_identifier target) jwk"
    if "select_key (dec_crypto (rl_decode (rs_loader self))) keys (req_key_id request) = Some jwk" for jwk
  proof -
    from select_key_Some [OF that] obtain e where e: "e \<in> set keys" "entry_jwk e = jwk"
      "entry_kid e = Some (req_key_id request) \<or> b64_thumbprint (dec_crypto (rl_decode (rs_loader self))) jwk = req_key_id request"
      by blast
    from assms(2) [OF e(1)] published_valid [OF assms(2) [OF e(1)]] e assms(1) show ?thesis
      unfolding resolved_ok_def by blast
  qed
  then show ?thesis by (auto simp: answer_from_def split: option.splits)
qed

lemma after_load_ok:
  assumes a: "accepted self request target" and k: "key_source self request target key"
    and r: "\<And>rep. r = Ok rep \<Longrightarrow> valid_rep (rs_loader self) key rep"
  shows "job_ok self (after_load self request target key r)"
proof (cases r)
  case (Ok rep)
  have f: "fetched (rs_loader self) key (rep_resource rep)" using r [OF Ok] by (simp add: valid_rep_def)
  show ?thesis
  proof (cases "rk_kind key = ResourceKind.Cimd")
    case True
    with k have d: "req_discovery request = DiscoveryMechanism.Cimd"
      "key = \<lparr>rk_url = target_fetch_url target, rk_kind = ResourceKind.Cimd\<rparr>"
      by (auto simp: key_source_def Let_def split: if_splits)
    show ?thesis
    proof (cases "rep_resource rep")
      case (Cimd doc)
      show ?thesis
      proof (cases "cimd_inline_jwks doc")
        case (Some keys)
        have "job_ok self (Finished request (Ok (answer_from self request target keys)))"
          using a f d Some Cimd by (intro answer_from_ok) (auto simp: published_def)
        with Ok True Cimd Some show ?thesis by (simp add: after_load_def)
      next
        case None
        with Ok True Cimd a d f show ?thesis
          by (auto simp: after_load_def key_source_def Let_def split: option.splits)
      qed
    qed (use Ok True in \<open>simp add: after_load_def\<close>)
  next
    case False
    show ?thesis
    proof (cases "rep_resource rep")
      case (Jwks keys)
      have "job_ok self (Finished request (Ok (answer_from self request target keys)))"
        using a f k False Jwks
        by (intro answer_from_ok) (auto simp: published_def key_source_def Let_def split: if_splits)
      with Ok False Jwks show ?thesis by (simp add: after_load_def)
    qed (use Ok False in \<open>simp add: after_load_def\<close>)
  qed
qed (simp_all add: after_load_def)

subsection \<open>Every step keeps it\<close>

lemma handlers_ok_update:
  assumes "handlers_ok self n jobs"
    and "n' + of_bool (\<exists>job. x = Some job \<and> unfinished job) = n + of_bool (\<exists>job. jobs i = Some job \<and> unfinished job)"
  shows "handlers_ok self n' (jobs(i := x))"
  using assms card_holding_update [of jobs unfinished i x] by (simp add: handlers_ok_def)

lemma jobs_ok_update: "jobs_ok self jobs \<Longrightarrow> job_ok self job \<Longrightarrow> jobs_ok self (jobs(i \<mapsto> job))"
  by (simp add: jobs_ok_def)

lemma loads_ok_task: "loads_ok w jobs \<Longrightarrow> Option.bind (jobs i) loading = None \<Longrightarrow> wd_tasks w i = None"
  unfolding loads_ok_def by (metis option.map_disc_iff)

text \<open>A resolution without a load enters its next phase.\<close>

lemma resolver_inv_enter:
  assumes "world_inv (rs_loader self) (rs_limits self) w" and "wd_tasks w i = None"
    and "handlers_ok self n jobs" and "jobs i = Some old" and "unfinished old" and "jobs_ok self jobs"
    and "\<And>j. j \<noteq> i \<Longrightarrow> map_option phase_key (wd_tasks w j) = Option.bind (jobs j) loading"
    and "job_ok self job"
  shows "resolver_inv self (enter i job \<lparr>rv_loads = w, rv_handlers = n, rv_jobs = jobs\<rparr>)"
proof (cases job)
  case (Fetching request target key)
  have "world_inv (rs_loader self) (rs_limits self) (set_task i (Looking key) w)"
    by (rule world_inv_step [OF assms(1) world_spawn [of w i, OF assms(2)]])
  moreover have "handlers_ok self n (jobs(i \<mapsto> job))"
    using assms(3-5) Fetching by (intro handlers_ok_update [where n = n]) auto
  moreover have "jobs_ok self (jobs(i \<mapsto> job))"
    using assms(6,8) by (rule jobs_ok_update)
  moreover have "loads_ok (set_task i (Looking key) w) (jobs(i \<mapsto> job))"
    using assms(7) Fetching by (simp add: loads_ok_def set_task_def)
  ultimately show ?thesis by (simp add: resolver_inv_def enter_def Fetching)
next
  case (Admitted request)
  have "handlers_ok self n (jobs(i \<mapsto> job))"
    using assms(3-5) Admitted by (intro handlers_ok_update [where n = n]) auto
  moreover have "jobs_ok self (jobs(i \<mapsto> job))"
    using assms(6,8) by (rule jobs_ok_update)
  moreover have "loads_ok w (jobs(i \<mapsto> job))"
    using assms(2,7) Admitted by (simp add: loads_ok_def)
  ultimately show ?thesis using assms(1) by (simp add: resolver_inv_def enter_def Admitted)
next
  case (Finished request r)
  have "handlers_ok self (n + 1) (jobs(i \<mapsto> job))"
    using assms(3-5) Finished by (intro handlers_ok_update [where n = n]) auto
  moreover have "jobs_ok self (jobs(i \<mapsto> job))"
    using assms(6,8) by (rule jobs_ok_update)
  moreover have "loads_ok w (jobs(i \<mapsto> job))"
    using assms(2,7) Finished by (simp add: loads_ok_def)
  ultimately show ?thesis using assms(1) by (simp add: resolver_inv_def enter_def Finished)
qed

lemma resolver_inv_drop:
  assumes "resolver_inv self v"
  shows "world_inv (rs_loader self) (rs_limits self) (drop_task i (rv_loads v))"
    and "wd_tasks (drop_task i (rv_loads v)) i = None"
    and "j \<noteq> i \<Longrightarrow> map_option phase_key (wd_tasks (drop_task i (rv_loads v)) j) = Option.bind (rv_jobs v j) loading"
proof -
  show "world_inv (rs_loader self) (rs_limits self) (drop_task i (rv_loads v))"
    using assms by (simp add: resolver_inv_def world_inv_drop)
  show "wd_tasks (drop_task i (rv_loads v)) i = None"
    using drop_task_phase_key [of i "rv_loads v" i] by simp
  show "map_option phase_key (wd_tasks (drop_task i (rv_loads v)) j) = Option.bind (rv_jobs v j) loading" if "j \<noteq> i"
    using assms that by (simp add: resolver_inv_def loads_ok_def drop_task_phase_key)
qed

lemma resolver_inv_leave_enter:
  assumes "resolver_inv self v" and "rv_jobs v i = Some old" and "unfinished old" and "job_ok self job"
  shows "resolver_inv self (enter i job (leave_load i v))"
proof -
  have "leave_load i v = \<lparr>rv_loads = drop_task i (rv_loads v), rv_handlers = rv_handlers v, rv_jobs = rv_jobs v\<rparr>"
    by (simp add: leave_load_def)
  with resolver_inv_enter [OF resolver_inv_drop(1,2) [OF assms(1)] _ assms(2,3) _ resolver_inv_drop(3) [OF assms(1)] assms(4)]
    assms(1)
  show ?thesis by (simp add: resolver_inv_def)
qed

lemma resolver_inv_step:
  assumes "resolver_inv self v" and "resolver_step self v v'"
  shows "resolver_inv self v'"
  using assms(2)
proof cases
  case (job_arrive i request)
  have w: "world_inv (rs_loader self) (rs_limits self) (rv_loads v)" "handlers_ok self (rv_handlers v) (rv_jobs v)"
    "jobs_ok self (rv_jobs v)" "loads_ok (rv_loads v) (rv_jobs v)"
    using assms(1) by (simp_all add: resolver_inv_def)
  have l: "loads_ok (rv_loads v) ((rv_jobs v)(i \<mapsto> job))" if "loading job = None" for job
    using w(4) job_arrive(2) that by (auto simp: loads_ok_def)
  show ?thesis
    unfolding job_arrive(1) resolver_inv_def arrive_def
    using w job_arrive(2) by (auto intro!: l handlers_ok_update jobs_ok_update split: nat.splits)
next
  case (job_begin i request)
  have t: "wd_tasks (rv_loads v) i = None"
    using assms(1) job_begin(2) by (intro loads_ok_task [of _ "rv_jobs v"]) (simp_all add: resolver_inv_def)
  have "v = \<lparr>rv_loads = rv_loads v, rv_handlers = rv_handlers v, rv_jobs = rv_jobs v\<rparr>" by simp
  with resolver_inv_enter [OF _ t, of self "rv_handlers v" "rv_jobs v", OF _ _ job_begin(2) _ _ _ begin_resolution_ok]
    assms(1) job_begin(1)
  show ?thesis by (simp add: resolver_inv_def loads_ok_def)
next
  case (job_load i w)
  have "world_inv (rs_loader self) (rs_limits self) w"
    using assms(1) world_inv_task [OF _ job_load(2)] by (simp add: resolver_inv_def)
  moreover have "loads_ok w (rv_jobs v)"
    using assms(1) task_step_phase_key [OF job_load(2,3)] by (simp add: resolver_inv_def loads_ok_def)
  ultimately show ?thesis using assms(1) job_load(1) by (simp add: resolver_inv_def)
next
  case (job_loaded i request target key key' r)
  have w: "world_inv (rs_loader self) (rs_limits self) (rv_loads v)" using assms(1) by (simp add: resolver_inv_def)
  have j: "accepted self request target" "key_source self request target key"
    using assms(1) job_loaded(2) by (force simp: resolver_inv_def jobs_ok_def)+
  have "map_option phase_key (wd_tasks (rv_loads v) i) = Some key"
    using assms(1) job_loaded(2) by (simp add: resolver_inv_def loads_ok_def)
  with job_loaded(3) have "key' = key" by simp
  with phase_ok_task [OF w job_loaded(3)] have "valid_rep (rs_loader self) key rep" if "r = Ok rep" for rep
    using that by simp
  with j have "job_ok self (after_load self request target key r)" by (rule after_load_ok)
  with resolver_inv_leave_enter [OF assms(1) job_loaded(2)] show ?thesis by (simp add: job_loaded(1))
next
  case (job_deadline i job)
  show ?thesis
    unfolding job_deadline(1) by (rule resolver_inv_leave_enter [OF assms(1) job_deadline(2,3)]) simp
next
  case (job_disconnect i job)
  have "handlers_ok self (rv_handlers v + (if unfinished job then 1 else 0)) ((rv_jobs v)(i := None))"
    using assms(1) job_disconnect(2) by (intro handlers_ok_update [where n = "rv_handlers v"]) (auto simp: resolver_inv_def)
  moreover have "loads_ok (drop_task i (rv_loads v)) ((rv_jobs v)(i := None))"
    using resolver_inv_drop(2,3) [OF assms(1)] by (simp add: loads_ok_def)
  moreover have "jobs_ok self ((rv_jobs v)(i := None))" using assms(1) by (simp add: resolver_inv_def jobs_ok_def)
  ultimately show ?thesis
    using resolver_inv_drop(1) [OF assms(1)] by (simp add: job_disconnect(1) resolver_inv_def leave_load_def)
next
  case (job_evict A B F G H)
  have "world_inv (rs_loader self) (rs_limits self) (rv_loads v)" using assms(1) by (simp add: resolver_inv_def)
  from world_inv_step [OF this world_evict [of _ _ A B F G H]] assms(1) show ?thesis
    by (simp add: job_evict resolver_inv_def loads_ok_def)
qed

interpretation resolvers: invariant_of "resolver_init self" "resolver_step self" "resolver_inv self"
  for self :: "('a, 'b, 'c) ResolverService"
proof
  fix v
  assume "resolver_init self v"
  then show "resolver_inv self v"
  proof cases
    case (1 w)
    then have "wd_tasks w = Map.empty" by (auto elim: world_init.cases)
    with 1 world_inv_init [OF 1(2)] show ?thesis
      by (simp add: resolver_inv_def handlers_ok_def holding_def jobs_ok_def loads_ok_def)
  qed
qed (rule resolver_inv_step)

section \<open>A resolution on its own\<close>

text \<open>The steps the resolver takes itself: nobody arrives, leaves or runs out of time.\<close>

inductive resolver_works :: "('u, 'p, 'l) ResolverService \<Rightarrow> ('u, 'p, 'l) resolver \<Rightarrow> ('u, 'p, 'l) resolver \<Rightarrow> bool"
  for self where
  works_begin: "rv_jobs v i = Some (Admitted request) \<Longrightarrow>
     resolver_works self v (enter i (begin_resolution self request) v)"
| works_load: "task_step (rs_loader self) i (rv_loads v) w \<Longrightarrow> dom (wd_tasks w) = dom (wd_tasks (rv_loads v)) \<Longrightarrow>
     resolver_works self v (v\<lparr>rv_loads := w\<rparr>)"
| works_loaded: "rv_jobs v i = Some (Fetching request target key) \<Longrightarrow>
     wd_tasks (rv_loads v) i = Some (Answered key' r) \<Longrightarrow>
     resolver_works self v (enter i (after_load self request target key r) (leave_load i v))"

lemma resolver_works_step: "resolver_works self v v' \<Longrightarrow> resolver_step self v v'"
  by (induction rule: resolver_works.induct) (auto intro: job_begin job_load job_loaded)

lemma resolver_works_jobs: "resolver_works self v v' \<Longrightarrow> dom (rv_jobs v') = dom (rv_jobs v)"
  by (induction rule: resolver_works.induct) (auto simp: enter_jobs leave_load_def split: if_splits)

definition idle_world :: "('u, 'p, 'l) Loader_state \<Rightarrow> ('u, 'p, 'l) world" where
  "idle_world s = \<lparr>wd_shared = s, wd_leaders = Map.empty, wd_tasks = Map.empty\<rparr>"

text \<open>The resolver in which one resolution runs, with \<open>n\<close> handlers besides its own.\<close>

definition solo :: "nat \<Rightarrow> 'u resolution \<Rightarrow> ('u, 'p, 'l) Loader_state \<Rightarrow> nat \<Rightarrow> ('u, 'p, 'l) resolver" where
  "solo i job s n =
     \<lparr>rv_loads = (case loading job of Some key \<Rightarrow> alone i (Looking key) s | None \<Rightarrow> idle_world s),
      rv_handlers = n + (if unfinished job then 0 else 1), rv_jobs = [i \<mapsto> job]\<rparr>"

lemma enter_solo:
  "enter i job \<lparr>rv_loads = idle_world s, rv_handlers = n, rv_jobs = [i \<mapsto> old]\<rparr> = solo i job s n"
  by (cases job) (simp_all add: enter_def solo_def idle_world_def alone_def set_task_def)

lemma task_step_dom:
  assumes "task_step E i w w'"
  shows "i \<in> dom (wd_tasks w)" and "i \<in> dom (wd_tasks w') \<Longrightarrow> dom (wd_tasks w') = dom (wd_tasks w)"
proof -
  show i: "i \<in> dom (wd_tasks w)" using assms by cases auto
  show "dom (wd_tasks w') = dom (wd_tasks w)" if "i \<in> dom (wd_tasks w')"
    using assms
  proof cases
    case (task_panic key now previous)
    with that show ?thesis by (simp add: drop_task_def)
  qed (use i in \<open>simp_all add: set_task_def insert_absorb\<close>)
qed

text \<open>The steps of a load, as steps of the resolver.\<close>

lemma lift_loads:
  assumes "(task_step (rs_loader self) i)\<^sup>*\<^sup>* w w'" and "i \<in> dom (wd_tasks w')"
  shows "(resolver_works self)\<^sup>*\<^sup>* (v\<lparr>rv_loads := w\<rparr>) (v\<lparr>rv_loads := w'\<rparr>)"
  using assms
proof (induction rule: rtranclp_induct)
  case (step w1 w2)
  from task_step_dom [OF step.hyps(2)] step.prems have "i \<in> dom (wd_tasks w1)" "dom (wd_tasks w2) = dom (wd_tasks w1)"
    by simp_all
  with step.IH works_load [of self i "v\<lparr>rv_loads := w1\<rparr>" w2] step.hyps(2) show ?case by auto
qed simp

lemma solo_load:
  assumes "total_env (rs_loader self)" and "Limits_validate (wc_limits (ld_controls s)) = Ok ()"
    and "run_load self t (job, s) = (job', s')" and "\<nexists>request. job = Admitted request"
  shows "(resolver_works self)\<^sup>*\<^sup>* (solo i job s n) (solo i job' s' n)"
proof (cases job)
  case (Fetching request target key)
  obtain r u where l: "load_at (rs_loader self) t key s = (r, u)" by fastforce
  with assms(3) Fetching have r: "job' = after_load self request target key r" "s' = u" by auto
  let ?v = "\<lparr>rv_loads = alone i (Looking key) s, rv_handlers = n, rv_jobs = [i \<mapsto> job]\<rparr>"
  let ?w = "alone i (Answered key r) s'"
  have "(task_step (rs_loader self) i)\<^sup>*\<^sup>* (alone i (Looking key) s) ?w"
    using l r(2) by (intro alone_load [OF assms(1,2)]) (simp add: load_at_def)
  from lift_loads [OF this, of ?v] have "(resolver_works self)\<^sup>*\<^sup>* ?v (?v\<lparr>rv_loads := ?w\<rparr>)" by (simp add: alone_def)
  moreover have "resolver_works self (?v\<lparr>rv_loads := ?w\<rparr>) (enter i job' (leave_load i (?v\<lparr>rv_loads := ?w\<rparr>)))"
    unfolding r(1) by (rule works_loaded [of _ i _ _ _ key]) (simp_all add: Fetching alone_def)
  moreover have "leave_load i (?v\<lparr>rv_loads := ?w\<rparr>) = \<lparr>rv_loads = idle_world s', rv_handlers = n, rv_jobs = [i \<mapsto> job]\<rparr>"
    by (simp add: leave_load_def drop_task_def alone_def idle_world_def)
  ultimately show ?thesis by (simp add: enter_solo) (simp add: solo_def Fetching)
qed (use assms in auto)

lemma after_load_not_Admitted: "after_load self request target key r \<noteq> Admitted request'"
  by (auto simp: after_load_def split: res.splits option.splits)

lemma run_load_facts:
  assumes "run_load self t (job, s) = (job', u)" and "\<nexists>request. job = Admitted request"
  shows "\<nexists>request. job' = Admitted request" and "wc_limits (ld_controls u) = wc_limits (ld_controls s)"
  using assms load_effect(3) [of "rs_loader self" "lt_refresh t" "lt_now t" "lt_instant t" _ s]
  by (cases job; auto simp: load_at_def after_load_not_Admitted case_prod_unfold Let_def)+

lemma alone_works:
  assumes "total_env (rs_loader self)" and "Limits_validate (wc_limits (ld_controls s)) = Ok ()"
    and "resolve_inner self t1 t2 request s = (r, s')"
  shows "(resolver_works self)\<^sup>*\<^sup>*
    \<lparr>rv_loads = idle_world s, rv_handlers = n, rv_jobs = [i \<mapsto> Admitted request]\<rparr> (solo i (Finished request r) s' n)"
proof -
  let ?v = "\<lparr>rv_loads = idle_world s, rv_handlers = n, rv_jobs = [i \<mapsto> Admitted request]\<rparr>"
  let ?job = "begin_resolution self request"
  have "resolver_works self ?v (solo i ?job s n)"
    using works_begin [of ?v i request self] by (simp add: enter_solo)
  moreover obtain job u where one: "run_load self t1 (?job, s) = (job, u)" by fastforce
  have two: "run_load self t2 (job, u) = (Finished request r, s')" using run_resolution [OF assms(3)] one by simp
  have a: "\<nexists>request. ?job = Admitted request" by (auto simp: begin_resolution_def split: res.splits)
  have "(\<nexists>request. job = Admitted request) \<and> wc_limits (ld_controls u) = wc_limits (ld_controls s)"
    using run_load_facts [OF one a] by simp
  then have "(resolver_works self)\<^sup>*\<^sup>* (solo i ?job s n) (solo i job u n)"
    "(resolver_works self)\<^sup>*\<^sup>* (solo i job u n) (solo i (Finished request r) s' n)"
    using solo_load [OF assms(1,2) one a] solo_load [OF assms(1) _ two] assms(2) by simp_all
  ultimately show ?thesis by (meson converse_rtranclp_into_rtranclp rtranclp_trans)
qed

lemma alone_resolution:
  assumes "total_env (rs_loader self)" and "Limits_validate (wc_limits (ld_controls s)) = Ok ()"
    and "resolve_inner self t1 t2 request s = (r, s')"
  shows "(resolver_step self)\<^sup>*\<^sup>*
    \<lparr>rv_loads = idle_world s, rv_handlers = Suc n, rv_jobs = Map.empty\<rparr> (solo i (Finished request r) s' n)"
proof -
  let ?v = "\<lparr>rv_loads = idle_world s, rv_handlers = Suc n, rv_jobs = Map.empty\<rparr>"
  have "resolver_step self ?v \<lparr>rv_loads = idle_world s, rv_handlers = n, rv_jobs = [i \<mapsto> Admitted request]\<rparr>"
    using job_arrive [of ?v i self request] by (simp add: arrive_def)
  moreover have "(resolver_step self)\<^sup>*\<^sup>* \<lparr>rv_loads = idle_world s, rv_handlers = n, rv_jobs = [i \<mapsto> Admitted request]\<rparr>
      (solo i (Finished request r) s' n)"
    using rtranclp_mono [of "resolver_works self" "resolver_step self"] alone_works [OF assms, of n i] resolver_works_step
    by blast
  ultimately show ?thesis by (rule converse_rtranclp_into_rtranclp)
qed

section \<open>Progress\<close>

text \<open>What a resolution has left at most, besides the steps of the load it runs.\<close>

fun job_rank :: "'u resolution \<Rightarrow> nat" where
  "job_rank (Admitted _) = 29"
| "job_rank (Fetching _ _ key) = (if rk_kind key = ResourceKind.Cimd then 15 else 1)"
| "job_rank (Finished _ _) = 0"

definition resolver_left :: "('u, 'p, 'l) resolver \<Rightarrow> nat" where
  "resolver_left v = work_left (wd_tasks (rv_loads v)) + weight job_rank (rv_jobs v)"

lemma loads_unfinished:
  assumes "resolver_inv self v"
  shows "dom (wd_tasks (rv_loads v)) \<subseteq> holding unfinished (rv_jobs v)" and "finite (holding unfinished (rv_jobs v))"
proof -
  show "dom (wd_tasks (rv_loads v)) \<subseteq> holding unfinished (rv_jobs v)"
  proof
    fix i
    assume "i \<in> dom (wd_tasks (rv_loads v))"
    then obtain ph where "wd_tasks (rv_loads v) i = Some ph" by blast
    moreover have "map_option phase_key (wd_tasks (rv_loads v) i) = Option.bind (rv_jobs v i) loading"
      using assms by (simp add: resolver_inv_def loads_ok_def)
    ultimately have "Option.bind (rv_jobs v i) loading = Some (phase_key ph)" by simp
    then obtain job where "rv_jobs v i = Some job" "loading job \<noteq> None" by (cases "rv_jobs v i") auto
    then show "i \<in> holding unfinished (rv_jobs v)" by (cases job) (auto simp: holding_def)
  qed
  have "finite (dom (rv_jobs v))" using assms by (simp add: resolver_inv_def handlers_ok_def)
  moreover have "holding unfinished (rv_jobs v) \<subseteq> dom (rv_jobs v)" by (auto simp: holding_def)
  ultimately show "finite (holding unfinished (rv_jobs v))" by (rule rev_finite_subset)
qed

lemma resolver_left_bound:
  assumes "resolver_inv self v"
  shows "resolver_left v \<le> 29 * active_handlers (rs_limits self)"
proof -
  let ?U = "holding unfinished (rv_jobs v)"
  let ?t = "\<lambda>i. case wd_tasks (rv_loads v) i of Some ph \<Rightarrow> phase_rank ph | None \<Rightarrow> 0"
  note d = loads_unfinished [OF assms]
  have f: "finite (dom (rv_jobs v))" "rv_handlers v + card ?U = active_handlers (rs_limits self)"
    using assms by (simp_all add: resolver_inv_def handlers_ok_def)
  have "weight job_rank (rv_jobs v) = (\<Sum>i\<in>?U. job_rank (the (rv_jobs v i)))"
    unfolding weight_def
  proof (rule sum.mono_neutral_right [OF f(1)])
    show "\<forall>i\<in>dom (rv_jobs v) - ?U. job_rank (the (rv_jobs v i)) = 0"
    proof
      fix i
      assume "i \<in> dom (rv_jobs v) - ?U"
      then obtain job where "rv_jobs v i = Some job" "\<not> unfinished job" by (auto simp: holding_def)
      then show "job_rank (the (rv_jobs v i)) = 0" by (cases job) simp_all
    qed
  qed (auto simp: holding_def)
  moreover have "work_left (wd_tasks (rv_loads v)) = (\<Sum>i\<in>?U. ?t i)"
  proof -
    have "work_left (wd_tasks (rv_loads v)) = (\<Sum>i\<in>dom (wd_tasks (rv_loads v)). ?t i)"
      unfolding work_left_def weight_def by (rule sum.cong) auto
    also have "\<dots> = (\<Sum>i\<in>?U. ?t i)" by (rule sum.mono_neutral_left [OF d(2,1)]) (auto split: option.splits)
    finally show ?thesis .
  qed
  ultimately have "resolver_left v = (\<Sum>i\<in>?U. ?t i + job_rank (the (rv_jobs v i)))"
    by (simp add: resolver_left_def sum.distrib)
  also have "\<dots> \<le> of_nat (card ?U) * 29"
  proof (rule sum_bounded_above)
    fix i
    assume "i \<in> ?U"
    then obtain job where j: "rv_jobs v i = Some job" "unfinished job" by (auto simp: holding_def)
    have k: "map_option phase_key (wd_tasks (rv_loads v) i) = loading job"
      using assms j(1) by (simp add: resolver_inv_def loads_ok_def)
    show "?t i + job_rank (the (rv_jobs v i)) \<le> 29"
    proof (cases "wd_tasks (rv_loads v) i")
      case None
      with j show ?thesis by (cases job) auto
    next
      case (Some ph)
      with j k have "job_rank job \<le> 15" by (cases job) auto
      with Some j phase_rank_le [of ph] show ?thesis by simp
    qed
  qed
  finally show ?thesis using f(2) by simp
qed

fun job_cost :: "'u resolution \<Rightarrow> nat" where
  "job_cost (Fetching request target key) = 13 + job_rank (Fetching request target key)"
| "job_cost job = job_rank job"

lemma begin_cost: "job_cost (begin_resolution self request) < 29"
  by (auto simp: begin_resolution_def split: res.splits)

lemma after_load_cost: "job_cost (after_load self request target key r) < job_rank (Fetching request target key)"
  by (auto simp: after_load_def split: res.splits option.splits)

lemma enter_left:
  assumes "finite (dom (rv_jobs v))" and "finite (dom (wd_tasks (rv_loads v)))"
    and "rv_jobs v i = Some old" and "wd_tasks (rv_loads v) i = None"
  shows "resolver_left (enter i job v) + job_rank old = resolver_left v + job_cost job"
  using weight_update [OF assms(1,3), of job_rank job] weight_new [OF assms(2,4), of phase_rank "Looking k" for k]
  by (cases job) (auto simp: enter_def resolver_left_def work_left_def set_task_def)

lemma resolver_works_left:
  assumes "resolver_inv self v" and "calm (wd_tasks (rv_loads v))" and "resolver_works self v v'"
  shows "resolver_left v' < resolver_left v"
proof -
  have f: "finite (dom (rv_jobs v))" "finite (dom (wd_tasks (rv_loads v)))"
    using assms(1) by (simp_all add: resolver_inv_def handlers_ok_def world_inv_def permits_ok_def)
  from assms(3) show ?thesis
  proof cases
    case (works_begin i request)
    have "wd_tasks (rv_loads v) i = None"
      using assms(1) works_begin(2) by (intro loads_ok_task [of _ "rv_jobs v"]) (simp_all add: resolver_inv_def)
    from enter_left [OF f works_begin(2) this, of "begin_resolution self request"]
      begin_cost [of self request] works_begin(1)
    show ?thesis by simp
  next
    case (works_load i w)
    from task_step_work [OF f(2) assms(2) works_load(2)] works_load(1) show ?thesis by (simp add: resolver_left_def)
  next
    case (works_loaded i request target key key' r)
    let ?v = "leave_load i v"
    have t: "wd_tasks (rv_loads ?v) = (wd_tasks (rv_loads v))(i := None)"
      using works_loaded(3) by (simp add: leave_load_def drop_task_def)
    have "work_left (wd_tasks (rv_loads ?v)) = work_left (wd_tasks (rv_loads v))"
      using weight_remove [OF f(2) works_loaded(3), of phase_rank] by (simp add: work_left_def t)
    then have "resolver_left ?v = resolver_left v" by (simp add: resolver_left_def leave_load_def)
    with enter_left [of ?v i "Fetching request target key" "after_load self request target key r"]
      after_load_cost [of self request target key r] f works_loaded(1,2) t
    show ?thesis by (simp add: leave_load_def)
  qed
qed

text \<open>Without panics, and as long as a resolution has no result, some step can be taken.\<close>

lemma calm_enter: "calm (wd_tasks (rv_loads v)) \<Longrightarrow> calm (wd_tasks (rv_loads (enter i job v)))"
  by (cases job) (auto simp: enter_def set_task_def intro!: calm_update)

lemma calm_resolver:
  assumes "total_env (rs_loader self)" and "Limits_validate (rs_limits self) = Ok ()"
    and "resolver_inv self v" and "calm (wd_tasks (rv_loads v))" and "resolver_step self v v'"
  shows "calm (wd_tasks (rv_loads v'))"
proof -
  have l: "calm (wd_tasks (rv_loads (leave_load i v)))" for i
    using assms(4) by (simp add: leave_load_def calm_drop_task)
  from assms(5) show ?thesis
  proof cases
    case (job_load i w)
    with assms(1-4) show ?thesis using calm_task [OF assms(1,2) _ _ job_load(2)] by (simp add: resolver_inv_def)
  next
    case (job_arrive i request)
    with assms(4) show ?thesis by (simp add: arrive_def split: nat.splits)
  next
    case (job_disconnect i job)
    with l [of i] show ?thesis by (simp add: leave_load_def)
  qed (use assms(4) l in \<open>simp_all add: calm_enter\<close>)
qed

lemma unfinished_works:
  assumes "resolver_inv self v" and "calm (wd_tasks (rv_loads v))"
    and "rv_jobs v i = Some job" and "unfinished job"
  shows "\<exists>v'. resolver_works self v v'"
proof (cases job)
  case (Admitted request)
  with assms(3) show ?thesis using works_begin [of v i request self] by blast
next
  case (Fetching request target key)
  have "map_option phase_key (wd_tasks (rv_loads v) i) = Some key"
    using assms(1,3) Fetching by (simp add: resolver_inv_def loads_ok_def)
  then obtain ph where ph: "wd_tasks (rv_loads v) i = Some ph" by auto
  show ?thesis
  proof (cases "\<exists>key' r. ph = Answered key' r")
    case True
    with ph assms(3) Fetching show ?thesis using works_loaded [of v i request target key _ _ self] by blast
  next
    case False
    have "leaders_ok (wd_leaders (rv_loads v)) (wd_tasks (rv_loads v))" "finite (dom (wd_tasks (rv_loads v)))"
      using assms(1) by (simp_all add: resolver_inv_def world_inv_def permits_ok_def)
    with unanswered_steps [OF _ ph False, of "rs_loader self"] obtain j w where
      "task_step (rs_loader self) j (rv_loads v) w" by (auto simp: some_step_def)
    moreover from task_step_work [OF \<open>finite _\<close> assms(2) this]
    have "dom (wd_tasks w) = dom (wd_tasks (rv_loads v))" by simp
    ultimately show ?thesis using works_load by blast
  qed
next
  case (Finished request r)
  with assms(4) show ?thesis by simp
qed

lemma resolver_works_runs:
  assumes "total_env (rs_loader self)" and "Limits_validate (rs_limits self) = Ok ()"
  shows "(resolver_works self ^^ n) v v' \<Longrightarrow> resolver_inv self v \<Longrightarrow> calm (wd_tasks (rv_loads v)) \<Longrightarrow>
    resolver_inv self v' \<and> calm (wd_tasks (rv_loads v')) \<and> resolver_left v' + n \<le> resolver_left v"
proof (induction n arbitrary: v')
  case (Suc n)
  then obtain u where u: "(resolver_works self ^^ n) v u" "resolver_works self u v'" by auto
  from Suc.IH [OF u(1) Suc.prems(2,3)] have h: "resolver_inv self u" "calm (wd_tasks (rv_loads u))"
    "resolver_left u + n \<le> resolver_left v" by simp_all
  from resolver_works_left [OF h(1,2) u(2)] resolver_inv_step [OF h(1) resolver_works_step [OF u(2)]]
    calm_resolver [OF assms h(1,2) resolver_works_step [OF u(2)]] h(3)
  show ?case by simp
qed simp

section \<open>Properties\<close>

lemma loads_bound:
  assumes "resolver_inv self v"
  shows "card (dom (wd_tasks (rv_loads v))) \<le> card (holding unfinished (rv_jobs v))"
  using loads_unfinished [OF assms] by (intro card_mono)

lemma resolver_resolved_ok:
  assumes "reachable (resolver_init self) (resolver_step self) v"
    and "rv_jobs v i = Some (Finished request (Ok (Resolved identifier jwk)))"
  shows "resolved_ok self request identifier jwk"
proof -
  have "resolver_inv self v" using resolvers.inv_reachable [OF assms(1)] .
  with assms(2) have "job_ok self (Finished request (Ok (Resolved identifier jwk)))"
    unfolding resolver_inv_def jobs_ok_def by blast
  then show ?thesis by simp
qed

text \<open>
  C6. The resolver's resources under any interleaving of resolutions, with deadlines, panics and clients that go
  away at any point: the free handlers and the unfinished resolutions always make up the configured number,
  so none is ever lost; there are never more loads in progress than handlers in use; and the free fetch permits
  and the loads that hold one make up the configured number of outbound fetches.
\<close>

theorem resolutions_bounded:
  assumes "reachable (resolver_init self) (resolver_step self) v"
  shows "rv_handlers v + card {i. \<exists>job. rv_jobs v i = Some job \<and> unfinished job} = active_handlers (rs_limits self) \<and>
    rv_handlers v + card (dom (wd_tasks (rv_loads v))) \<le> active_handlers (rs_limits self) \<and>
    outbound (ld_controls (wd_shared (rv_loads v))) + card (permits (wd_tasks (rv_loads v))) =
      outbound_fetches (rs_limits self)"
proof -
  have i: "resolver_inv self v" using resolvers.inv_reachable [OF assms] .
  then have "handlers_ok self (rv_handlers v) (rv_jobs v)"
    "permits_ok (rs_limits self) (ld_controls (wd_shared (rv_loads v))) (wd_tasks (rv_loads v))"
    by (simp_all add: resolver_inv_def world_inv_def)
  with loads_bound [OF i] show ?thesis by (simp add: handlers_ok_def permits_ok_def holding_def)
qed

text \<open>
  C7. Where a resolved key comes from, under any interleaving of resolutions and loads with deadlines, panics and
  clients that go away at any point: it is an entry of a key set that was fetched safely from the discovery URL of
  the request, or for client metadata is in the document fetched there or in the key set the document
  points to; it is a valid public key, it has the requested key id as its \<open>kid\<close> or its thumbprint, the answer is
  for the request's normalised identifier, and unless test keys are allowed the key id is not the published
  test key's.
\<close>

theorem concurrent_resolved_is_published:
  assumes "reachable (resolver_init self) (resolver_step self) v"
    and "rv_jobs v i = Some (Finished request (Ok (Resolved identifier jwk)))"
  shows "\<exists>target e. parse_discovery_target (rl_urls (rs_loader self)) (req_agent_url request) (req_discovery request) = Ok target \<and>
    identifier = target_identifier target \<and>
    (rs_allow_test_keys self \<or> req_key_id request \<noteq> ''poqkLGiymh_W0uP6PZFw-dvez3QJT5SolqXBCW38r0U'') \<and>
    published (rs_loader self) (req_discovery request) (target_fetch_url target) e \<and> entry_jwk e = jwk \<and>
    is_valid_public_key (dec_crypto (rl_decode (rs_loader self))) jwk \<and>
    (entry_kid e = Some (req_key_id request) \<or>
     b64_thumbprint (dec_crypto (rl_decode (rs_loader self))) jwk = req_key_id request)"
  using resolver_resolved_ok [OF assms]
  by (auto simp: resolved_ok_def accepted_def validate_request_Ok known_test_key_def TEST_KEY_THUMBPRINTS_def)

text \<open>
  C8. Every resolution ends: with validated limits and parameters that return, in any reachable state with any
  number of resolutions at any point, the resolver takes at most twenty-nine steps for each handler, in
  whatever order it schedules them, and only stops when every resolution has its result. So no
  resolution waits forever for a handler, a permit or another resolution's refresh, starves or deadlocks,
  even without its deadline.
\<close>

theorem resolutions_terminate:
  assumes "total_env (rs_loader self)" and "Limits_validate (rs_limits self) = Ok ()"
    and "reachable (resolver_init self) (resolver_step self) v" and "(resolver_works self ^^ n) v v'"
  shows "n \<le> 29 * active_handlers (rs_limits self) \<and>
    ((\<exists>v''. resolver_works self v' v'') \<or>
     (\<forall>i job. rv_jobs v' i = Some job \<longrightarrow> (\<exists>request r. job = Finished request r)))"
proof -
  have i: "resolver_inv self v" using resolvers.inv_reachable [OF assms(3)] .
  have c: "calm (wd_tasks (rv_loads v))"
    using assms(3)
  proof induction
    case (reachable_init v)
    then show ?case by (auto simp: calm_def elim!: resolver_init.cases world_init.cases)
  next
    case (reachable_step v v')
    with calm_resolver [OF assms(1,2) resolvers.inv_reachable] show ?case by blast
  qed
  from resolver_works_runs [OF assms(1,2,4) i c] have h: "resolver_inv self v'" "calm (wd_tasks (rv_loads v'))"
    "resolver_left v' + n \<le> resolver_left v" by simp_all
  have "\<exists>request r. job = Finished request r" if "rv_jobs v' i = Some job" "\<nexists>v''. resolver_works self v' v''" for i job
    using unfinished_works [OF h(1,2) that(1)] that(2) by (cases job) auto
  with h(3) resolver_left_bound [OF i] show ?thesis by auto
qed

text \<open>
  C9. The sequential resolution is one schedule of the concurrent resolver: with validated limits and parameters
  that return, a request that arrives at an idle resolver with a free handler reaches, by the resolver's
  steps, exactly the result and the loader state that the whole of \<open>resolve_inner\<close> computes for the same clock
  readings, and the handler is free again.
\<close>

theorem resolve_is_a_schedule:
  assumes "total_env (rs_loader self)" and "Limits_validate (wc_limits (ld_controls s)) = Ok ()"
    and "resolve_inner self t1 t2 request s = (r, s')"
  shows "(resolver_step self)\<^sup>*\<^sup>*
    \<lparr>rv_loads = \<lparr>wd_shared = s, wd_leaders = Map.empty, wd_tasks = Map.empty\<rparr>, rv_handlers = Suc n, rv_jobs = Map.empty\<rparr>
    \<lparr>rv_loads = \<lparr>wd_shared = s', wd_leaders = Map.empty, wd_tasks = Map.empty\<rparr>, rv_handlers = Suc n,
     rv_jobs = [i \<mapsto> Finished request r]\<rparr>"
  using alone_resolution [OF assms, of n i] by (simp add: idle_world_def solo_def)

section \<open>The fixture resolver\<close>

lemma fixture_idle_init:
  "resolver_init fixture_service \<lparr>rv_loads = idle_world fixture_start, rv_handlers = 64, rv_jobs = Map.empty\<rparr>"
proof -
  have "ResourceLoader_new fixture_env Limits_default = Ok fixture_start"
    using fixture_start_reachable
    by (simp add: ResourceLoader_new_def WorkControls_new_def fixture_env_def fixture_start_def limiter_def
        open_limiter_def Limits_default_def)
  then have "world_init (rs_loader fixture_service) (rs_limits fixture_service) (idle_world fixture_start)"
    unfolding idle_world_def by (intro world_init.intros) (simp add: fixture_service_def)
  from resolver_init.intros [OF this] show ?thesis
    by (simp add: fixture_service_def Limits_default_def)
qed

lemma fixture_idle:
  "reachable (resolver_init fixture_service) (resolver_step fixture_service)
     \<lparr>rv_loads = idle_world fixture_start, rv_handlers = 64, rv_jobs = Map.empty\<rparr>"
  using fixture_idle_init by (rule reachable_init)

lemma fixture_resolved:
  "\<exists>i s. reachable (resolver_init fixture_service) (resolver_step fixture_service)
     (solo 0 (Finished fixture_query (Ok (Resolved i (Ed25519Jwk_new ''k'')))) s 63)"
proof -
  obtain i t where r: "resolve_inner fixture_service fixture_load_times fixture_load_times fixture_query fixture_start =
     (Ok (Resolved i (Ed25519Jwk_new ''k'')), t)"
    using fixture_resolve_inner by blast
  have steps: "(resolver_step fixture_service)\<^sup>*\<^sup>*
    \<lparr>rv_loads = idle_world fixture_start, rv_handlers = Suc 63, rv_jobs = Map.empty\<rparr>
    (solo 0 (Finished fixture_query (Ok (Resolved i (Ed25519Jwk_new ''k'')))) t 63)"
    by (rule alone_resolution [OF _ _ r]) (simp_all add: fixture_service_def fixture_total limits_default_valid)
  have "reachable (resolver_init fixture_service) (resolver_step fixture_service) v"
    if "(resolver_step fixture_service)\<^sup>*\<^sup>* \<lparr>rv_loads = idle_world fixture_start, rv_handlers = Suc 63, rv_jobs = Map.empty\<rparr> v" for v
    using that
  proof induction
    case base
    from fixture_idle show ?case by simp
  qed (rule reachable_step)
  with steps show ?thesis by blast
qed

theorem resolutions_bounded_witness:
  "\<exists>v :: (plain_url, nat, unit) resolver. (\<exists>request r. rv_jobs v 0 = Some (Finished request r)) \<and>
     rv_handlers v + card {i. \<exists>job. rv_jobs v i = Some job \<and> unfinished job} = 64 \<and>
     outbound (ld_controls (wd_shared (rv_loads v))) + card (permits (wd_tasks (rv_loads v))) = 32"
proof -
  obtain i s where v: "reachable (resolver_init fixture_service) (resolver_step fixture_service)
     (solo 0 (Finished fixture_query (Ok (Resolved i (Ed25519Jwk_new ''k'')))) s 63)" (is "reachable _ _ ?v")
    using fixture_resolved by blast
  from resolutions_bounded [OF v] show ?thesis
    by (intro exI [of _ ?v] conjI) (simp_all add: fixture_service_def Limits_default_def, simp add: solo_def)
qed

theorem concurrent_resolved_is_published_witness:
  "\<exists>target e. parse_discovery_target plain_url_api FIXTURE_AGENT_URL Directory = Ok target \<and>
     published fixture_env Directory (target_fetch_url target) e \<and> entry_jwk e = Ed25519Jwk_new ''k''"
proof -
  obtain i s where v: "reachable (resolver_init fixture_service) (resolver_step fixture_service)
     (solo 0 (Finished fixture_query (Ok (Resolved i (Ed25519Jwk_new ''k'')))) s 63)"
    using fixture_resolved by blast
  from concurrent_resolved_is_published [OF v, of 0] show ?thesis
    by (auto simp: solo_def fixture_service_def fixture_query_def)
qed

theorem resolutions_terminate_witness:
  "\<exists>v v' n. (resolver_works fixture_service ^^ n) v v' \<and> 0 < n \<and> n \<le> 29 * 64 \<and>
     (\<exists>request. rv_jobs v 3 = Some (Admitted request))"
proof -
  let ?v = "\<lparr>rv_loads = idle_world fixture_start, rv_handlers = 63, rv_jobs = [3 \<mapsto> Admitted fixture_query]\<rparr>"
  have r: "reachable (resolver_init fixture_service) (resolver_step fixture_service) ?v"
    using reachable_step [OF fixture_idle, of "arrive 3 fixture_query _", OF job_arrive]
    by (simp add: arrive_def)
  obtain v' where "resolver_works fixture_service ?v v'"
    using works_begin [of ?v 3 fixture_query fixture_service] by auto
  then have w: "(resolver_works fixture_service ^^ 1) ?v v'" by auto
  have "total_env (rs_loader fixture_service)" "Limits_validate (rs_limits fixture_service) = Ok ()"
    by (simp_all add: fixture_service_def fixture_total limits_default_valid)
  from resolutions_terminate [OF this r w] have "1 \<le> 29 * (64 :: nat)" by simp
  with w show ?thesis by (intro exI [of _ ?v] exI [of _ v'] exI [of _ 1]) simp
qed

theorem resolve_is_a_schedule_witness:
  "\<exists>i s'. (resolver_step fixture_service)\<^sup>*\<^sup>*
    \<lparr>rv_loads = idle_world fixture_start, rv_handlers = Suc 63, rv_jobs = Map.empty\<rparr>
    \<lparr>rv_loads = idle_world s', rv_handlers = Suc 63,
     rv_jobs = [0 \<mapsto> Finished fixture_query (Ok (Resolved i (Ed25519Jwk_new ''k'')))]\<rparr>"
proof -
  obtain i t where r: "resolve_inner fixture_service fixture_load_times fixture_load_times fixture_query fixture_start =
     (Ok (Resolved i (Ed25519Jwk_new ''k'')), t)"
    using fixture_resolve_inner by blast
  from resolve_is_a_schedule [OF _ _ r, of 63 0] show ?thesis
    by (auto simp: idle_world_def fixture_service_def fixture_total limits_default_valid)
qed

end
