(* ===== verification/Gateway.thy ===== *)
theory Gateway
  imports Envoy_Filter Server Resolutions
begin

text \<open>
  The whole system: an Envoy with any number of streams through the filter, and the resolver their callouts go to,
  with any number of resolutions. Envoy itself is between the two: it carries the body of a callout to the
  resolver's route and the answer back, once each, or reports a failure.
\<close>

section \<open>One request and its answer\<close>

text \<open>The request the module sends for a candidate.\<close>

definition candidate_request :: "'v VerificationCandidate \<Rightarrow> ResolveRequest" where
  "candidate_request c = \<lparr>req_api_version = ResolverApiVersion.V1, req_discovery = cand_discovery c,
     req_agent_url = cand_signed_url c, req_key_id = cand_key_id c\<rparr>"

lemma candidate_request_valid:
  assumes "VerificationCandidate_parse S W U r legacy required now max_lifetime skew = Ok c"
  obtains target where "validate_request U (candidate_request c) = Ok target"
    and "parse_discovery_target U (cand_signed_url c) (cand_discovery c) = Ok target"
    and "cand_identifier c = target_identifier target"
proof -
  from assms obtain target where t: "cand_key_id c \<noteq> []" "length (cand_key_id c) \<le> MAX_KEY_ID_BYTES"
    "parse_discovery_target U (cand_signed_url c) (cand_discovery c) = Ok target"
    "cand_identifier c = target_identifier target"
    by (rule VerificationCandidate_parse_OkE)
  moreover have "length (cand_signed_url c) \<le> MAX_AGENT_URL_BYTES"
    using t(3) by (auto simp: parse_discovery_target_def split: if_splits)
  ultimately show thesis
    by (intro that [of target]) (auto simp: validate_request_Ok candidate_request_def)
qed

text \<open>What a verified answer says, whichever way the resolver came to it.\<close>

lemma verified_provenance:
  assumes "VerificationCandidate_parse S W (rl_urls (rs_loader self)) r legacy required now max_lifetime skew = Ok c"
    and "verify_resolver_response W c (Inr response) = VerificationResult.Verified i"
    and "\<And>name jwk. response = Resolved name jwk \<Longrightarrow> resolved_ok self (candidate_request c) name jwk"
  shows "\<exists>target e keyring.
    parse_discovery_target (rl_urls (rs_loader self)) (cand_signed_url c) (cand_discovery c) = Ok target \<and>
    vi_identifier i = target_identifier target \<and> vi_key_id i = cand_key_id c \<and>
    wba_keyid W (cand_verifier c) = Some (cand_key_id c) \<and>
    published (rs_loader self) (cand_discovery c) (target_fetch_url target) e \<and>
    is_valid_public_key (dec_crypto (rl_decode (rs_loader self))) (entry_jwk e) \<and>
    okp_thumbprint W ''Ed25519'' (jwk_x (entry_jwk e)) = cand_key_id c \<and>
    try_import_jwk W ''Ed25519'' (jwk_x (entry_jwk e)) = Some keyring \<and> wba_verify W (cand_verifier c) keyring \<and>
    (rs_allow_test_keys self \<or> vi_key_id i \<noteq> ''poqkLGiymh_W0uP6PZFw-dvez3QJT5SolqXBCW38r0U'')"
proof -
  from assms(2) obtain jwk keyring where v: "response = Resolved (cand_identifier c) jwk"
    "okp_thumbprint W ''Ed25519'' (jwk_x jwk) = cand_key_id c" "try_import_jwk W ''Ed25519'' (jwk_x jwk) = Some keyring"
    "wba_verify W (cand_verifier c) keyring" "i = \<lparr>vi_identifier = cand_identifier c, vi_key_id = cand_key_id c\<rparr>"
    by (auto simp: verify_Verified_iff)
  from assms(3) [OF v(1)] obtain target e where "accepted self (candidate_request c) target"
    "cand_identifier c = target_identifier target"
    "published (rs_loader self) (req_discovery (candidate_request c)) (target_fetch_url target) e" "entry_jwk e = jwk"
    "is_valid_public_key (dec_crypto (rl_decode (rs_loader self))) jwk"
    by (auto simp: resolved_ok_def)
  moreover have "wba_keyid W (cand_verifier c) = Some (cand_key_id c)"
    using assms(1) by (rule VerificationCandidate_parse_OkE)
  ultimately show ?thesis
    using v by (intro exI [of _ target] exI [of _ e] exI [of _ keyring])
      (auto simp: accepted_def validate_request_Ok candidate_request_def known_test_key_def TEST_KEY_THUMBPRINTS_def)
qed

section \<open>The gateway\<close>

text \<open>A callout as the resolver's server sees it.\<close>

definition server_request_of :: "(string \<times> string) list \<Rightarrow> string \<Rightarrow> server_request" where
  "server_request_of headers body =
     \<lparr>sq_verb = the (map_of headers '':method''), sq_path = the (map_of headers '':path''), sq_headers = headers,
      sq_body = body\<rparr>"

text \<open>The encodings at both ends agree: what decodes is what was encoded.\<close>

definition json_laws :: "('h, 'v, 'k, 'u) module_api \<Rightarrow> wire_api \<Rightarrow> bool" where
  "json_laws M J \<longleftrightarrow>
     (\<forall>request n q request'. m_to_vec M request = Some (sq_body q) \<longrightarrow> decode_body J n q = Ok request' \<longrightarrow>
        request' = request) \<and>
     (\<forall>response answer. m_from_slice M (to_json J response) = Some answer \<longrightarrow> answer = response)"

lemma json_laws_request:
  assumes "json_laws M J" and "m_to_vec M request = Some (sq_body q)" and "decode_body J n q = Ok request'"
  shows "request' = request"
  using assms(1) [unfolded json_laws_def, THEN conjunct1, rule_format, OF assms(2,3)] .

text \<open>
  The streams with the headers they were received with, the resolution each callout became, and the resolver.
\<close>

record ('h, 'v, 'u, 'p, 'l) gateway =
  gw_streams :: "nat \<rightharpoonup> ('h, 'v) stream"
  gw_received :: "nat \<rightharpoonup> 'h"
  gw_calls :: "nat \<rightharpoonup> nat"
  gw_resolver :: "('u, 'p, 'l) resolver"

text \<open>
  A request is received and its headers callback runs; its callout reaches the resolver and becomes a new
  resolution; the resolver takes a step of its own, for these or for other requests; a callout ends with the
  answer to its resolution, under any id and in any chunks, or with anything that is not a successful 200.
\<close>

inductive gateway_init :: "('u, 'p, 'l) ResolverService \<Rightarrow> ('h, 'v, 'u, 'p, 'l) gateway \<Rightarrow> bool" for self where
  "resolver_init self v \<Longrightarrow>
   gateway_init self \<lparr>gw_streams = Map.empty, gw_received = Map.empty, gw_calls = Map.empty, gw_resolver = v\<rparr>"

inductive gateway_step ::
  "('h, 'v, 'k, 'u) module_api \<Rightarrow> Settings \<Rightarrow> wire_api \<Rightarrow> ('u, 'p, 'l) ResolverService \<Rightarrow>
   ('h, 'v, 'u, 'p, 'l) gateway \<Rightarrow> ('h, 'v, 'u, 'p, 'l) gateway \<Rightarrow> bool"
  for M :: "('h, 'v, 'k, 'u) module_api" and settings J and self :: "('u, 'p, 'l) ResolverService" where
  gw_request: "gw_streams g i = None \<Longrightarrow> stream_init settings h s \<Longrightarrow>
     gateway_step M settings J self g
       (g\<lparr>gw_streams := (gw_streams g)(i \<mapsto> s), gw_received := (gw_received g)(i \<mapsto> h)\<rparr>)"
| gw_headers: "gw_streams g i = Some s \<Longrightarrow> st_status s = None \<Longrightarrow>
     on_request_headers M inp eos (st_filter s) (st_env s) = Some (status, env, f) \<Longrightarrow>
     gateway_step M settings J self g
       (g\<lparr>gw_streams := (gw_streams g)(i \<mapsto> \<lparr>st_env = env, st_filter = f, st_status = Some status\<rparr>)\<rparr>)"
| gw_call: "gw_streams g i = Some s \<Longrightarrow> SendHttpCallout cluster headers body timeout \<in> set (env_log (st_env s)) \<Longrightarrow>
     gw_calls g i = None \<Longrightarrow> q = server_request_of headers body \<Longrightarrow> sq_verb q = ''POST'' \<Longrightarrow>
     sq_path q = ''/v1/resolve'' \<Longrightarrow> decode_body J (inbound_body_limit self) q = Ok request \<Longrightarrow>
     j \<notin> ran (gw_calls g) \<Longrightarrow> rv_jobs (gw_resolver g) j = None \<Longrightarrow>
     gateway_step M settings J self g
       (g\<lparr>gw_calls := (gw_calls g)(i \<mapsto> j), gw_resolver := arrive j request (gw_resolver g)\<rparr>)"
| gw_resolve: "resolver_step self (gw_resolver g) v \<Longrightarrow>
     (\<And>j. j \<in> ran (gw_calls g) \<Longrightarrow> rv_jobs (gw_resolver g) j = None \<Longrightarrow> rv_jobs v j = None) \<Longrightarrow>
     gateway_step M settings J self g (g\<lparr>gw_resolver := v\<rparr>)"
| gw_answer: "gw_streams g i = Some s \<Longrightarrow> st_status s = Some status \<Longrightarrow> gw_calls g i = Some j \<Longrightarrow>
     rv_jobs (gw_resolver g) j = Some (Finished request r) \<Longrightarrow> resolve_answer (to_json J) r = Ok (code, concat chunks) \<Longrightarrow>
     response_status hs = Some code \<Longrightarrow>
     on_http_callout_done M clock cid True hs (Some chunks) (st_filter s) (st_env s) = (env, f) \<Longrightarrow>
     gateway_step M settings J self g
       (g\<lparr>gw_streams := (gw_streams g)(i \<mapsto> \<lparr>st_env = env, st_filter = f, st_status = Some status\<rparr>)\<rparr>)"
| gw_failure: "gw_streams g i = Some s \<Longrightarrow> st_status s = Some status \<Longrightarrow>
     \<not> completed \<or> response_status hs \<noteq> Some 200 \<or> body = None \<Longrightarrow>
     on_http_callout_done M clock cid completed hs body (st_filter s) (st_env s) = (env, f) \<Longrightarrow>
     gateway_step M settings J self g
       (g\<lparr>gw_streams := (gw_streams g)(i \<mapsto> \<lparr>st_env = env, st_filter = f, st_status = Some status\<rparr>)\<rparr>)"

section \<open>What a callout asks for\<close>

definition sent_callouts :: "'h envoy \<Rightarrow> string set" where
  "sent_callouts env = {body. \<exists>cluster headers timeout. SendHttpCallout cluster headers body timeout \<in> set (env_log env)}"

lemma sent_callouts_simps [simp]:
  "sent_callouts (emit e env) = sent_callouts env \<union> {body. \<exists>cluster headers timeout. e = SendHttpCallout cluster headers body timeout}"
  "sent_callouts (record_duration hist phase res t t' env) = sent_callouts env"
  "sent_callouts (sanitize_assertion_headers H env) = sent_callouts env"
  by (auto simp: sent_callouts_def emit_def record_duration_def sanitize_assertion_headers_def split: option.splits)

lemma start_callout_sent:
  assumes "start_callout M inp f c env = (status, env', f')" and "flt_pending f = None" and "flt_pending f' = Some p"
  shows "pend_candidate p = c" and "body \<in> sent_callouts env' \<Longrightarrow>
    body \<in> sent_callouts env \<or> m_to_vec M (candidate_request c) = Some body"
  using assms
  by (auto simp: start_callout_def candidate_request_def Let_def split: option.splits prod.splits if_splits)

lemma on_request_headers_sent:
  assumes "on_request_headers M inp eos f env = Some (status, env', f')"
    and "flt_pending f = None" and "flt_pending f' = Some p" and "sent_callouts env = {}" and "body \<in> sent_callouts env'"
  shows "m_to_vec M (candidate_request (pend_candidate p)) = Some body"
proof -
  from assms(1-3) obtain c e where s: "start_callout M inp f c e = (status, env', f')" "sent_callouts e = sent_callouts env"
    by (auto simp: on_request_headers_def Let_def split: prod.splits SignatureHeaderState.splits res.splits if_splits)
  from start_callout_sent [OF s(1) assms(2,3)] assms(4,5) s(2) show ?thesis by auto
qed

section \<open>The invariant\<close>

text \<open>
  The evidence behind a verified identity, down to the request the resolver fetched its key with.
\<close>

definition endorsed ::
  "('h, 'v, 'k, 'u) module_api \<Rightarrow> Settings \<Rightarrow> ('u, 'p, 'l) ResolverService \<Rightarrow> 'h \<Rightarrow> VerifiedIdentity \<Rightarrow> bool" where
  "endorsed M settings self h x \<longleftrightarrow>
     (\<exists>now c target e keyring. candidate_of M settings now (sanitized (m_headers M) h) c \<and>
        parse_discovery_target (rl_urls (rs_loader self)) (cand_signed_url c) (cand_discovery c) = Ok target \<and>
        x = \<lparr>vi_identifier = target_identifier target, vi_key_id = cand_key_id c\<rparr> \<and>
        published (rs_loader self) (cand_discovery c) (target_fetch_url target) e \<and>
        is_valid_public_key (dec_crypto (rl_decode (rs_loader self))) (entry_jwk e) \<and>
        okp_thumbprint (m_wba M) ''Ed25519'' (jwk_x (entry_jwk e)) = cand_key_id c \<and>
        try_import_jwk (m_wba M) ''Ed25519'' (jwk_x (entry_jwk e)) = Some keyring \<and>
        wba_verify (m_wba M) (cand_verifier c) keyring \<and>
        (rs_allow_test_keys self \<or> cand_key_id c \<noteq> ''poqkLGiymh_W0uP6PZFw-dvez3QJT5SolqXBCW38r0U''))"

definition outcome_ok ::
  "('h, 'v, 'k, 'u) module_api \<Rightarrow> Settings \<Rightarrow> ('u, 'p, 'l) ResolverService \<Rightarrow> 'h \<Rightarrow> ('h, 'v) stream \<Rightarrow> bool" where
  "outcome_ok M settings self h s \<longleftrightarrow>
     (\<forall>status. st_status s = Some status \<longrightarrow> flt_pending (st_filter s) = None \<longrightarrow>
        (\<exists>r. settled M settings h status (st_env s) r \<and>
           (\<forall>x. r = VerificationResult.Verified x \<longrightarrow> endorsed M settings self h x)))"

text \<open>A pending callout carries the candidate's question, and its resolution answers that.\<close>

definition sent_ok :: "('h, 'v, 'k, 'u) module_api \<Rightarrow> ('h, 'v) stream \<Rightarrow> bool" where
  "sent_ok M s \<longleftrightarrow>
     (\<forall>p body. flt_pending (st_filter s) = Some p \<longrightarrow> body \<in> sent_callouts (st_env s) \<longrightarrow>
        m_to_vec M (candidate_request (pend_candidate p)) = Some body)"

definition call_ok :: "nat option \<Rightarrow> ('u, 'p, 'l) resolver \<Rightarrow> ('h, 'v) stream \<Rightarrow> bool" where
  "call_ok call v s \<longleftrightarrow> (st_status s = None \<longrightarrow> call = None) \<and>
     (\<forall>p j job. flt_pending (st_filter s) = Some p \<longrightarrow> call = Some j \<longrightarrow> rv_jobs v j = Some job \<longrightarrow>
        resolution_request job = candidate_request (pend_candidate p))"

definition stream_ok ::
  "('h, 'v, 'k, 'u) module_api \<Rightarrow> Settings \<Rightarrow> ('u, 'p, 'l) ResolverService \<Rightarrow> 'h \<Rightarrow> ('h, 'v) stream \<Rightarrow> bool" where
  "stream_ok M settings self h s \<longleftrightarrow>
     reachable (stream_init settings h) (stream_step M) s \<and> sent_ok M s \<and> outcome_ok M settings self h s"

definition gateway_inv ::
  "('h, 'v, 'k, 'u) module_api \<Rightarrow> Settings \<Rightarrow> ('u, 'p, 'l) ResolverService \<Rightarrow> ('h, 'v, 'u, 'p, 'l) gateway \<Rightarrow> bool" where
  "gateway_inv M settings self g \<longleftrightarrow>
     reachable (resolver_init self) (resolver_step self) (gw_resolver g) \<and>
     (\<forall>i. gw_streams g i = None \<longrightarrow> gw_calls g i = None) \<and>
     (\<forall>i s. gw_streams g i = Some s \<longrightarrow> call_ok (gw_calls g i) (gw_resolver g) s \<and>
        (\<exists>h. gw_received g i = Some h \<and> stream_ok M settings self h s))"

lemma gateway_invD:
  assumes "gateway_inv M settings self g"
  shows "reachable (resolver_init self) (resolver_step self) (gw_resolver g)"
    and "gw_streams g i = None \<Longrightarrow> gw_calls g i = None"
    and "gw_streams g i = Some s \<Longrightarrow> call_ok (gw_calls g i) (gw_resolver g) s"
    and "gw_streams g i = Some s \<Longrightarrow> \<exists>h. gw_received g i = Some h \<and> stream_ok M settings self h s"
  using assms unfolding gateway_inv_def by blast+

lemma stream_ok_inv: "stream_ok M settings self h s \<Longrightarrow> stream_inv M settings h s"
  by (rule streams.inv_reachable) (simp add: stream_ok_def)

subsection \<open>The steps of a stream\<close>

lemma stream_ok_init:
  assumes "stream_init settings h s"
  shows "stream_ok M settings self h s" and "call_ok None v s"
  using assms by (auto simp: stream_ok_def call_ok_def sent_ok_def outcome_ok_def stream_init_def
      WebBotAuthFilter_new_def intro: reachable_init)

lemma stream_ok_headers:
  assumes "stream_ok M settings self h s" and "st_status s = None"
    and "on_request_headers M inp eos (st_filter s) (st_env s) = Some (status, env, f)"
  shows "stream_ok M settings self h \<lparr>st_env = env, st_filter = f, st_status = Some status\<rparr>"
proof -
  let ?s = "\<lparr>st_env = env, st_filter = f, st_status = Some status\<rparr>"
  from stream_ok_inv [OF assms(1)] assms(2) have i: "flt_settings (st_filter s) = settings" "flt_pending (st_filter s) = None"
    "env_headers (st_env s) = h" "decisions (st_env s) = []" "sent_callouts (st_env s) = {}"
    by (simp_all add: stream_inv_def decisions_def sent_callouts_def)
  have "reachable (stream_init settings h) (stream_step M) ?s"
    using assms(1) request_headers [OF assms(2,3)] unfolding stream_ok_def by (blast intro: reachable_step)
  moreover have "sent_ok M ?s"
    using on_request_headers_sent [OF assms(3) i(2) _ i(5)] by (simp add: sent_ok_def)
  moreover have "outcome_ok M settings self h ?s"
    using assms(3)
  proof (cases rule: on_request_headers_cases)
    case (finished r e)
    then have "settled M settings h status env r"
      using i by (auto simp: settled_def finish_facts)
    with finished(1) show ?thesis by (auto simp: outcome_ok_def)
  qed (simp add: outcome_ok_def)
  ultimately show ?thesis by (simp add: stream_ok_def)
qed

text \<open>
  A completion settles the stream. Its result is endorsed, when an answer that decodes is a resolution of the
  candidate's question.
\<close>

lemma stream_ok_callout:
  assumes s: "stream_ok M settings self h s" and st: "st_status s = Some status"
    and d: "on_http_callout_done M clock cid completed hs body (st_filter s) (st_env s) = (env, f)"
    and u: "m_url M = rl_urls (rs_loader self)"
    and a: "\<And>p name jwk. flt_pending (st_filter s) = Some p \<Longrightarrow> completed \<Longrightarrow> response_status hs = Some 200 \<Longrightarrow>
      Option.bind (Option.bind body join_response_body) (m_from_slice M) = Some (Resolved name jwk) \<Longrightarrow>
      resolved_ok self (candidate_request (pend_candidate p)) name jwk"
  shows "stream_ok M settings self h \<lparr>st_env = env, st_filter = f, st_status = Some status\<rparr>"
    and "call_ok call v s \<Longrightarrow> call_ok call v \<lparr>st_env = env, st_filter = f, st_status = Some status\<rparr>"
proof -
  let ?s = "\<lparr>st_env = env, st_filter = f, st_status = Some status\<rparr>"
  have r: "reachable (stream_init settings h) (stream_step M) ?s"
    using s callout_done [OF st d] unfolding stream_ok_def by (blast intro: reachable_step)
  have "flt_pending f = None \<and> outcome_ok M settings self h ?s"
  proof (cases "flt_pending (st_filter s)")
    case None
    with d s st show ?thesis by (auto simp: on_http_callout_done_idle stream_ok_def outcome_ok_def)
  next
    case (Some p)
    from callout_settles [OF stream_ok_inv [OF s] st Some d] obtain x response where o:
      "settled M settings h status env x" "f = st_filter s\<lparr>flt_pending := None\<rparr>"
      "x = Unverified UnverifiedKind.Unavailable Reason.ResolverCalloutMismatch \<or>
       pend_callout_id p = cid \<and> x = verify_resolver_response (m_wba M) (pend_candidate p) response"
      "\<And>answer. response = Inr answer \<Longrightarrow> completed \<and> response_status hs = Some 200 \<and>
         Option.bind (Option.bind body join_response_body) (m_from_slice M) = Some answer"
      by metis
    obtain now where c: "candidate_of M settings now (sanitized (m_headers M) h) (pend_candidate p)"
      using stream_ok_inv [OF s] st Some by (auto simp: stream_inv_def)
    have "endorsed M settings self h y" if y: "x = VerificationResult.Verified y" for y
    proof -
      from o(3) y have v: "verify_resolver_response (m_wba M) (pend_candidate p) response = VerificationResult.Verified y"
        by simp
      then obtain answer where n: "response = Inr answer" by (auto simp: verify_Verified_iff)
      from c obtain request where
        q: "VerificationCandidate_parse (m_sfv M) (m_wba M) (rl_urls (rs_loader self)) request
          (cfg_accept_legacy_signature_agent settings) (cfg_required_components settings)
          (unix_time now) (cfg_max_signature_lifetime_seconds settings)
          (cfg_clock_skew_seconds settings) = Ok (pend_candidate p)"
        by (auto simp: candidate_of_def u)
      have k: "resolved_ok self (candidate_request (pend_candidate p)) name jwk" if "answer = Resolved name jwk" for name jwk
        using a [OF Some] o(4) [OF n] that by blast
      from verified_provenance [OF q v [unfolded n] k] obtain target e keyring where
        "parse_discovery_target (rl_urls (rs_loader self)) (cand_signed_url (pend_candidate p))
           (cand_discovery (pend_candidate p)) = Ok target \<and>
         vi_identifier y = target_identifier target \<and> vi_key_id y = cand_key_id (pend_candidate p) \<and>
         published (rs_loader self) (cand_discovery (pend_candidate p)) (target_fetch_url target) e \<and>
         is_valid_public_key (dec_crypto (rl_decode (rs_loader self))) (entry_jwk e) \<and>
         okp_thumbprint (m_wba M) ''Ed25519'' (jwk_x (entry_jwk e)) = cand_key_id (pend_candidate p) \<and>
         try_import_jwk (m_wba M) ''Ed25519'' (jwk_x (entry_jwk e)) = Some keyring \<and>
         wba_verify (m_wba M) (cand_verifier (pend_candidate p)) keyring \<and>
         (rs_allow_test_keys self \<or> vi_key_id y \<noteq> ''poqkLGiymh_W0uP6PZFw-dvez3QJT5SolqXBCW38r0U'')"
        by blast
      with c show ?thesis
        unfolding endorsed_def
        by (intro exI [of _ now] exI [of _ "pend_candidate p"] exI [of _ target] exI [of _ e] exI [of _ keyring]) auto
    qed
    with o(1,2) show ?thesis by (auto simp: outcome_ok_def)
  qed
  with r show "stream_ok M settings self h ?s" "call_ok call v s \<Longrightarrow> call_ok call v ?s"
    by (simp_all add: stream_ok_def sent_ok_def call_ok_def)
qed

subsection \<open>The steps of the gateway\<close>

lemma resolver_step_request:
  assumes "resolver_step self v v'" and "rv_jobs v' j = Some job'"
  shows "rv_jobs v j = None \<or> (\<exists>job. rv_jobs v j = Some job \<and> resolution_request job = resolution_request job')"
  using assms
proof cases
  case (job_begin i request)
  have "resolution_request (begin_resolution self request) = request"
    by (simp add: begin_resolution_def split: res.splits)
  with job_begin assms(2) show ?thesis by (auto simp: enter_jobs split: if_splits)
next
  case (job_loaded i request target key key' r)
  have "resolution_request (after_load self request target key r) = request"
    by (simp add: after_load_def split: res.splits option.splits)
  with job_loaded assms(2) show ?thesis by (auto simp: enter_jobs leave_load_def split: if_splits)
qed (auto simp: enter_jobs leave_load_def arrive_def split: if_splits nat.splits)

text \<open>A stream of the gateway takes a step, and the others see none of it.\<close>

lemma gateway_inv_stream:
  assumes "gateway_inv M settings self g" and "gw_streams g i = Some s" and "gw_received g i = Some h"
    and "stream_ok M settings self h s'" and "call_ok (gw_calls g i) (gw_resolver g) s'"
  shows "gateway_inv M settings self (g\<lparr>gw_streams := (gw_streams g)(i \<mapsto> s')\<rparr>)"
  using assms unfolding gateway_inv_def by simp

lemma gateway_inv_callout:
  assumes g: "gateway_inv M settings self g" and s: "gw_streams g i = Some s" "st_status s = Some status"
    and d: "on_http_callout_done M clock cid completed hs body (st_filter s) (st_env s) = (env, f)"
    and u: "m_url M = rl_urls (rs_loader self)"
    and a: "\<And>p name jwk. flt_pending (st_filter s) = Some p \<Longrightarrow> completed \<Longrightarrow> response_status hs = Some 200 \<Longrightarrow>
      Option.bind (Option.bind body join_response_body) (m_from_slice M) = Some (Resolved name jwk) \<Longrightarrow>
      resolved_ok self (candidate_request (pend_candidate p)) name jwk"
  shows "gateway_inv M settings self
    (g\<lparr>gw_streams := (gw_streams g)(i \<mapsto> \<lparr>st_env = env, st_filter = f, st_status = Some status\<rparr>)\<rparr>)"
proof -
  from gateway_invD(4) [OF g s(1)] obtain h where h: "gw_received g i = Some h" "stream_ok M settings self h s" by blast
  show ?thesis
    by (rule gateway_inv_stream [OF g s(1) h(1) stream_ok_callout(1) [OF h(2) s(2) d u a]
          stream_ok_callout(2) [OF h(2) s(2) d u a gateway_invD(3) [OF g s(1)]]])
qed

text \<open>A successful answer to a callout is the encoded result of its resolution.\<close>

lemma answer_resolved:
  assumes g: "gateway_inv M settings self g" and j: "json_laws M J"
    and s: "gw_streams g i = Some s" "gw_calls g i = Some k" "flt_pending (st_filter s) = Some p"
    and r: "rv_jobs (gw_resolver g) k = Some (Finished request r)" "resolve_answer (to_json J) r = Ok (200, concat chunks)"
    and b: "Option.bind (join_response_body chunks) (m_from_slice M) = Some (Resolved name jwk)"
  shows "resolved_ok self (candidate_request (pend_candidate p)) name jwk"
proof -
  from r(2) obtain response where x: "r = Ok response" "concat chunks = to_json J response"
    by (auto simp: resolve_answer_def split: res.splits if_splits)
  with b j have "response = Resolved name jwk"
    by (auto simp: join_response_body_eq json_laws_def split: if_splits)
  moreover have "request = candidate_request (pend_candidate p)"
    using gateway_invD(3) [OF g s(1)] s r(1) by (auto simp: call_ok_def)
  ultimately show ?thesis
    using resolver_resolved_ok [OF gateway_invD(1) [OF g]] r(1) x(1) by blast
qed

lemma gateway_inv_call:
  assumes g: "gateway_inv M settings self g" and l: "json_laws M J"
    and s: "gw_streams g i = Some s" "SendHttpCallout cluster headers body timeout \<in> set (env_log (st_env s))"
    and d: "decode_body J n (server_request_of headers body) = Ok request"
    and j: "j \<notin> ran (gw_calls g)" "rv_jobs (gw_resolver g) j = None"
  shows "gateway_inv M settings self
    (g\<lparr>gw_calls := (gw_calls g)(i \<mapsto> j), gw_resolver := arrive j request (gw_resolver g)\<rparr>)" (is "gateway_inv _ _ _ ?g")
proof -
  from gateway_invD(4) [OF g s(1)] obtain h where h: "stream_ok M settings self h s" by blast
  have new: "resolution_request job = request" if "rv_jobs (arrive j request (gw_resolver g)) j = Some job" for job
    using that by (auto simp: arrive_def split: nat.splits)
  have "call_ok (gw_calls ?g i') (gw_resolver ?g) s'" if s': "gw_streams g i' = Some s'" for i' s'
  proof (cases "i' = i")
    case True
    then have [simp]: "s' = s" using s' s(1) by simp
    have "st_status s \<noteq> None"
      using stream_ok_inv [OF h] s(2) by (cases "st_status s") (simp_all add: stream_inv_def)
    moreover have "request = candidate_request (pend_candidate p)" if "flt_pending (st_filter s) = Some p" for p
    proof -
      have "m_to_vec M (candidate_request (pend_candidate p)) = Some body"
        using h s(2) that by (auto simp: stream_ok_def sent_ok_def sent_callouts_def)
      then have "m_to_vec M (candidate_request (pend_candidate p)) = Some (sq_body (server_request_of headers body))"
        by (simp add: server_request_of_def)
      from json_laws_request [OF l this d] show ?thesis .
    qed
    ultimately show ?thesis using True new by (auto simp: call_ok_def)
  next
    case False
    have "rv_jobs (arrive j request (gw_resolver g)) k = rv_jobs (gw_resolver g) k" if "gw_calls g i' = Some k" for k
      using that j(1) by (auto simp: arrive_def ran_def split: nat.splits)
    with False gateway_invD(3) [OF g s'] show ?thesis by (auto simp: call_ok_def)
  qed
  moreover have "reachable (resolver_init self) (resolver_step self) (gw_resolver ?g)"
    using gateway_invD(1) [OF g] job_arrive [OF j(2)] by (simp add: reachable_step)
  ultimately show ?thesis
    using g s(1) unfolding gateway_inv_def by auto
qed

lemma gateway_inv_resolver:
  assumes g: "gateway_inv M settings self g" and v: "resolver_step self (gw_resolver g) v"
    and k: "\<And>j. j \<in> ran (gw_calls g) \<Longrightarrow> rv_jobs (gw_resolver g) j = None \<Longrightarrow> rv_jobs v j = None"
  shows "gateway_inv M settings self (g\<lparr>gw_resolver := v\<rparr>)"
proof -
  have "call_ok (gw_calls g i) v s" if s: "gw_streams g i = Some s" for i s
  proof -
    have "resolution_request job = candidate_request (pend_candidate p)"
      if "flt_pending (st_filter s) = Some p" "gw_calls g i = Some j" "rv_jobs v j = Some job" for p j job
    proof -
      have "rv_jobs (gw_resolver g) j \<noteq> None" using k [of j] that(2,3) by (auto simp: ran_def)
      with resolver_step_request [OF v that(3)] obtain old where
        "rv_jobs (gw_resolver g) j = Some old" "resolution_request old = resolution_request job"
        by blast
      with gateway_invD(3) [OF g s] that show ?thesis by (auto simp: call_ok_def)
    qed
    with gateway_invD(3) [OF g s] show ?thesis unfolding call_ok_def by blast
  qed
  moreover have "reachable (resolver_init self) (resolver_step self) v"
    using gateway_invD(1) [OF g] v by (rule reachable_step)
  ultimately show ?thesis using g unfolding gateway_inv_def by simp
qed

lemma gateway_inv_step:
  assumes l: "json_laws M J" and u: "m_url M = rl_urls (rs_loader self)"
    and g: "gateway_inv M settings self g" and "gateway_step M settings J self g g'"
  shows "gateway_inv M settings self g'"
  using assms(4)
proof cases
  case (gw_request i h s)
  with g stream_ok_init [OF gw_request(3)] show ?thesis
    unfolding gateway_inv_def by auto
next
  case (gw_headers i s inp eos status env f)
  from gateway_invD(4) [OF g gw_headers(2)] obtain h where h: "gw_received g i = Some h" "stream_ok M settings self h s"
    by blast
  have "call_ok (gw_calls g i) (gw_resolver g) \<lparr>st_env = env, st_filter = f, st_status = Some status\<rparr>"
    using gateway_invD(3) [OF g gw_headers(2)] gw_headers(3) by (simp add: call_ok_def)
  from gateway_inv_stream [OF g gw_headers(2) h(1) stream_ok_headers [OF h(2) gw_headers(3,4)] this]
  show ?thesis using gw_headers(1) by simp
next
  case (gw_call i s cluster headers body timeout q request j)
  from gateway_inv_call [OF g l gw_call(2,3) gw_call(8) [unfolded gw_call(5)] gw_call(9,10)]
  show ?thesis using gw_call(1) by simp
next
  case (gw_resolve v)
  from gateway_inv_resolver [OF g gw_resolve(2,3)] show ?thesis using gw_resolve(1) by simp
next
  case (gw_answer i s status j request r code chunks hs clock cid env f)
  have "resolved_ok self (candidate_request (pend_candidate p)) name jwk"
    if "flt_pending (st_filter s) = Some p" "response_status hs = Some 200"
      "Option.bind (Option.bind (Some chunks) join_response_body) (m_from_slice M) = Some (Resolved name jwk)" for p name jwk
    using answer_resolved [OF g l gw_answer(2,4) that(1) gw_answer(5)] gw_answer(6,7) that(2,3) by simp
  from gateway_inv_callout [OF g gw_answer(2,3,8) u this] show ?thesis using gw_answer(1) by blast
next
  case (gw_failure i s status completed hs body clock cid env f)
  have False if "completed" "response_status hs = Some 200"
    "Option.bind (Option.bind body join_response_body) (m_from_slice M) = Some (Resolved name jwk)" for name jwk
    using gw_failure(4) that by auto
  from gateway_inv_callout [OF g gw_failure(2,3,5) u] this show ?thesis using gw_failure(1) by blast
qed

interpretation gateways: invariant_of "gateway_init self" "gateway_step M settings J self"
  "\<lambda>g. json_laws M J \<longrightarrow> m_url M = rl_urls (rs_loader self) \<longrightarrow> gateway_inv M settings self g"
  for M :: "('h, 'v, 'k, 'u) module_api" and settings J and self :: "('u, 'p, 'l) ResolverService"
proof
  fix g :: "('h, 'v, 'u, 'p, 'l) gateway"
  assume "gateway_init self g"
  then show "json_laws M J \<longrightarrow> m_url M = rl_urls (rs_loader self) \<longrightarrow> gateway_inv M settings self g"
    by cases (auto simp: gateway_inv_def intro: reachable_init)
qed (blast intro: gateway_inv_step)

section \<open>A request from end to end\<close>

text \<open>
  The sample request of the module, with the fixture agent's URL in its agent field, in a gateway with the fixture
  resolver.
\<close>

definition fixture_sfv :: sfv_api where
  "fixture_sfv = sample_sfv\<lparr>parse_dictionary := (\<lambda>s.
     if s = ''s=u'' then Some [(''s'', Item \<lparr>bare_item = SfString FIXTURE_AGENT_URL, item_params = []\<rparr>)]
     else parse_dictionary sample_sfv s)\<rparr>"

lemma fixture_candidate:
  "\<exists>c. VerificationCandidate_parse fixture_sfv sample_wba plain_url_api sample_request False [''@authority'']
      150 86400 5 = Ok c \<and> candidate_request c = fixture_query \<and> cand_key_id c = ''k''"
proof -
  obtain i where i: "parse_discovery_target plain_url_api FIXTURE_AGENT_URL Directory =
     Ok \<lparr>target_fetch_url = rk_url (fixture_key DIRECTORY_PATH), target_identifier = i\<rparr>"
    using fixture_target by blast
  have f: "validate_freshness (Some 100) (Some 200) 150 86400 5 = Ok ()"
    by (simp add: validate_freshness_Ok)
  show ?thesis
    by (simp add: VerificationCandidate_parse_def fixture_sfv_def sample_sfv_def sample_wba_def sample_request_def
        profile_signature_label_def has_profile_tag_def agent_field_def agent_member_def select_agent_def
        dict_extend_def f ensure_def ok_or_def supported_algorithm_def validate_coverage_eq covers_origin_def
        covers_agent_def parse_agent_def MAX_KEY_ID_BYTES_def i candidate_request_def fixture_query_def)
qed

definition fixture_identifier :: string where
  "fixture_identifier =
     (case parse_discovery_target plain_url_api FIXTURE_AGENT_URL Directory of Ok target \<Rightarrow> target_identifier target | _ \<Rightarrow> [])"

definition fixture_answer :: ResolveResponse where
  "fixture_answer = Resolved fixture_identifier (Ed25519Jwk_new ''k'')"

definition fixture_module :: "((string \<times> string) list, unit, unit, plain_url) module_api" where
  "fixture_module = sample_module\<lparr>m_sfv := fixture_sfv,
     m_to_vec := (\<lambda>request. if request = fixture_query then Some ''q'' else None),
     m_from_slice := (\<lambda>body. if body = ''r'' then Some fixture_answer else None)\<rparr>"

definition fixture_wire :: wire_api where
  "fixture_wire =
     \<lparr>decode_body = (\<lambda>_ q. if sq_body q = ''q'' then Ok fixture_query else Err 400),
      to_json = (\<lambda>response. if response = fixture_answer then ''r'' else ''?'')\<rparr>"

lemma fixture_module_simps [simp]:
  "m_headers fixture_module = alist_header_api" "m_sfv fixture_module = fixture_sfv" "m_wba fixture_module = sample_wba"
  "m_url fixture_module = plain_url_api"
  "m_to_vec fixture_module request = (if request = fixture_query then Some ''q'' else None)"
  "m_from_slice fixture_module body = (if body = ''r'' then Some fixture_answer else None)"
  by (simp_all add: fixture_module_def sample_module_def)

lemma json_laws_fixture: "json_laws fixture_module fixture_wire"
  by (auto simp: json_laws_def fixture_wire_def split: if_splits)

text \<open>The headers callback starts the callout.\<close>

definition fixture_call :: effect where
  "fixture_call = SendHttpCallout DEFAULT_CLUSTER callout_headers ''q'' DEFAULT_TIMEOUT_MS"

lemma fixture_asks:
  "\<exists>c f. on_request_headers fixture_module sample_inputs True (WebBotAuthFilter_new sample_settings None None)
       \<lparr>env_headers = spoofed_headers, env_log = []\<rparr> =
     Some (StopAllIterationAndWatermark, \<lparr>env_headers = sample_headers, env_log = [fixture_call]\<rparr>, f) \<and>
     f = WebBotAuthFilter_new sample_settings None None
        \<lparr>flt_pending := Some \<lparr>pend_callout_id = 7, pend_candidate = c, pend_started_at = 5\<rparr>\<rparr> \<and>
     candidate_request c = fixture_query \<and> cand_key_id c = ''k'' \<and> cand_identifier c = fixture_identifier"
proof -
  obtain c where c: "VerificationCandidate_parse fixture_sfv sample_wba plain_url_api sample_request False [''@authority'']
      150 86400 5 = Ok c" "candidate_request c = fixture_query" "cand_key_id c = ''k''"
    using fixture_candidate by blast
  from c(1) have i: "cand_identifier c = fixture_identifier"
  proof (rule candidate_request_valid)
    fix target
    assume "parse_discovery_target plain_url_api (cand_signed_url c) (cand_discovery c) = Ok target"
      "cand_identifier c = target_identifier target"
    then show ?thesis
      using c(2) by (simp add: fixture_identifier_def candidate_request_def fixture_query_def)
  qed
  have san: "sanitize_assertion_headers alist_header_api \<lparr>env_headers = spoofed_headers, env_log = []\<rparr> =
      \<lparr>env_headers = sample_headers, env_log = []\<rparr>"
    using sanitized_sample by (simp add: sanitize_assertion_headers_def sanitized_def)
  have has: "hdr_value alist_header_api sample_headers HEADER_SIGNATURE = Some ''s=:AA==:''"
    "hdr_value alist_header_api sample_headers HEADER_SIGNATURE_INPUT = Some ''s=()''"
    "hdr_value alist_header_api sample_headers HEADER_SIGNATURE_AGENT = Some ''s=u''"
    by (simp_all add: alist_header_api_def sample_headers_def header_name_defs)
  have t: "unix_time (Some 150) = 150"
    by (simp add: unix_time_def i64_try_from_u64_def)
  have p: "VerificationCandidate_parse fixture_sfv sample_wba plain_url_api sample_request
      (cfg_accept_legacy_signature_agent sample_settings) (cfg_required_components sample_settings) 150
      (cfg_max_signature_lifetime_seconds sample_settings) (cfg_clock_skew_seconds sample_settings) = Ok c"
    using c(1) by (simp add: sample_settings_def Settings_default_def DEFAULT_MAX_LIFETIME_SECONDS_def
        DEFAULT_CLOCK_SKEW_SECONDS_def)
  have s: "cfg_resolver sample_settings = \<lparr>cfg_cluster = DEFAULT_CLUSTER, cfg_timeout_ms = DEFAULT_TIMEOUT_MS\<rparr>"
    by (simp add: sample_settings_def Settings_default_def ResolverSettings_default_def)
  show ?thesis
    using try_from_envoy_sample [folded sample_request_def] c(2,3) i
    by (intro exI [of _ c])
      (simp add: on_request_headers_def Let_def san sanitized_sample has classify_signature_headers_def sample_inputs_def t p
        WebBotAuthFilter_new_def record_duration_def start_callout_def candidate_request_def emit_def fixture_call_def s
        MAX_RESOLVE_BODY_BYTES_def)
qed

text \<open>The resolver's own work on a request, as steps of the gateway.\<close>

lemma gateway_works:
  assumes "(resolver_works self)\<^sup>*\<^sup>* v v'" and "gw_resolver g = v" and "ran (gw_calls g) \<subseteq> dom (rv_jobs v)"
    and "reachable (gateway_init self) (gateway_step M settings J self) g"
  shows "reachable (gateway_init self) (gateway_step M settings J self) (g\<lparr>gw_resolver := v'\<rparr>) \<and> dom (rv_jobs v') = dom (rv_jobs v)"
  using assms
proof (induction rule: rtranclp_induct)
  case base
  then show ?case by (cases g) auto
next
  case (step u w)
  from step.IH [OF step.prems] have h: "reachable (gateway_init self) (gateway_step M settings J self) (g\<lparr>gw_resolver := u\<rparr>)"
    "dom (rv_jobs u) = dom (rv_jobs v)" by simp_all
  have "rv_jobs u j \<noteq> None" if "j \<in> ran (gw_calls g)" for j
    using that h(2) step.prems(2) by (metis domIff subsetD)
  then have "gateway_step M settings J self (g\<lparr>gw_resolver := u\<rparr>) (g\<lparr>gw_resolver := u\<rparr>\<lparr>gw_resolver := w\<rparr>)"
    using resolver_works_step [OF step.hyps(2)] by (intro gw_resolve) (simp, force)
  from reachable_step [OF h(1) this] resolver_works_jobs [OF step.hyps(2)] h(2) show ?case by simp
qed

lemma fixture_gateway:
  "\<exists>g s. reachable (gateway_init fixture_service) (gateway_step fixture_module sample_settings fixture_wire fixture_service) g \<and>
     gw_streams g 0 = Some s \<and> gw_received g 0 = Some spoofed_headers \<and> released s \<and> st_status s \<noteq> None"
proof -
  let ?R = "reachable (gateway_init fixture_service) (gateway_step fixture_module sample_settings fixture_wire fixture_service)"
  let ?step = "gateway_step fixture_module sample_settings fixture_wire fixture_service"
  let ?h = "spoofed_headers" and ?new = "WebBotAuthFilter_new sample_settings None None :: unit WebBotAuthFilter"
  obtain c f where q: "on_request_headers fixture_module sample_inputs True ?new \<lparr>env_headers = ?h, env_log = []\<rparr> =
       Some (StopAllIterationAndWatermark, \<lparr>env_headers = sample_headers, env_log = [fixture_call]\<rparr>, f)"
    "f = ?new\<lparr>flt_pending := Some \<lparr>pend_callout_id = 7, pend_candidate = c, pend_started_at = 5\<rparr>\<rparr>"
    "candidate_request c = fixture_query" "cand_key_id c = ''k''" "cand_identifier c = fixture_identifier"
    using fixture_asks by blast
  let ?s0 = "\<lparr>st_env = \<lparr>env_headers = ?h, env_log = []\<rparr>, st_filter = ?new, st_status = None\<rparr>"
  let ?s1 = "\<lparr>st_env = \<lparr>env_headers = sample_headers, env_log = [fixture_call]\<rparr>, st_filter = f,
    st_status = Some StopAllIterationAndWatermark\<rparr>"
  let ?v0 = "\<lparr>rv_loads = idle_world fixture_start, rv_handlers = Suc 63, rv_jobs = Map.empty\<rparr>"
  let ?v1 = "\<lparr>rv_loads = idle_world fixture_start, rv_handlers = 63, rv_jobs = [5 \<mapsto> Admitted fixture_query]\<rparr>"
  have "resolver_init fixture_service ?v0"
    using fixture_idle_init by simp
  then have "?R \<lparr>gw_streams = Map.empty, gw_received = Map.empty, gw_calls = Map.empty, gw_resolver = ?v0\<rparr>"
    by (intro reachable_init gateway_init.intros)
  moreover have "?step \<lparr>gw_streams = Map.empty, gw_received = Map.empty, gw_calls = Map.empty, gw_resolver = ?v0\<rparr>
      \<lparr>gw_streams = [0 \<mapsto> ?s0], gw_received = [0 \<mapsto> ?h], gw_calls = Map.empty, gw_resolver = ?v0\<rparr>"
    using gw_request [of "\<lparr>gw_streams = Map.empty, gw_received = Map.empty, gw_calls = Map.empty, gw_resolver = ?v0\<rparr>" 0
        sample_settings ?h ?s0 fixture_module fixture_wire fixture_service]
    by (auto simp: stream_init_def)
  ultimately have "?R \<lparr>gw_streams = [0 \<mapsto> ?s0], gw_received = [0 \<mapsto> ?h], gw_calls = Map.empty, gw_resolver = ?v0\<rparr>"
    (is "reachable _ _ ?g1") by (rule reachable_step)
  moreover have "?step ?g1 \<lparr>gw_streams = [0 \<mapsto> ?s1], gw_received = [0 \<mapsto> ?h], gw_calls = Map.empty, gw_resolver = ?v0\<rparr>"
    using gw_headers [of ?g1 0 ?s0 fixture_module sample_inputs True] q(1) by simp
  ultimately have "?R \<lparr>gw_streams = [0 \<mapsto> ?s1], gw_received = [0 \<mapsto> ?h], gw_calls = Map.empty, gw_resolver = ?v0\<rparr>"
    (is "reachable _ _ ?g2") by (rule reachable_step)
  moreover have "?step ?g2 \<lparr>gw_streams = [0 \<mapsto> ?s1], gw_received = [0 \<mapsto> ?h], gw_calls = [0 \<mapsto> 5], gw_resolver = ?v1\<rparr>"
    using gw_call [of ?g2 0 ?s1 DEFAULT_CLUSTER callout_headers "''q''" DEFAULT_TIMEOUT_MS "server_request_of callout_headers ''q''"
        fixture_wire fixture_service fixture_query 5 fixture_module sample_settings]
    by (simp add: fixture_call_def server_request_of_def callout_headers_def fixture_wire_def arrive_def)
  ultimately have g3: "?R \<lparr>gw_streams = [0 \<mapsto> ?s1], gw_received = [0 \<mapsto> ?h], gw_calls = [0 \<mapsto> 5], gw_resolver = ?v1\<rparr>"
    (is "reachable _ _ ?g3") by (rule reachable_step)
  obtain i t where r: "resolve_inner fixture_service fixture_load_times fixture_load_times fixture_query fixture_start =
     (Ok (Resolved i (Ed25519Jwk_new ''k'')), t)"
    using fixture_resolve_inner by blast
  let ?v2 = "solo 5 (Finished fixture_query (Ok (Resolved i (Ed25519Jwk_new ''k'')))) t 63"
  have "(resolver_works fixture_service)\<^sup>*\<^sup>* ?v1 ?v2"
    by (rule alone_works [OF _ _ r]) (simp_all add: fixture_service_def fixture_total limits_default_valid)
  from gateway_works [OF this _ _ g3] have g4: "?R (?g3\<lparr>gw_resolver := ?v2\<rparr>)" by simp
  have i: "i = fixture_identifier"
  proof -
    have j: "rv_jobs ?v2 5 = Some (Finished fixture_query (Ok (Resolved i (Ed25519Jwk_new ''k''))))"
      by (simp add: solo_def)
    have "gateway_inv fixture_module sample_settings fixture_service (?g3\<lparr>gw_resolver := ?v2\<rparr>)"
      using gateways.inv_reachable [OF g4] json_laws_fixture by (simp add: fixture_service_def)
    from resolver_resolved_ok [OF gateway_invD(1) [OF this, simplified] j] show ?thesis
      by (auto simp: resolved_ok_def accepted_def validate_request_Ok fixture_service_def fixture_query_def fixture_identifier_def)
  qed
  have st: "response_status (Some [('':status'', ''200'')]) = Some 200"
    by (simp add: response_status_def valid_utf8_ascii is_ascii_byte_def byte_val_def parse_unsigned_def
        is_digit_def digits_value_def)
  have "verify_resolver_response sample_wba c (Inr fixture_answer) =
      VerificationResult.Verified \<lparr>vi_identifier = cand_identifier c, vi_key_id = cand_key_id c\<rparr>"
    using q(4,5) by (auto simp: verify_Verified_iff sample_wba_def Ed25519Jwk_new_def fixture_answer_def)
  moreover obtain env f' where d: "on_http_callout_done fixture_module (\<lambda>n. n) 7 True (Some [('':status'', ''200'')]) (Some [''r''])
      f \<lparr>env_headers = sample_headers, env_log = [fixture_call]\<rparr> = (env, f')" by fastforce
  ultimately have "ContinueDecoding \<in> set (env_log env)"
    using st q(2) by (auto simp: on_http_callout_done_def join_response_body_eq MAX_RESOLVE_BODY_BYTES_def Let_def
        WebBotAuthFilter_new_def resume_def apply_result_def admission_def emit_def)
  moreover have "?R (?g3\<lparr>gw_resolver := ?v2, gw_streams :=
      [0 \<mapsto> \<lparr>st_env = env, st_filter = f', st_status = Some StopAllIterationAndWatermark\<rparr>]\<rparr>)"
  proof (rule reachable_step [OF g4])
    show "?step (?g3\<lparr>gw_resolver := ?v2\<rparr>) (?g3\<lparr>gw_resolver := ?v2, gw_streams :=
      [0 \<mapsto> \<lparr>st_env = env, st_filter = f', st_status = Some StopAllIterationAndWatermark\<rparr>]\<rparr>)"
      using gw_answer [of "?g3\<lparr>gw_resolver := ?v2\<rparr>" 0 ?s1 StopAllIterationAndWatermark 5 fixture_query
          "Ok (Resolved i (Ed25519Jwk_new ''k''))" fixture_wire 200 "[''r'']" "Some [('':status'', ''200'')]"
          fixture_module "\<lambda>n. n" 7 env f' sample_settings fixture_service] st d
      by (simp add: solo_def resolve_answer_def fixture_wire_def i fixture_answer_def)
  qed
  ultimately show ?thesis
    by (intro exI [of _ "\<lparr>st_env = env, st_filter = f', st_status = Some StopAllIterationAndWatermark\<rparr>"] exI conjI)
      (assumption, simp_all add: released_def)
qed

end
