(* ===== verification/Spec2Isabelle.thy ===== *)
theory Spec2Isabelle
  imports Commands Telemetry Gateway
begin

text \<open>
  Web Bot Auth for Envoy: an Envoy filter that verifies signed requests of automated agents, and the
  resolver that fetches the agents' keys for it. All paths below are under \<open>src/\<close>.

  \<^bold>\<open>The program.\<close> The filter (\<open>crates/module\<close>) removes the identity headers a client may have sent, captures
  the request, parses its signature fields into a candidate and sends the candidate's discovery URL and key
  id to the resolver in a callout. The resolver (\<open>crates/resolver\<close>) answers with the key it found at that URL,
  through a bounded cache, rate limits, circuit breakers, an address policy and an HTTP client pinned to a
  checked address. The filter then checks the signature under that key and applies its admission policy. Both
  share the wire types and the discovery URL rules of \<open>crates/protocol\<close>.

  \<^bold>\<open>Theories\<close>, in the order of the data:
  \<^item> \<open>Wba_Prelude\<close>: results with error and panic, byte strings, durations, checked and saturating
    arithmetic on 32 and 64-bit words, reachable states and the locale \<open>invariant_of\<close> that every state
    machine below interprets. \<open>Interfaces\<close>: the types of libraries the module matches on, and headers.
  \<^item> \<open>Url_Path\<close> and \<open>Protocol\<close> (\<open>protocol/src/lib.rs\<close>): percent and dot segment normalisation against
    reference functions, discovery targets, keys, limits.
  \<^item> \<open>Config\<close>, \<open>Policy\<close>, \<open>Request\<close>, \<open>Candidate\<close>, \<open>Verify\<close>, \<open>Envoy_Filter\<close> (\<open>module/src/config.rs\<close>,
    \<open>policy.rs\<close>, \<open>request.rs\<close>, \<open>candidate.rs\<close>, \<open>verify.rs\<close>, \<open>filter.rs\<close> with \<open>lib.rs\<close>): settings, the verdicts and
    the admission table, the bounded capture, the parsing of a candidate on 64-bit times, the check of the
    resolver's answer, and the filter's two callbacks as steps of a stream.
  \<^item> \<open>Ssrf\<close>, \<open>Fetch\<close>, \<open>Resource\<close>, \<open>Controls\<close>, \<open>Cache\<close>, \<open>Metrics\<close>, \<open>Fixture\<close>, \<open>Loader\<close>, \<open>Service\<close>, \<open>Server\<close>
    (files of the same names under \<open>resolver/src\<close>): the address policy on address words, one fetch, the
    documents, limits with circuits, stored representations, instruments, the test transport, the refresh and
    load of a resource, discovery with the choice of the key, and the HTTP routes.
  \<^item> \<open>Startup\<close> and \<open>Commands\<close> (\<open>resolver/src/bin/main.rs\<close>, \<open>bin/listener/mod.rs\<close>): arguments, the choice of
    the client, listeners, the socket file, the fixture server and the exit status.
  \<^item> \<open>Interleaving\<close> and \<open>Telemetry\<close>: the loader's operations cut at their await points into tasks that
    interleave and may be dropped, and what the metrics say of them.
  \<^item> \<open>Resolutions\<close>: the service over those tasks. \<open>service.rs\<close> is cut at its loads (\<open>begin_resolution\<close> up to the first
    load, \<open>after_load\<close> from a load to the next or to the answer), and any number of requests arrive, take a handler,
    load, time out and are dropped in any order.
  \<^item> \<open>Gateway\<close>: an Envoy with any number of the filter's streams, whose callouts become resolutions of that resolver.
    Its steps are the filter's callbacks, the resolver's steps and what Envoy does between the two.
  \<^item> This theory: what holds of module and resolver together.

  \<^bold>\<open>State.\<close> A struct is a record with the source's fields (with a prefix where names meet); an operation on
  \<open>&self\<close> or behind a lock takes the state and returns the new one; \<open>Result\<close> with the panics of \<open>expect\<close> and
  indexing is the type \<open>res\<close>. Clock readings are arguments, one for each reading in the code, so that no
  result depends on how they are related. What the code hands to Envoy, to the HTTP client or to a metric is
  kept as a history in the state. Words have the width of the code; Rust strings are lists of bytes. The
  caches of \<open>moka\<close> are maps; a step of their machines may remove any entries.

  \<^bold>\<open>Parameters.\<close> Code outside \<open>src/\<close> is an argument, with the behaviour relied on as a named predicate:
  URLs (\<open>url_laws\<close>), header maps (\<open>header_laws\<close>), address prefixes (\<open>ipnet_laws\<close>), structured fields, the
  signature library, SHA-256 and base64, JSON (\<open>json_laws\<close>), the rate limiter, cache policies, DNS, the HTTP client and the file
  system. Each has an instance in the theories (\<open>plain_url_api\<close>, \<open>alist_header_api\<close>, \<open>prefix_ipnet\<close>,
  \<open>fixture_env\<close>, ...) on which the witnesses run; the test transport of the program is the instance of DNS and HTTP.

  \<^bold>\<open>Interfaces.\<close> \<open>invariant_of\<close> (an invariant of a step relation) is interpreted for the filter's stream,
  the controls, the loader, the fixture application, the concurrent loads, the metrics, the concurrent
  resolutions and the gateway; \<open>refresher\<close> is what the cache asks of a refresh, interpreted on the loader's; the address policy's contract is interpreted on
  \<open>validate_all_addresses\<close>.

  \<^bold>\<open>What is shown.\<close> For the filter: identity headers only ever come from a verified signature, modes decide
  exactly as the table says, a request is settled once, and callbacks never panic. For the candidate: which
  coverage and times are accepted, and that the URL is the signed one. For the resolver: every request is
  to an allowed port and pinned to a globally reachable address of one checked DNS answer; everything served was
  parsed from a response from the URL asked for; lifetimes, failure times and metrics are bounded; permits and
  handlers come back. The concurrent model repeats these for every interleaving with deadlines, panics and drops,
  shows that each key is refreshed by one task at a time, that waiting tasks always have a task to wait for, that
  every load and every resolution ends, and that the sequential \<open>load\<close> and \<open>resolve_inner\<close> are schedules of
  it, so that what is shown of them alone holds of runs of it. Together, in the gateway: an identity header that
  reaches the upstream names the URL that the request's own signature covers, and the signature verified under a key
  that was published there.

  \<^bold>\<open>Bounds and termination.\<close> No fuel is used: recursion is structural or has a measure; concurrent
  loads end by the measure \<open>work_left\<close> (at most thirteen steps each) and resolutions by \<open>resolver_left\<close> (at most
  twenty-nine: twice thirteen for two loads, one step after each, and the first look at the request). Concurrency
  is at the granularity of operations that hold their lock: \<open>begin_fetch\<close>, \<open>check_ip\<close> and the circuit operations
  are single steps.

  \<^bold>\<open>Envoy\<close> is taken to call the headers callback once, to hand each callout to the resolver at most once, and to report
  as its answer either the resolver's response to it or anything that is not a successful 200 with a body, with any
  callout id and at any time.

  \<^bold>\<open>Not modelled.\<close> Encodings of the wire types by \<open>serde\<close>, argument parsing by \<open>clap\<close>, building the telemetry
  exporter, TLS, the Envoy SDK with its panic guard around the filter, and the crate root's re-exports: they are
  library calls or declarations without logic. Start-up log lines are functions of their own and not in the results of
  \<open>serve\<close>. Tests and deployment files are left out.
\<close>

section \<open>The module and the resolver together\<close>

text \<open>
  C17. The two programs agree on what they talk about: the resolver never refuses as malformed a request that
  the module builds from a candidate, and every answer it gives is for the identifier the module expects,
  so the module never ends with an identifier mismatch.
\<close>

theorem module_resolver_agree:
  assumes "VerificationCandidate_parse S W (rl_urls (rs_loader self)) r legacy required now max_lifetime skew = Ok c"
    and "resolve_inner self t1 t2 (candidate_request c) s = (result, s')"
  shows "(\<exists>target. validate_request (rl_urls (rs_loader self)) (candidate_request c) = Ok target) \<and>
    (\<forall>response. result = Ok response \<longrightarrow>
       resp_identifier response = cand_identifier c \<and>
       result_reason (verify_resolver_response W c (Inr response)) \<noteq> Reason.ResolverIdentifier)"
proof -
  from assms(1) obtain target where t: "validate_request (rl_urls (rs_loader self)) (candidate_request c) = Ok target"
    "cand_identifier c = target_identifier target"
    by (rule candidate_request_valid)
  have "resp_identifier response = cand_identifier c" if "result = Ok response" for response
    using resolve_inner_identifier [of self t1 t2 "candidate_request c" s response s'] assms(2) that t by auto
  moreover have "result_reason (verify_resolver_response W c (Inr response)) \<noteq> Reason.ResolverIdentifier"
    if "resp_identifier response = cand_identifier c" for response
    using that by (cases response) (auto simp: verify_resolver_response_def split: option.splits)
  ultimately show ?thesis using t(1) by blast
qed

text \<open>
  From the wire to the verdict, in a resolver that answers any number of requests at once under any schedule,
  with deadlines, panics and clients that go away: when the module verifies a request with an answer the resolver
  gave to the question it asked, the identity is that of the URL in the signed agent field, and the signature verified
  under a key whose thumbprint is the signed key id, and which the resolver found in a key set fetched
  over a safe request from that URL (or from where the client metadata at that URL points). With test keys
  switched off the key id is not the published test key's.
\<close>

lemma verified_end_to_end:
  assumes "VerificationCandidate_parse S W (rl_urls (rs_loader self)) r legacy required now max_lifetime skew = Ok c"
    and "reachable (resolver_init self) (resolver_step self) v"
    and "rv_jobs v j = Some (Finished (candidate_request c) (Ok response))"
    and "verify_resolver_response W c (Inr response) = VerificationResult.Verified i"
  shows "\<exists>target e keyring.
    parse_discovery_target (rl_urls (rs_loader self)) (cand_signed_url c) (cand_discovery c) = Ok target \<and>
    vi_identifier i = target_identifier target \<and> vi_key_id i = cand_key_id c \<and>
    wba_keyid W (cand_verifier c) = Some (cand_key_id c) \<and>
    published (rs_loader self) (cand_discovery c) (target_fetch_url target) e \<and>
    is_valid_public_key (dec_crypto (rl_decode (rs_loader self))) (entry_jwk e) \<and>
    okp_thumbprint W ''Ed25519'' (jwk_x (entry_jwk e)) = cand_key_id c \<and>
    try_import_jwk W ''Ed25519'' (jwk_x (entry_jwk e)) = Some keyring \<and> wba_verify W (cand_verifier c) keyring \<and>
    (rs_allow_test_keys self \<or> vi_key_id i \<noteq> ''poqkLGiymh_W0uP6PZFw-dvez3QJT5SolqXBCW38r0U'')"
proof (rule verified_provenance [OF assms(1,4)])
  fix name jwk
  assume "response = Resolved name jwk"
  then show "resolved_ok self (candidate_request c) name jwk"
    using resolver_resolved_ok [OF assms(2), of j "candidate_request c"] assms(3) by simp
qed

text \<open>The same for one resolution alone, from any reachable state of the loader.\<close>

lemma verified_alone:
  assumes "VerificationCandidate_parse S W (rl_urls (rs_loader self)) r legacy required now max_lifetime skew = Ok c"
    and "reachable (loader_init (rs_loader self) L) (loader_step (rs_loader self)) s"
    and "resolve_inner self t1 t2 (candidate_request c) s = (Ok response, s')"
    and "verify_resolver_response W c (Inr response) = VerificationResult.Verified i"
  shows "\<exists>target e keyring.
    parse_discovery_target (rl_urls (rs_loader self)) (cand_signed_url c) (cand_discovery c) = Ok target \<and>
    vi_identifier i = target_identifier target \<and> vi_key_id i = cand_key_id c \<and>
    wba_keyid W (cand_verifier c) = Some (cand_key_id c) \<and>
    published (rs_loader self) (cand_discovery c) (target_fetch_url target) e \<and>
    is_valid_public_key (dec_crypto (rl_decode (rs_loader self))) (entry_jwk e) \<and>
    okp_thumbprint W ''Ed25519'' (jwk_x (entry_jwk e)) = cand_key_id c \<and>
    try_import_jwk W ''Ed25519'' (jwk_x (entry_jwk e)) = Some keyring \<and> wba_verify W (cand_verifier c) keyring \<and>
    (rs_allow_test_keys self \<or> vi_key_id i \<noteq> ''poqkLGiymh_W0uP6PZFw-dvez3QJT5SolqXBCW38r0U'')"
proof (rule verified_provenance [OF assms(1,4)])
  fix name jwk
  assume "response = Resolved name jwk"
  with assms(3) show "resolved_ok self (candidate_request c) name jwk"
    using resolved_entry [OF assms(2)] unfolding resolved_ok_def accepted_def by metis
qed

theorem module_resolver_agree_witness:
  "\<exists>target. validate_request plain_url_api fixture_query = Ok target"
proof -
  obtain c where c: "VerificationCandidate_parse fixture_sfv sample_wba (rl_urls (rs_loader fixture_service)) sample_request
      False [''@authority''] 150 86400 5 = Ok c" "candidate_request c = fixture_query"
    using fixture_candidate by (auto simp: fixture_service_def)
  obtain r s' where "resolve_inner fixture_service fixture_load_times fixture_load_times (candidate_request c) fixture_start = (r, s')"
    by fastforce
  from module_resolver_agree [OF c(1) this] c(2) show ?thesis by (simp add: fixture_service_def)
qed

text \<open>
  C1. Who a request is from: in a gateway with any number of streams and resolutions, under any schedule, with
  deadlines, panics, lost callouts and clients that go away at any point, and whatever the clients send. An identity
  header that reaches the upstream names the discovery URL in the agent field that the request's own signature
  covers; the signature verified under a key whose thumbprint is the signed key id; and the resolver found that key in a
  key set it fetched over a safe request from that URL (or from where the client metadata at that URL points). In
  required mode no other request goes on at all. With test keys switched off the key is not the published
  test key.
\<close>

theorem gateway_identity_is_published:
  assumes "header_laws (m_headers M)" and "json_laws M J" and "m_url M = rl_urls (rs_loader self)"
    and "reachable (gateway_init self) (gateway_step M settings J self) g"
    and "gw_streams g n = Some s" and "gw_received g n = Some h"
  shows "(cfg_mode settings = Required \<and> released s \<longrightarrow> (\<exists>i. endorsed M settings self h i)) \<and>
    (\<forall>v. st_status s \<noteq> None \<and> v \<in> set (hdr_values (m_headers M) (env_headers (st_env s)) HEADER_IDENTITY) \<longrightarrow>
       (\<exists>i. endorsed M settings self h i \<and> v = vi_identifier i \<and>
          hdr_values (m_headers M) (env_headers (st_env s)) HEADER_KEY_ID = [vi_key_id i]))"
proof -
  have "gateway_inv M settings self g"
    using gateways.inv_reachable [OF assms(4)] assms(2,3) by blast
  from gateway_invD(4) [OF this assms(5)] assms(6) have s: "stream_ok M settings self h s" by simp
  show ?thesis
    using stream_ok_inv [OF s]
  proof (cases rule: stream_inv_cases)
    case waiting
    then show ?thesis
      using header_laws_simps [OF assms(1)] by (simp add: sanitized_def header_name_defs)
  next
    case (settled status)
    with s obtain r where r: "settled M settings h status (st_env s) r"
      "\<And>i. r = VerificationResult.Verified i \<Longrightarrow> endorsed M settings self h i"
      unfolding stream_ok_def outcome_ok_def by blast
    have e: "env_headers (st_env s) = result_headers (m_headers M) (cfg_forward_identity_headers settings) r (sanitized (m_headers M) h)"
      using r(1) by (simp add: settled_def)
    from settled_outcome(1) [OF r(1) settled(1)] r(2) show ?thesis
      unfolding e result_headers_values(1,2) [OF assms(1)]
      by (cases r) (auto simp: admission_Allow_iff split: if_splits)
  qed simp
qed

theorem gateway_identity_is_published_witness:
  "\<exists>g s i. reachable (gateway_init fixture_service) (gateway_step fixture_module sample_settings fixture_wire fixture_service) g \<and>
     gw_streams g 0 = Some s \<and> released s \<and> endorsed fixture_module sample_settings fixture_service spoofed_headers i"
proof -
  obtain g s where g: "reachable (gateway_init fixture_service) (gateway_step fixture_module sample_settings fixture_wire fixture_service) g"
    "gw_streams g 0 = Some s" "gw_received g 0 = Some spoofed_headers" "released s"
    using fixture_gateway by blast
  have l: "header_laws (m_headers fixture_module)" "m_url fixture_module = rl_urls (rs_loader fixture_service)"
    "cfg_mode sample_settings = Required"
    by (simp_all add: header_laws_alist fixture_service_def sample_settings_def)
  from gateway_identity_is_published [OF l(1) json_laws_fixture l(2) g(1-3)] g(4) l(3)
  obtain i where i: "endorsed fixture_module sample_settings fixture_service spoofed_headers i" by blast
  with g show ?thesis by blast
qed

end
